(* ===== verification/Egress_Prelude.thy ===== *)
theory Egress_Prelude
  imports Main "HOL-Library.Word"
begin

text \<open>
  Shared vocabulary of the development.

  \<^item> Time: a Go \<open>time.Time\<close> is the number of nanoseconds since the epoch (\<open>int\<close>); a
    \<open>time.Duration\<close> is Go's signed 64-bit count of nanoseconds, kept as a \<open>64 word\<close> and
    read with \<open>sint\<close>, so that every wrap-around of duration arithmetic is visible.
  \<^item> The clock: the code calls \<open>time.Now()\<close> several times inside one operation, and each call
    may give another reading. A \<open>clock\<close> is the sequence of the readings still to come;
    \<open>now\<close> takes the next one. Readings that never go backwards are \<open>mono\<close>.
  \<^item> Results: \<open>ret\<close> is the outcome of a Go call with an \<open>error\<close> result, with a panic as a
    third outcome.
\<close>

named_theorems go_defs "small definitions of the model, unfolded by most proofs"

type_synonym time = int
type_synonym duration = "64 word"
type_synonym clock = "nat \<Rightarrow> time"

definition second :: duration where
  "second = 1000000000"

definition now :: "clock \<Rightarrow> time \<times> clock" where
  "now c = (c 0, \<lambda>n. c (Suc n))"

definition time_add :: "time \<Rightarrow> duration \<Rightarrow> time" where
  "time_add t d = t + sint d"

definition time_before :: "time \<Rightarrow> time \<Rightarrow> bool" where
  "time_before t u \<longleftrightarrow> t < u"

definition time_after :: "time \<Rightarrow> time \<Rightarrow> bool" where
  "time_after t u \<longleftrightarrow> u < t"

declare time_add_def [go_defs] time_before_def [go_defs] time_after_def [go_defs] now_def [go_defs]

datatype 'e ret = Nil_ret | Err 'e | Panic string

section \<open>Clocks\<close>

text \<open>\<open>later c c'\<close>: the clock \<open>c'\<close> is what is left of \<open>c\<close> after some readings.\<close>

definition later :: "clock \<Rightarrow> clock \<Rightarrow> bool" where
  "later c c' \<longleftrightarrow> (\<exists>k. c' = (\<lambda>n. c (k + n)))"

lemma later_refl [simp, intro]: "later c c"
  unfolding later_def by (rule exI [of _ 0]) simp

lemma later_Suc [simp, intro]: "later c (\<lambda>n. c (Suc n))"
  unfolding later_def by (rule exI [of _ 1]) simp

lemma later_trans [trans]: "later a b \<Longrightarrow> later b c \<Longrightarrow> later a c"
proof -
  assume "later a b" and "later b c"
  then obtain j k where "b = (\<lambda>n. a (j + n))" "c = (\<lambda>n. b (k + n))"
    by (auto simp: later_def)
  then have "c = (\<lambda>n. a ((j + k) + n))" by (simp add: add.assoc)
  then show ?thesis unfolding later_def by blast
qed

lemma later_SucI: "later (\<lambda>n. c (Suc n)) c' \<Longrightarrow> later c c'"
  by (rule later_trans [OF later_Suc])

lemma later_Sucs [simp, intro]:
  "later c (\<lambda>n. c (Suc (Suc n)))"
  "later c (\<lambda>n. c (Suc (Suc (Suc n))))"
  unfolding later_def by (rule exI [of _ 2], simp, rule exI [of _ 3], simp add: eval_nat_numeral)

lemma mono_Suc [simp, intro]: "mono (c :: clock) \<Longrightarrow> mono (\<lambda>n. c (Suc n))"
  by (simp add: mono_def)

lemma mono_later: "mono c \<Longrightarrow> later c c' \<Longrightarrow> mono c'"
  by (auto simp: later_def mono_def)

lemma mono_read_le: "mono (c :: clock) \<Longrightarrow> c 0 \<le> c n"
  by (simp add: monoD)

lemma mono_later_le: "mono c \<Longrightarrow> later c c' \<Longrightarrow> c 0 \<le> c' n"
  by (auto simp: later_def intro: monoD)

lemma mono_reads: "mono (c :: clock) \<Longrightarrow> i \<le> j \<Longrightarrow> c i \<le> c j"
  by (simp add: monoD)

section \<open>Maps\<close>

lemma map_upd_ne [simp]: "k \<noteq> j \<Longrightarrow> (m(j \<mapsto> v)) k = m k"
  by simp

text \<open>Deleting every key of a list from a map, one after the other.\<close>

fun delete_all :: "'k list \<Rightarrow> ('k \<rightharpoonup> 'v) \<Rightarrow> ('k \<rightharpoonup> 'v)" where
  "delete_all [] m = m"
| "delete_all (k # ks) m = delete_all ks (m(k := None))"

lemma delete_all_apply: "delete_all ks m k = (if k \<in> set ks then None else m k)"
  by (induction ks arbitrary: m) auto

lemma delete_all_eq: "delete_all ks m = (\<lambda>k. if k \<in> set ks then None else m k)"
  by (simp add: fun_eq_iff delete_all_apply)

text \<open>
  A Go \<open>range\<close> over a map visits every key once, in an order the language leaves open. An
  order of visits for a map is a list of its keys.
\<close>

definition visits :: "'k list \<Rightarrow> ('k \<rightharpoonup> 'v) \<Rightarrow> bool" where
  "visits ks m \<longleftrightarrow> distinct ks \<and> set ks = dom m"

lemma visits_dom: "visits ks m \<Longrightarrow> k \<in> set ks \<longleftrightarrow> m k \<noteq> None"
  by (auto simp: visits_def)

section \<open>Case trees\<close>

text \<open>
  A function of the program is often a tree of case distinctions. \<open>ensures P x\<close> is \<open>P x\<close>, kept folded so that the rules
  below take the tree apart and leave the results at its leaves, with the equations that lead there.
\<close>

definition ensures :: "('a \<Rightarrow> bool) \<Rightarrow> 'a \<Rightarrow> bool" where
  "ensures P x \<longleftrightarrow> P x"

lemma ensures_tree:
  "(\<And>a. x = Inl a \<Longrightarrow> ensures P (f a)) \<Longrightarrow> (\<And>b. x = Inr b \<Longrightarrow> ensures P (g b)) \<Longrightarrow> ensures P (case_sum f g x)"
  "(y = None \<Longrightarrow> ensures P z) \<Longrightarrow> (\<And>c. y = Some c \<Longrightarrow> ensures P (h c)) \<Longrightarrow> ensures P (case_option z h y)"
  "(\<And>u v. p = (u, v) \<Longrightarrow> ensures P (k u v)) \<Longrightarrow> ensures P (case_prod k p)"
  "(c \<Longrightarrow> ensures P s) \<Longrightarrow> (\<not> c \<Longrightarrow> ensures P t) \<Longrightarrow> ensures P (if c then s else t)"
  "ensures P (l e) \<Longrightarrow> ensures P (Let e l)"
  by (auto simp: Let_def split: sum.splits option.splits prod.splits)

lemma ensuresD: "ensures P x \<Longrightarrow> x = y \<Longrightarrow> P y"
  by (simp add: ensures_def)

end
