(* ===== verification/Go_Strings.thy ===== *)
theory Go_Strings
  imports Egress_Prelude
begin

text \<open>
  The functions of Go's \<open>strings\<close> package that the program calls, on byte strings
  (\<open>string\<close>). They are exact on ASCII text; the Unicode white space that \<open>TrimSpace\<close> and
  \<open>Fields\<close> know beyond ASCII does not occur in addresses, flags and commands.
\<close>

definition has_prefix :: "string \<Rightarrow> string \<Rightarrow> bool" where
  "has_prefix s p \<longleftrightarrow> length p \<le> length s \<and> take (length p) s = p"

definition has_suffix :: "string \<Rightarrow> string \<Rightarrow> bool" where
  "has_suffix s p \<longleftrightarrow> length p \<le> length s \<and> drop (length s - length p) s = p"

definition trim_prefix :: "string \<Rightarrow> string \<Rightarrow> string" where
  "trim_prefix s p = (if has_prefix s p then drop (length p) s else s)"

definition trim_suffix :: "string \<Rightarrow> string \<Rightarrow> string" where
  "trim_suffix s p = (if has_suffix s p then take (length s - length p) s else s)"

fun contains_str :: "string \<Rightarrow> string \<Rightarrow> bool" where
  "contains_str [] sub = (sub = [])"
| "contains_str (c # s) sub = (has_prefix (c # s) sub \<or> contains_str s sub)"

text \<open>\<open>strings.Split(s, sep)\<close> for a separator of one byte.\<close>

fun split_on :: "char \<Rightarrow> string \<Rightarrow> string list" where
  "split_on c [] = [[]]"
| "split_on c (x # xs) =
     (if x = c then [] # split_on c xs
      else (case split_on c xs of [] \<Rightarrow> [[x]] | w # ws \<Rightarrow> (x # w) # ws))"

definition is_space :: "char \<Rightarrow> bool" where
  "is_space c \<longleftrightarrow> c \<in> {CHR 0x09, CHR 0x0A, CHR 0x0B, CHR 0x0C, CHR 0x0D, CHR '' ''}"

definition trim_space :: "string \<Rightarrow> string" where
  "trim_space s = rev (dropWhile is_space (rev (dropWhile is_space s)))"

fun fields_acc :: "string \<Rightarrow> string \<Rightarrow> string list" where
  "fields_acc acc [] = (if acc = [] then [] else [rev acc])"
| "fields_acc acc (c # cs) =
     (if is_space c
      then (if acc = [] then fields_acc [] cs else rev acc # fields_acc [] cs)
      else fields_acc (c # acc) cs)"

definition str_fields :: "string \<Rightarrow> string list" where
  "str_fields s = fields_acc [] s"

section \<open>Prefixes and suffixes\<close>

lemma has_prefix_iff: "has_prefix s p \<longleftrightarrow> (\<exists>r. s = p @ r)"
proof
  assume "has_prefix s p"
  then have "s = p @ drop (length p) s"
    by (metis append_take_drop_id has_prefix_def)
  then show "\<exists>r. s = p @ r" by blast
qed (auto simp: has_prefix_def)

lemma has_suffix_iff: "has_suffix s p \<longleftrightarrow> (\<exists>r. s = r @ p)"
proof
  assume "has_suffix s p"
  then have "s = take (length s - length p) s @ p"
    by (metis append_take_drop_id has_suffix_def)
  then show "\<exists>r. s = r @ p" by blast
qed (auto simp: has_suffix_def)

lemma trim_suffix_append [simp]: "trim_suffix (s @ p) p = s"
  by (simp add: trim_suffix_def has_suffix_def)

lemma trim_prefix_append [simp]: "trim_prefix (p @ s) p = s"
  by (simp add: trim_prefix_def has_prefix_def)

section \<open>Splitting\<close>

lemma split_on_not_Nil [simp]: "split_on c s \<noteq> []"
  by (cases s) (auto split: list.splits)

lemma split_on_no_sep: "c \<notin> set s \<Longrightarrow> split_on c s = [s]"
  by (induction s) auto

lemma split_on_append: "c \<notin> set s \<Longrightarrow> split_on c (s @ c # t) = s # split_on c t"
  by (induction s) auto

lemma split_on_elem: "w \<in> set (split_on c s) \<Longrightarrow> c \<notin> set w"
proof (induction c s arbitrary: w rule: split_on.induct)
  case (2 c x xs)
  then show ?case
    by (cases "split_on c xs") (fastforce split: if_splits)+
qed simp

section \<open>Fields\<close>

definition plain_word :: "string \<Rightarrow> bool" where
  "plain_word w \<longleftrightarrow> w \<noteq> [] \<and> (\<forall>c \<in> set w. \<not> is_space c)"

lemma fields_acc_word:
  "\<forall>c \<in> set w. \<not> is_space c \<Longrightarrow> fields_acc acc (w @ s) = fields_acc (rev w @ acc) s"
  by (induction w arbitrary: acc) auto

lemma fields_word_space: "plain_word w \<Longrightarrow> str_fields (w @ CHR '' '' # s) = w # str_fields s"
  by (simp add: str_fields_def fields_acc_word plain_word_def is_space_def)

lemma fields_word_end: "plain_word w \<Longrightarrow> str_fields w = [w]"
  using fields_acc_word [of w "[]" "[]"] by (simp add: str_fields_def plain_word_def)

lemma fields_Nil [simp]: "str_fields [] = []"
  by (simp add: str_fields_def)

lemma plain_word_append: "plain_word v \<Longrightarrow> plain_word w \<Longrightarrow> plain_word (v @ w)"
  by (auto simp: plain_word_def)

end
