(* ===== verification/Go_Net.thy ===== *)
theory Go_Net
  imports Go_Strings
begin

text \<open>
  Go's \<open>net.IP\<close> as the program uses it: a byte slice (\<open>nil\<close> is the empty list) with
  \<open>To4\<close>, \<open>To16\<close>, \<open>String\<close> and the parser \<open>net.ParseIP\<close> (that is,
  \<open>netip.ParseAddr\<close> without a zone), and \<open>binary.BigEndian\<close>. The firewall managers key
  their tables by \<open>ip.String()\<close> or by the 128-bit form of the address; the round trip
  \<open>parse_ip_string4\<close> shows that the text of an IPv4 address determines the address.
\<close>

type_synonym ip = "8 word list"

section \<open>Forms of an address\<close>

definition v4_prefix :: "8 word list" where
  "v4_prefix = replicate 10 0 @ [255, 255]"

definition to4 :: "ip \<Rightarrow> ip option" where
  "to4 ip =
     (if length ip = 4 then Some ip
      else if length ip = 16 \<and> take 12 ip = v4_prefix then Some (drop 12 ip)
      else None)"

definition to16 :: "ip \<Rightarrow> ip option" where
  "to16 ip =
     (if length ip = 4 then Some (v4_prefix @ ip)
      else if length ip = 16 then Some ip
      else None)"

text \<open>\<open>binary.BigEndian.Uint32\<close> and \<open>Uint64\<close>: the number its bytes spell, most significant first.\<close>

fun be_int :: "int \<Rightarrow> 8 word list \<Rightarrow> int" where
  "be_int acc [] = acc"
| "be_int acc (b # bs) = be_int (acc * 256 + uint b) bs"

definition be_word :: "8 word list \<Rightarrow> 'a::len word" where
  "be_word bs = word_of_int (be_int 0 bs)"

section \<open>Text\<close>

definition digit_char :: "nat \<Rightarrow> char" where
  "digit_char d = (char_of (48 + d) :: char)"

fun dec_string :: "nat \<Rightarrow> string" where
  "dec_string n = (if n < 10 then [digit_char n] else dec_string (n div 10) @ [digit_char (n mod 10)])"

declare dec_string.simps [simp del]

definition hex_char :: "nat \<Rightarrow> char" where
  "hex_char d = (if d < 10 then char_of (48 + d) else char_of (87 + d))"

fun hex_string :: "nat \<Rightarrow> string" where
  "hex_string n = (if n < 16 then [hex_char n] else hex_string (n div 16) @ [hex_char (n mod 16)])"

declare hex_string.simps [simp del]

fun join :: "string \<Rightarrow> string list \<Rightarrow> string" where
  "join sep [] = []"
| "join sep [x] = x"
| "join sep (x # xs) = x @ sep @ join sep xs"

definition dotted :: "ip \<Rightarrow> string" where
  "dotted bs = join ''.'' (map (\<lambda>b. dec_string (unat b)) bs)"

fun groups16 :: "8 word list \<Rightarrow> nat list" where
  "groups16 (a # b # bs) = (unat a * 256 + unat b) # groups16 bs"
| "groups16 bs = []"

text \<open>
  The first longest run of at least two zero groups, as \<open>appendTo6\<close> finds it:
  \<open>best i gs (s, e)\<close> continues the search at group \<open>i\<close> with the best run so far.
\<close>

fun zero_run :: "nat list \<Rightarrow> nat" where
  "zero_run (g # gs) = (if g = 0 then Suc (zero_run gs) else 0)"
| "zero_run [] = 0"

fun best_run :: "nat \<Rightarrow> nat list \<Rightarrow> nat \<times> nat \<Rightarrow> nat \<times> nat" where
  "best_run i [] se = se"
| "best_run i (g # gs) se =
     (let l = zero_run (g # gs)
      in best_run (Suc i) gs (if 2 \<le> l \<and> snd se - fst se < l then (i, i + l) else se))"

fun emit6 :: "nat \<Rightarrow> nat list \<Rightarrow> nat \<times> nat \<Rightarrow> string" where
  "emit6 i [] se = []"
| "emit6 i (g # gs) (s, e) =
     (if s < e \<and> i = s then ''::'' @ emit6 (Suc i) gs (s, e)
      else if s < i \<and> i < e then emit6 (Suc i) gs (s, e)
      else (if i = 0 \<or> (s < e \<and> i = e) then [] else '':'') @ hex_string g @ emit6 (Suc i) gs (s, e))"

definition v6_string :: "8 word list \<Rightarrow> string" where
  "v6_string bs = (let gs = groups16 bs in emit6 0 gs (best_run 0 gs (0, 0)))"

definition hex_bytes :: "8 word list \<Rightarrow> string" where
  "hex_bytes bs = concat (map (\<lambda>b. [hex_char (unat b div 16), hex_char (unat b mod 16)]) bs)"

definition ip_string :: "ip \<Rightarrow> string" where
  "ip_string ip =
     (if ip = [] then ''<nil>''
      else if length ip \<noteq> 4 \<and> length ip \<noteq> 16 then CHR ''?'' # hex_bytes ip
      else (case to4 ip of Some p4 \<Rightarrow> dotted p4 | None \<Rightarrow> v6_string ip))"

section \<open>Parsing\<close>

definition is_digit :: "char \<Rightarrow> bool" where
  "is_digit c \<longleftrightarrow> 48 \<le> (of_char c :: nat) \<and> (of_char c :: nat) \<le> 57"

definition digit_val :: "char \<Rightarrow> nat" where
  "digit_val c = of_char c - 48"

text \<open>
  \<open>parseIPv4Fields\<close>: \<open>val\<close> is the octet read so far, \<open>dl\<close> its number of digits and
  \<open>fs\<close> the finished octets.
\<close>

fun parse4 :: "nat \<Rightarrow> nat \<Rightarrow> 8 word list \<Rightarrow> string \<Rightarrow> ip option" where
  "parse4 val dl fs [] = (if length fs < 3 then None else Some (fs @ [of_nat val]))"
| "parse4 val dl fs (c # cs) =
     (if is_digit c then
        (if dl = 1 \<and> val = 0 then None
         else if 255 < val * 10 + digit_val c then None
         else parse4 (val * 10 + digit_val c) (Suc dl) fs cs)
      else if c = CHR ''.'' then
        (if dl = 0 \<or> cs = [] then None
         else if length fs = 3 then None
         else parse4 0 0 (fs @ [of_nat val]) cs)
      else None)"

definition hex_val :: "char \<Rightarrow> nat option" where
  "hex_val c =
     (let n = of_char c :: nat
      in if 48 \<le> n \<and> n \<le> 57 then Some (n - 48)
         else if 97 \<le> n \<and> n \<le> 102 then Some (n - 87)
         else if 65 \<le> n \<and> n \<le> 70 then Some (n - 55)
         else None)"

fun hex_span :: "string \<Rightarrow> nat list \<times> string" where
  "hex_span [] = ([], [])"
| "hex_span (c # cs) =
     (case hex_val c of
        None \<Rightarrow> ([], c # cs)
      | Some d \<Rightarrow> (let (ds, r) = hex_span cs in (d # ds, r)))"

lemma hex_span_length: "length (snd (hex_span s)) \<le> length s"
  by (induction s) (auto split: option.splits prod.splits)

lemma hex_span_less: "(ds, c # r) = hex_span s \<Longrightarrow> length r < length s"
  using hex_span_length [of s] by (metis Suc_le_eq length_Cons snd_conv)

text \<open>
  \<open>parseIPv6\<close> after a leading ellipsis is taken off: the bytes so far, the position of
  the ellipsis, and the rest of the text.
\<close>

function parse6 :: "8 word list \<Rightarrow> nat option \<Rightarrow> string \<Rightarrow> (8 word list \<times> nat option) option" where
  "parse6 bs ell s =
     (if 16 \<le> length bs then (if s = [] then Some (bs, ell) else None)
      else
        let (ds, r) = hex_span s
        in if ds = [] \<or> 4 < length ds then None
           else
             let v = foldl (\<lambda>a d. a * 16 + d) 0 ds;
                 bs' = bs @ [of_nat (v div 256), of_nat (v mod 256)]
             in case r of
                  [] \<Rightarrow> Some (bs', ell)
                | c # r1 \<Rightarrow>
                    if c = CHR ''.'' then
                      (if (ell = None \<and> length bs \<noteq> 12) \<or> 16 < length bs + 4 then None
                       else map_option (\<lambda>f. (bs @ f, ell)) (parse4 0 0 [] s))
                    else if c \<noteq> CHR '':'' then None
                    else (case r1 of
                        [] \<Rightarrow> None
                      | d # r2 \<Rightarrow>
                          if d = CHR '':'' then
                            (if ell \<noteq> None then None
                             else if r2 = [] then Some (bs', Some (length bs'))
                             else parse6 bs' (Some (length bs')) r2)
                          else parse6 bs' ell r1))"
  by pat_completeness auto
termination
  by (relation "measure (\<lambda>(bs, ell, s). length s)") (auto dest: hex_span_less)

declare parse6.simps [simp del]

definition expand6 :: "8 word list \<times> nat option \<Rightarrow> ip option" where
  "expand6 p =
     (case p of (bs, ell) \<Rightarrow>
        if length bs < 16
        then (case ell of None \<Rightarrow> None
              | Some e \<Rightarrow> Some (take e bs @ replicate (16 - length bs) 0 @ drop e bs))
        else (if ell \<noteq> None then None else Some bs))"

definition parse_ipv6 :: "string \<Rightarrow> ip option" where
  "parse_ipv6 s =
     (if CHR ''%'' \<in> set s then None
      else if has_prefix s ''::'' then
        (if drop 2 s = [] then Some (replicate 16 0)
         else Option.bind (parse6 [] (Some 0) (drop 2 s)) expand6)
      else Option.bind (parse6 [] None s) expand6)"

definition parse_ip :: "string \<Rightarrow> ip option" where
  "parse_ip s =
     (case dropWhile (\<lambda>c. c \<notin> {CHR ''.'', CHR '':'', CHR ''%''}) s of
        [] \<Rightarrow> None
      | c # _ \<Rightarrow>
          if c = CHR ''.'' then map_option (\<lambda>b. v4_prefix @ b) (parse4 0 0 [] s)
          else if c = CHR '':'' then parse_ipv6 s
          else None)"

section \<open>The text of an IPv4 address determines it\<close>

lemma of_char_digit_char: "d < 10 \<Longrightarrow> of_char (digit_char d) = (48 + d :: nat)"
  by (simp add: digit_char_def)

lemma is_digit_digit_char [simp]: "d < 10 \<Longrightarrow> is_digit (digit_char d)"
  by (simp add: is_digit_def of_char_digit_char)

lemma digit_val_digit_char [simp]: "d < 10 \<Longrightarrow> digit_val (digit_char d) = d"
  by (simp add: digit_val_def of_char_digit_char)

lemma dec_string_small: "n < 10 \<Longrightarrow> dec_string n = [digit_char n]"
  by (subst dec_string.simps) simp

lemma dec_string_step:
  "10 \<le> n \<Longrightarrow> dec_string n = dec_string (n div 10) @ [digit_char (n mod 10)]"
  by (subst dec_string.simps) simp

text \<open>An octet is read back: its text moves the parser to the octet's value.\<close>

lemma parse4_octet:
  assumes "n < 256"
  shows "parse4 0 0 fs (dec_string n @ r) = parse4 n (length (dec_string n)) fs r"
proof -
  consider "n < 10" | "10 \<le> n" "n < 100" | "100 \<le> n" by linarith
  then show ?thesis
  proof cases
    case 1
    then show ?thesis by (simp add: dec_string_small)
  next
    case 2
    then have "n div 10 < 10" "n div 10 \<noteq> 0" "0 < n div 10" "n div 10 \<le> 255" by auto
    moreover have "n div 10 * 10 + n mod 10 = n" by simp
    ultimately show ?thesis using 2 assms
      by (auto simp add: dec_string_step [of n] dec_string_small simp del: div_greater_zero_iff)
  next
    case 3
    have a: "n div 10 div 10 < 10" "n div 10 div 10 \<noteq> 0" "10 \<le> n div 10"
      using 3 assms by auto
    have b: "n div 10 div 10 * 10 + n div 10 mod 10 = n div 10"
      "n div 10 * 10 + n mod 10 = n" by auto
    have "n div 10 \<le> 255" using assms by auto
    with a b assms show ?thesis
      by (auto simp add: dec_string_step [of n] dec_string_step [of "n div 10"] dec_string_small
          simp del: div_greater_zero_iff)
  qed
qed

lemma dec_string_not_Nil [simp]: "dec_string n \<noteq> []"
  by (subst dec_string.simps) simp

lemma dot_not_digit [simp]: "\<not> is_digit CHR ''.''"
  by (simp add: is_digit_def)

lemma parse4_dot:
  "0 < dl \<Longrightarrow> r \<noteq> [] \<Longrightarrow> length fs < 3 \<Longrightarrow>
   parse4 v dl fs (CHR ''.'' # r) = parse4 0 0 (fs @ [of_nat v]) r"
  by (auto simp: is_digit_def)

lemma unat_byte_less [simp]: "unat (b :: 8 word) < 256"
  using unsigned_less [of b] by simp

lemma four_bytes: "length (bs :: 8 word list) = 4 \<Longrightarrow> \<exists>a b c d. bs = [a, b, c, d]"
  by (auto simp: length_Suc_conv eval_nat_numeral)

lemma parse4_dotted:
  assumes "length bs = 4"
  shows "parse4 0 0 [] (dotted bs) = Some bs"
proof -
  obtain a b c d where bs: "bs = [a, b, c, d]" using four_bytes [OF assms] by blast
  show ?thesis
    using parse4_octet [of "unat d" "[a, b, c]" "[]"]
    by (simp add: bs dotted_def parse4_octet parse4_dot)
qed

lemma dec_string_chars: "c \<in> set (dec_string n) \<Longrightarrow> is_digit c"
proof (induction n rule: dec_string.induct)
  case (1 n)
  then show ?case
    by (cases "n < 10") (auto simp: dec_string_small dec_string_step)
qed

lemma digit_facts: "is_digit c \<Longrightarrow> c \<noteq> CHR ''.'' \<and> c \<noteq> CHR '':'' \<and> c \<noteq> CHR ''%'' \<and> \<not> is_space c"
  by (auto simp: is_digit_def is_space_def)

lemma dropWhile_digits:
  "\<forall>c \<in> set ds. is_digit c \<Longrightarrow>
   dropWhile (\<lambda>c. c \<notin> {CHR ''.'', CHR '':'', CHR ''%''}) (ds @ CHR ''.'' # r) = CHR ''.'' # r"
  by (induction ds) (auto dest: digit_facts)

lemma parse_ip_dotted:
  assumes "length bs = 4"
  shows "parse_ip (dotted bs) = Some (v4_prefix @ bs)"
proof -
  obtain a b c d where bs: "bs = [a, b, c, d]" using four_bytes [OF assms] by blast
  have "dotted bs = dec_string (unat a) @ CHR ''.'' # join ''.'' (map (\<lambda>b. dec_string (unat b)) [b, c, d])"
    by (simp add: bs dotted_def)
  then have "dropWhile (\<lambda>c. c \<notin> {CHR ''.'', CHR '':'', CHR ''%''}) (dotted bs) =
      CHR ''.'' # join ''.'' (map (\<lambda>b. dec_string (unat b)) [b, c, d])"
    using dropWhile_digits [of "dec_string (unat a)"] by (simp add: dec_string_chars)
  then show ?thesis by (simp add: parse_ip_def parse4_dotted assms)
qed

lemma to4_length: "to4 ip = Some p \<Longrightarrow> length p = 4"
  by (auto simp: to4_def split: if_splits)

lemma ip_string_v4: "to4 ip = Some p \<Longrightarrow> ip_string ip = dotted p"
  by (auto simp: ip_string_def to4_def split: if_splits)

lemma to4_to16: "to4 ip = Some p \<Longrightarrow> to16 ip = Some (v4_prefix @ p)"
  by (auto simp: to4_def to16_def split: if_splits) (metis append_take_drop_id)

lemma v4_prefix_length [simp]: "length v4_prefix = 12"
  by (simp add: v4_prefix_def)

lemma to4_mapped [simp]: "length p = 4 \<Longrightarrow> to4 (v4_prefix @ p) = Some p"
  by (simp add: to4_def)

lemma parse_ip_string4: "to4 ip = Some p \<Longrightarrow> parse_ip (ip_string ip) = Some (v4_prefix @ p)"
  by (simp add: ip_string_v4 parse_ip_dotted to4_length)

lemma ip_string_inj4:
  "to4 a = Some p \<Longrightarrow> to4 b = Some q \<Longrightarrow> ip_string a = ip_string b \<longleftrightarrow> p = q"
  by (metis parse_ip_string4 ip_string_v4 option.inject same_append_eq)

section \<open>The text of an address is one word of a command line\<close>

lemma hex_char_not_space: "d < 16 \<Longrightarrow> \<not> is_space (hex_char d)"
proof -
  assume "d < 16"
  then have "(of_char (hex_char d) :: nat) \<noteq> 9 \<and> (of_char (hex_char d) :: nat) \<noteq> 10
      \<and> (of_char (hex_char d) :: nat) \<noteq> 11 \<and> (of_char (hex_char d) :: nat) \<noteq> 12
      \<and> (of_char (hex_char d) :: nat) \<noteq> 13 \<and> (of_char (hex_char d) :: nat) \<noteq> 32"
    by (auto simp: hex_char_def)
  then show ?thesis by (auto simp: is_space_def)
qed

lemma hex_string_no_space: "c \<in> set (hex_string n) \<Longrightarrow> \<not> is_space c"
proof (induction n rule: hex_string.induct)
  case (1 n)
  then show ?case
    by (subst (asm) (2) hex_string.simps) (auto split: if_splits simp: hex_char_not_space)
qed

lemma emit6_no_space: "c \<in> set (emit6 i gs se) \<Longrightarrow> \<not> is_space c"
  by (induction i gs se rule: emit6.induct)
    (auto split: if_splits simp: hex_string_no_space, auto simp: is_space_def)

lemma join_chars:
  "c \<in> set (join sep ws) \<Longrightarrow> c \<in> set sep \<or> (\<exists>w \<in> set ws. c \<in> set w)"
  by (induction sep ws rule: join.induct) auto

lemma dotted_no_space: "c \<in> set (dotted bs) \<Longrightarrow> \<not> is_space c"
  unfolding dotted_def
  by (drule join_chars) (auto dest!: dec_string_chars digit_facts simp: is_space_def)

lemma dotted_not_Nil: "length bs = 4 \<Longrightarrow> dotted bs \<noteq> []"
  by (auto simp: dotted_def dest!: four_bytes)

lemma hex_bytes_no_space: "c \<in> set (hex_bytes bs) \<Longrightarrow> \<not> is_space c"
  by (auto simp: hex_bytes_def hex_char_not_space less_mult_imp_div_less)

lemma hex_string_not_Nil [simp]: "hex_string n \<noteq> []"
  by (subst hex_string.simps) simp

lemma emit6_0_not_Nil: "gs \<noteq> [] \<Longrightarrow> emit6 0 gs se \<noteq> []"
  by (cases gs; cases se) auto

lemma v6_string_not_Nil: "length bs = 16 \<Longrightarrow> v6_string bs \<noteq> []"
  by (cases bs rule: groups16.cases) (auto simp: v6_string_def Let_def emit6_0_not_Nil)

lemma plain_word_ip_string: "plain_word (ip_string ip)"
proof (cases "to4 ip")
  case (Some p)
  then show ?thesis
    by (simp add: ip_string_v4 plain_word_def dotted_no_space dotted_not_Nil to4_length)
next
  case None
  then have "length ip \<noteq> 4" by (auto simp: to4_def)
  with None show ?thesis
    by (auto simp: ip_string_def plain_word_def v6_string_def Let_def hex_bytes_no_space
        is_space_def [of "CHR ''?''"] is_space_def [of "CHR ''<''"] is_space_def [of "CHR ''>''"]
        is_space_def [of "CHR ''n''"] is_space_def [of "CHR ''i''"] is_space_def [of "CHR ''l''"]
        dest!: emit6_no_space v6_string_not_Nil [unfolded v6_string_def Let_def] split: if_splits)
qed

end
