(* ===== verification/Domain_Cache.thy ===== *)
theory Domain_Cache
  imports Go_Net
begin

text \<open>
  The domain cache of \<open>main.go\<close>: \<open>DNSRecord\<close>, \<open>DomainCache\<close> with \<open>Get\<close>, \<open>Set\<close>,
  \<open>AllowedIPs\<close> and one tick of \<open>cleanupLoop\<close>. The read-write mutex makes every
  operation atomic, so an operation is a function on the map. A \<open>range\<close> over the map takes
  the order of visits as an argument, because Go leaves it open, and every \<open>time.Now()\<close> is
  a reading of the clock.
\<close>

record dns_record =
  rec_ips :: "ip list"
  rec_ttl :: duration
  rec_expires :: time

type_synonym domain_cache = "string \<rightharpoonup> dns_record"

definition new_domain_cache :: domain_cache where
  "new_domain_cache = Map.empty"

definition cache_get :: "domain_cache \<Rightarrow> string \<Rightarrow> clock \<Rightarrow> dns_record option \<times> clock" where
  "cache_get c nm ck =
     (case c nm of
        None \<Rightarrow> (None, ck)
      | Some r \<Rightarrow>
          (let (t, ck1) = now ck
           in if time_after t (rec_expires r) then (None, ck1) else (Some r, ck1)))"

definition cache_set :: "domain_cache \<Rightarrow> string \<Rightarrow> ip list \<Rightarrow> duration \<Rightarrow> clock \<Rightarrow> domain_cache \<times> clock" where
  "cache_set c nm ips ttl ck =
     (let (t, ck1) = now ck
      in (c(nm \<mapsto> \<lparr>rec_ips = ips, rec_ttl = ttl, rec_expires = time_add t ttl\<rparr>), ck1))"

text \<open>
  The body of one tick of \<open>cleanupLoop\<close>, for the keys in the order visited; the clock is
  read afresh for every record.
\<close>

fun cache_cleanup :: "string list \<Rightarrow> domain_cache \<Rightarrow> clock \<Rightarrow> domain_cache \<times> clock" where
  "cache_cleanup [] c ck = (c, ck)"
| "cache_cleanup (nm # nms) c ck =
     (case c nm of
        None \<Rightarrow> cache_cleanup nms c ck
      | Some r \<Rightarrow>
          (let (t, ck1) = now ck
           in if time_after t (rec_expires r)
              then cache_cleanup nms (c(nm := None)) ck1
              else cache_cleanup nms c ck1))"

fun cache_allowed_ips :: "string list \<Rightarrow> domain_cache \<Rightarrow> clock \<Rightarrow> ip list \<times> clock" where
  "cache_allowed_ips [] c ck = ([], ck)"
| "cache_allowed_ips (nm # nms) c ck =
     (case c nm of
        None \<Rightarrow> cache_allowed_ips nms c ck
      | Some r \<Rightarrow>
          (let (t, ck1) = now ck;
               (ips, ck2) = cache_allowed_ips nms c ck1
           in (if time_before t (rec_expires r) then (rec_ips r @ ips, ck2) else (ips, ck2))))"

section \<open>Lookups and stores\<close>

lemma cache_get_later: "cache_get c nm ck = (r, ck') \<Longrightarrow> later ck ck'"
  by (auto simp: cache_get_def go_defs split: option.splits if_splits)

lemma cache_set_later: "cache_set c nm ips ttl ck = (c', ck') \<Longrightarrow> later ck ck'"
  by (auto simp: cache_set_def go_defs)

lemma cache_get_Some:
  "cache_get c nm ck = (Some r, ck') \<Longrightarrow> c nm = Some r \<and> ck 0 \<le> rec_expires r"
  by (auto simp: cache_get_def go_defs split: option.splits if_splits)

lemma cache_get_None:
  "cache_get c nm ck = (None, ck') \<Longrightarrow>
   c nm = None \<or> (\<exists>r. c nm = Some r \<and> rec_expires r < ck 0)"
  by (auto simp: cache_get_def go_defs split: option.splits if_splits)

lemma cache_get_after_set:
  assumes "cache_set c nm ips ttl ck = (c', ck1)" and "ck2 0 \<le> ck 0 + sint ttl"
  shows "\<exists>r. fst (cache_get c' nm ck2) = Some r \<and> rec_ips r = ips \<and> rec_ttl r = ttl"
  using assms by (auto simp: cache_set_def cache_get_def go_defs)

lemma cache_set_other: "cache_set c nm ips ttl ck = (c', ck') \<Longrightarrow> d \<noteq> nm \<Longrightarrow> c' d = c d"
  by (auto simp: cache_set_def go_defs)

section \<open>The cleanup tick\<close>

lemma cache_cleanup_later: "cache_cleanup nms c ck = (c', ck') \<Longrightarrow> later ck ck'"
proof (induction nms arbitrary: c ck)
  case (Cons nm nms)
  then show ?case
    by (auto simp: go_defs split: option.splits if_splits intro: later_SucI)
qed simp

lemma cache_cleanup_subset: "cache_cleanup nms c ck = (c', ck') \<Longrightarrow> c' d = None \<or> c' d = c d"
proof (induction nms arbitrary: c ck)
  case (Cons nm nms)
  then show ?case
    by (fastforce simp: go_defs split: option.splits if_splits)
qed simp

lemma cache_cleanup_untouched:
  "cache_cleanup nms c ck = (c', ck') \<Longrightarrow> d \<notin> set nms \<Longrightarrow> c' d = c d"
proof (induction nms arbitrary: c ck)
  case (Cons nm nms)
  then show ?case
    by (fastforce simp: go_defs split: option.splits if_splits)
qed simp

text \<open>A record that is still valid when the tick is over has been kept.\<close>

lemma cache_cleanup_keeps:
  assumes "cache_cleanup nms c ck = (c', ck')" "mono ck" "c d = Some r" "ck' 0 \<le> rec_expires r"
  shows "c' d = Some r"
  using assms
proof (induction nms arbitrary: c ck)
  case (Cons nm nms)
  show ?case
  proof (cases "c nm")
    case None
    with Cons show ?thesis by simp
  next
    case (Some s)
    let ?ck1 = "\<lambda>n. ck (Suc n)"
    let ?c1 = "if rec_expires s < ck 0 then c(nm := None) else c"
    have run: "cache_cleanup nms ?c1 ?ck1 = (c', ck')"
      using Cons.prems(1) Some by (auto simp: go_defs split: if_splits)
    have m: "mono ?ck1" using Cons.prems(2) by (rule mono_Suc)
    have "ck 0 \<le> ck' 0"
      using mono_later_le [OF Cons.prems(2) later_SucI [OF cache_cleanup_later [OF run]]] by blast
    then have "?c1 d = Some r" using Cons.prems(3,4) Some by auto
    from Cons.IH [OF run m this Cons.prems(4)] show ?thesis .
  qed
qed simp

text \<open>A record that had expired when the tick started is gone when the tick is over.\<close>

lemma cache_cleanup_removes:
  assumes "cache_cleanup nms c ck = (c', ck')" "mono ck" "d \<in> set nms"
    and "c d = Some r" "rec_expires r < ck 0"
  shows "c' d = None"
  using assms
proof (induction nms arbitrary: c ck)
  case (Cons nm nms)
  show ?case
  proof (cases "d = nm")
    case True
    with Cons.prems have run: "cache_cleanup nms (c(nm := None)) (\<lambda>n. ck (Suc n)) = (c', ck')"
      by (simp add: go_defs)
    show ?thesis using cache_cleanup_subset [OF run, of d] True by simp
  next
    case False
    let ?s = "c nm"
    show ?thesis
    proof (cases ?s)
      case None
      with Cons False show ?thesis by simp
    next
      case (Some s)
      let ?c1 = "if rec_expires s < ck 0 then c(nm := None) else c"
      have run: "cache_cleanup nms ?c1 (\<lambda>n. ck (Suc n)) = (c', ck')"
        using Cons.prems(1) Some by (auto simp: go_defs split: if_splits)
      have "?c1 d = Some r" using Cons.prems(4) False by auto
      moreover have "rec_expires r < ck (Suc 0)"
        using Cons.prems(5) mono_read_le [OF Cons.prems(2), of "Suc 0"] by linarith
      ultimately show ?thesis
        using Cons.IH [OF run mono_Suc [OF Cons.prems(2)]] Cons.prems(3) False by simp
    qed
  qed
qed simp

section \<open>The addresses of the cache\<close>

lemma cache_allowed_ips_sound:
  assumes "cache_allowed_ips nms c ck = (ips, ck')" "mono ck" "ip \<in> set ips"
  shows "\<exists>nm \<in> set nms. \<exists>r. c nm = Some r \<and> ip \<in> set (rec_ips r) \<and> ck 0 < rec_expires r"
  using assms
proof (induction nms arbitrary: ck ips ck')
  case (Cons nm nms)
  show ?case
  proof (cases "c nm")
    case None
    with Cons show ?thesis by fastforce
  next
    case (Some r)
    obtain ips1 ck1 where run: "cache_allowed_ips nms c (\<lambda>n. ck (Suc n)) = (ips1, ck1)"
      by fastforce
    have "ip \<in> set ips1 \<or> (ip \<in> set (rec_ips r) \<and> ck 0 < rec_expires r)"
      using Cons.prems(1,3) Some run by (auto simp: go_defs split: if_splits)
    moreover have "ck 0 \<le> ck (Suc 0)" using mono_read_le [OF Cons.prems(2)] .
    ultimately show ?thesis
      using Cons.IH [OF run mono_Suc [OF Cons.prems(2)]] Some by force
  qed
qed simp

end
