(* ===== verification/Gateway_Config.thy ===== *)
theory Gateway_Config
  imports Go_Net
begin

text \<open>
  The configuration of the gateway (\<open>Config\<close>, \<open>DefaultConfig\<close> and \<open>LoadConfig\<close> of
  \<open>main.go\<close>). The values the \<open>flag\<close> package parsed are a record of optional overrides: a
  flag that is not given keeps the default.
\<close>

record gateway_config =
  gc_interface :: string
  gc_upstream_dns :: string
  gc_domains :: "string list"
  gc_port :: int
  gc_refresh_interval :: duration
  gc_use_iptables :: bool
  gc_use_ebpf :: bool
  gc_default_ttl :: duration
  gc_min_ttl :: duration
  gc_max_ttl :: duration
  gc_dns_servers :: "string list"

definition default_config :: gateway_config where
  "default_config =
     \<lparr>gc_interface = ''eth0'', gc_upstream_dns = ''8.8.8.8:53'', gc_domains = [], gc_port = 53,
      gc_refresh_interval = 300 * second, gc_use_iptables = False, gc_use_ebpf = True,
      gc_default_ttl = 300 * second, gc_min_ttl = 5 * second, gc_max_ttl = 24 * 3600 * second,
      gc_dns_servers = []\<rparr>"

text \<open>The loop body that turns one entry of \<open>-upstream-dns\<close> into a DNS server address.\<close>

definition server_of :: "string \<Rightarrow> string" where
  "server_of entry =
     (let server = trim_space entry
      in if contains_str server '':'' then
           (if 1 < count_list server CHR '':'' then server
            else hd (split_on CHR '':'' server))
         else server)"

definition parse_dns_servers :: "string \<Rightarrow> string list" where
  "parse_dns_servers upstream =
     (if upstream = [] then [] else map server_of (split_on CHR '','' upstream))"

record flags =
  fl_interface :: "string option"
  fl_upstream_dns :: "string option"
  fl_port :: "int option"
  fl_refresh_interval :: "duration option"
  fl_use_iptables :: "bool option"
  fl_use_ebpf :: "bool option"
  fl_default_ttl :: "duration option"
  fl_min_ttl :: "duration option"
  fl_max_ttl :: "duration option"
  fl_domains :: string

fun or_default :: "'a option \<Rightarrow> 'a \<Rightarrow> 'a" where
  "or_default (Some v) d = v"
| "or_default None d = d"

definition load_config :: "flags \<Rightarrow> gateway_config" where
  "load_config fl =
     (let d = default_config;
          upstream = or_default (fl_upstream_dns fl) (gc_upstream_dns d)
      in \<lparr>gc_interface = or_default (fl_interface fl) (gc_interface d),
          gc_upstream_dns = upstream,
          gc_domains = (if fl_domains fl \<noteq> [] then split_on CHR '','' (fl_domains fl) else gc_domains d),
          gc_port = or_default (fl_port fl) (gc_port d),
          gc_refresh_interval = or_default (fl_refresh_interval fl) (gc_refresh_interval d),
          gc_use_iptables = or_default (fl_use_iptables fl) (gc_use_iptables d),
          gc_use_ebpf = or_default (fl_use_ebpf fl) (gc_use_ebpf d),
          gc_default_ttl = or_default (fl_default_ttl fl) (gc_default_ttl d),
          gc_min_ttl = or_default (fl_min_ttl fl) (gc_min_ttl d),
          gc_max_ttl = or_default (fl_max_ttl fl) (gc_max_ttl d),
          gc_dns_servers = gc_dns_servers d @ parse_dns_servers upstream\<rparr>)"

section \<open>Lemmas\<close>

lemma trim_space_plain: "plain_word w \<Longrightarrow> trim_space w = w"
proof -
  assume w: "plain_word w"
  then have "dropWhile is_space w = w" "dropWhile is_space (rev w) = rev w"
    by (cases w, auto simp: plain_word_def) (cases "rev w", auto)
  then show ?thesis by (simp add: trim_space_def)
qed

lemma contains_char: "contains_str s [c] \<longleftrightarrow> c \<in> set s"
  by (induction s) (auto simp: has_prefix_def)

text \<open>The text of an address with a port, and without one.\<close>

lemma dotted_chars: "c \<in> set (dotted bs) \<Longrightarrow> is_digit c \<or> c = CHR ''.''"
  unfolding dotted_def by (drule join_chars) (auto dest: dec_string_chars)

lemma colon_not_in_dotted: "CHR '':'' \<notin> set (dotted bs)"
  by (auto dest: dotted_chars digit_facts)

lemma plain_word_dotted: "length bs = 4 \<Longrightarrow> plain_word (dotted bs)"
  by (simp add: plain_word_def dotted_not_Nil dotted_no_space)

lemma server_of_v4_port:
  assumes "length bs = 4" "plain_word port" "CHR '':'' \<notin> set port"
  shows "server_of (dotted bs @ CHR '':'' # port) = dotted bs"
proof -
  let ?s = "dotted bs @ CHR '':'' # port"
  have "plain_word ?s"
    using assms plain_word_dotted [OF assms(1)] by (auto simp: plain_word_def is_space_def)
  then have "trim_space ?s = ?s" by (rule trim_space_plain)
  moreover have "count_list ?s CHR '':'' = 1"
    using assms(3) colon_not_in_dotted by (simp add: count_notin)
  moreover have "split_on CHR '':'' ?s = dotted bs # split_on CHR '':'' port"
    by (rule split_on_append [OF colon_not_in_dotted])
  ultimately show ?thesis by (simp add: server_of_def contains_char)
qed

lemma server_of_v4: "length bs = 4 \<Longrightarrow> server_of (dotted bs) = dotted bs"
  by (simp add: server_of_def trim_space_plain plain_word_dotted contains_char colon_not_in_dotted)

end
