(* ===== verification/Dns_Resolver.thy ===== *)
theory Dns_Resolver
  imports Domain_Cache Gateway_Config
begin

text \<open>
  \<open>DNSResolver\<close> of \<open>main.go\<close>. The DNS library (\<open>github.com/miekg/dns\<close>) is not part of
  the repository: \<open>dns.Fqdn\<close> and \<open>client.Exchange\<close> are the parameters \<open>fqdn\<close> and
  \<open>exchange\<close> (the name asked and the server's address give an error or a reply).
  \<open>resolve_with_ttl\<close> is composed as the code composes it, of the cache lookup, the
  exchange, the reading of the reply (\<open>answer_scan\<close>), the bounds on the TTL (\<open>clamp_ttl\<close>)
  and the store into the cache.
\<close>

text \<open>A resource record: the type assertion \<open>ans.(*dns.A)\<close> tells an A record from the others.\<close>

datatype rr = A_record "32 word" ip | Other_record

record dns_resp =
  resp_rcode :: nat
  resp_answer :: "rr list"

datatype resolve_error =
    Query_failed string
  | Bad_rcode nat
  | No_A_records string

record resolver =
  rs_upstream :: string
  rs_config :: "gateway_config option"

definition rcode_success :: nat where "rcode_success = 0"

text \<open>The loop over the answers: the addresses so far and the smallest TTL so far.\<close>

fun answer_scan :: "rr list \<Rightarrow> ip list \<Rightarrow> 32 word \<Rightarrow> ip list \<times> 32 word" where
  "answer_scan [] ips m = (ips, m)"
| "answer_scan (A_record ttl a # rrs) ips m =
     answer_scan rrs
       (case parse_ip (ip_string a) of Some ip \<Rightarrow> ips @ [ip] | None \<Rightarrow> ips)
       (if ttl < m then ttl else m)"
| "answer_scan (Other_record # rrs) ips m = answer_scan rrs ips m"

definition clamp :: "duration \<Rightarrow> duration \<Rightarrow> duration \<Rightarrow> duration" where
  "clamp lo hi ttl =
     (let t = (if sint ttl < sint lo then lo else ttl)
      in if sint hi < sint t then hi else t)"

definition clamp_ttl :: "gateway_config option \<Rightarrow> duration \<Rightarrow> duration" where
  "clamp_ttl cfg ttl =
     (case cfg of
        Some c \<Rightarrow> clamp (gc_min_ttl c) (gc_max_ttl c) ttl
      | None \<Rightarrow> clamp (5 * second) (24 * 3600 * second) ttl)"

text \<open>What the code does with a reply: an error, or the addresses and their lifetime.\<close>

definition read_reply :: "gateway_config option \<Rightarrow> string \<Rightarrow> dns_resp \<Rightarrow> resolve_error + ip list \<times> duration" where
  "read_reply cfg name resp =
     (if resp_rcode resp \<noteq> rcode_success then Inl (Bad_rcode (resp_rcode resp))
      else
        (let (ips, m) = answer_scan (resp_answer resp) [] 300
         in if ips = [] then Inl (No_A_records name)
            else Inr (ips, clamp_ttl cfg (ucast m * second))))"

definition resolve_with_ttl ::
  "(string \<Rightarrow> string) \<Rightarrow> (string \<Rightarrow> string \<Rightarrow> string + dns_resp) \<Rightarrow> resolver \<Rightarrow>
   domain_cache \<Rightarrow> string \<Rightarrow> clock \<Rightarrow> (resolve_error + ip list \<times> duration) \<times> domain_cache \<times> clock" where
  "resolve_with_ttl fqdn exchange rs c name ck =
     (case cache_get c name ck of
        (Some r, ck1) \<Rightarrow> (Inr (rec_ips r, rec_ttl r), c, ck1)
      | (None, ck1) \<Rightarrow>
          (case exchange (fqdn name) (rs_upstream rs) of
             Inl e \<Rightarrow> (Inl (Query_failed e), c, ck1)
           | Inr resp \<Rightarrow>
               (case read_reply (rs_config rs) name resp of
                  Inl e \<Rightarrow> (Inl e, c, ck1)
                | Inr (ips, ttl) \<Rightarrow>
                    (let (c', ck2) = cache_set c name ips ttl ck1
                     in (Inr (ips, ttl), c', ck2)))))"

definition resolve ::
  "(string \<Rightarrow> string) \<Rightarrow> (string \<Rightarrow> string \<Rightarrow> string + dns_resp) \<Rightarrow> resolver \<Rightarrow>
   domain_cache \<Rightarrow> string \<Rightarrow> clock \<Rightarrow> (resolve_error + ip list) \<times> domain_cache \<times> clock" where
  "resolve fqdn exchange rs c name ck =
     (case resolve_with_ttl fqdn exchange rs c name ck of
        (Inl e, s) \<Rightarrow> (Inl e, s)
      | (Inr (ips, ttl), s) \<Rightarrow> (Inr ips, s))"

section \<open>Reading the answers\<close>

text \<open>The addresses of the A records, in their order, in the 16-byte form \<open>ParseIP\<close> gives.\<close>

definition a_address :: "rr \<Rightarrow> ip option" where
  "a_address r = (case r of A_record _ a \<Rightarrow> parse_ip (ip_string a) | Other_record \<Rightarrow> None)"

definition a_ttl :: "rr \<Rightarrow> 32 word list" where
  "a_ttl r = (case r of A_record t _ \<Rightarrow> [t] | Other_record \<Rightarrow> [])"

lemma answer_scan_ips:
  "fst (answer_scan rrs ips m) = ips @ List.map_filter a_address rrs"
  by (induction rrs ips m rule: answer_scan.induct)
    (auto simp: a_address_def map_filter_simps split: option.splits)

lemma answer_scan_min_le: "snd (answer_scan rrs ips m) \<le> m"
proof (induction rrs ips m rule: answer_scan.induct)
  case (2 ttl a rrs ips m)
  then show ?case by (auto split: if_splits)
qed auto

lemma answer_scan_min_ttl:
  "A_record t a \<in> set rrs \<Longrightarrow> snd (answer_scan rrs ips m) \<le> t"
proof (induction rrs ips m rule: answer_scan.induct)
  case (2 ttl b rrs ips m)
  let ?ips = "case parse_ip (ip_string b) of Some ip \<Rightarrow> ips @ [ip] | None \<Rightarrow> ips"
  have "snd (answer_scan rrs ?ips (if ttl < m then ttl else m)) \<le> ttl"
    using answer_scan_min_le [of rrs ?ips "if ttl < m then ttl else m"]
    by (auto split: if_splits)
  with 2 show ?case by auto
qed auto

lemma answer_scan_min_in:
  "snd (answer_scan rrs ips m) = m \<or> (\<exists>a. A_record (snd (answer_scan rrs ips m)) a \<in> set rrs)"
proof (induction rrs ips m rule: answer_scan.induct)
  case (2 ttl b rrs ips m)
  then show ?case by (auto split: if_splits)
qed auto

section \<open>TTL bounds\<close>

lemma sint_ucast_seconds:
  assumes "m \<le> (300 :: 32 word)"
  shows "sint (ucast m * second :: duration) = int (unat m) * 1000000000"
proof -
  have m: "uint m \<le> 300" "0 \<le> uint m" using assms by (auto simp: word_le_def)
  have t: "take_bit 64 (uint m) = uint m"
    using m by (intro take_bit_int_eq_self) auto
  have u: "uint (ucast m * 1000000000 :: duration) = uint m * 1000000000"
    using m t by (simp add: uint_word_ariths unsigned_ucast_eq)
  have small: "- (2 ^ 63) \<le> x * 1000000000 \<and> x * 1000000000 < 2 ^ 63" if "0 \<le> x" "x \<le> 300" for x :: int
    using that by simp
  have "signed_take_bit 63 (uint m * 1000000000) = uint m * 1000000000"
    using m small by (intro signed_take_bit_int_eq_self) blast+
  then show ?thesis
    by (simp add: second_def sint_uint u)
qed

lemma clamp_lower: "sint lo \<le> sint hi \<Longrightarrow> sint lo \<le> sint (clamp lo hi t)"
  by (auto simp: clamp_def Let_def)

lemma clamp_upper: "sint (clamp lo hi t) \<le> sint hi"
  by (auto simp: clamp_def Let_def)

lemma clamp_id: "sint lo \<le> sint t \<Longrightarrow> sint t \<le> sint hi \<Longrightarrow> clamp lo hi t = t"
  by (auto simp: clamp_def Let_def)

lemma clamp_le_max: "sint (clamp lo hi t) \<le> max (sint lo) (sint t)"
  by (auto simp: clamp_def Let_def)

section \<open>The reply as the code reads it\<close>

lemma read_reply_Inr:
  "read_reply cfg name resp = Inr (ips, ttl) \<longleftrightarrow>
     resp_rcode resp = rcode_success \<and>
     ips = List.map_filter a_address (resp_answer resp) \<and> ips \<noteq> [] \<and>
     ttl = clamp_ttl cfg (ucast (snd (answer_scan (resp_answer resp) [] 300)) * second)"
  using answer_scan_ips [of "resp_answer resp" "[]" 300]
  by (cases "answer_scan (resp_answer resp) [] 300") (auto simp: read_reply_def)

lemma a_address_mapped:
  assumes "a_address r = Some ip" "r = A_record t a" "to4 a = Some p"
  shows "ip = v4_prefix @ p"
  using assms by (simp add: a_address_def parse_ip_string4)

section \<open>Resolution\<close>

lemma resolve_with_ttl_cases:
  assumes "resolve_with_ttl fqdn exchange rs c name ck = (res, c', ck')"
  obtains (hit) r where "c name = Some r" "ck 0 \<le> rec_expires r"
      "res = Inr (rec_ips r, rec_ttl r)" "c' = c"
    | (failed) e where "res = Inl e" "c' = c" "fst (cache_get c name ck) = None"
    | (stored) resp ips ttl ck1 where "exchange (fqdn name) (rs_upstream rs) = Inr resp"
      "read_reply (rs_config rs) name resp = Inr (ips, ttl)" "res = Inr (ips, ttl)"
      "later ck ck1" "(c', ck') = cache_set c name ips ttl ck1" "fst (cache_get c name ck) = None"
proof -
  obtain r ck1 where g: "cache_get c name ck = (r, ck1)" by fastforce
  have l: "later ck ck1" using g by (rule cache_get_later)
  show ?thesis
  proof (cases r)
    case (Some d)
    then have "c name = Some d \<and> ck 0 \<le> rec_expires d" using g cache_get_Some by blast
    moreover have "res = Inr (rec_ips d, rec_ttl d)" "c' = c"
      using assms g Some by (auto simp: resolve_with_ttl_def)
    ultimately show ?thesis using hit by blast
  next
    case None
    then have miss: "fst (cache_get c name ck) = None" using g by simp
    have run: "(res, c', ck') =
        (case exchange (fqdn name) (rs_upstream rs) of
           Inl e \<Rightarrow> (Inl (Query_failed e), c, ck1)
         | Inr resp \<Rightarrow>
             (case read_reply (rs_config rs) name resp of
                Inl e \<Rightarrow> (Inl e, c, ck1)
              | Inr (ips, ttl) \<Rightarrow>
                  (let (c', ck2) = cache_set c name ips ttl ck1 in (Inr (ips, ttl), c', ck2))))"
      using assms g None by (simp add: resolve_with_ttl_def)
    show ?thesis
    proof (cases "exchange (fqdn name) (rs_upstream rs)")
      case (Inl e)
      show ?thesis by (rule failed [OF _ _ miss]) (use run Inl in auto)
    next
      case (Inr resp)
      show ?thesis
      proof (cases "read_reply (rs_config rs) name resp")
        case e: (Inl e)
        show ?thesis by (rule failed [OF _ _ miss]) (use run Inr e in auto)
      next
        case p: (Inr p)
        obtain ips ttl where "p = (ips, ttl)" by fastforce
        with p run Inr show ?thesis
          by (intro stored [OF Inr _ _ l _ miss]) (auto split: prod.splits)
      qed
    qed
  qed
qed

lemma resolve_with_ttl_later:
  "resolve_with_ttl fqdn exchange rs c name ck = (res, c', ck') \<Longrightarrow> later ck ck'"
  unfolding resolve_with_ttl_def
  by (auto split: prod.splits option.splits sum.splits simp: Let_def
      dest!: cache_get_later cache_set_later intro: later_trans)

end
