(* ===== verification/Firewall_Contract.thy ===== *)
theory Firewall_Contract
  imports Go_Net
begin

text \<open>
  The interface \<open>FirewallManager\<close> of \<open>main.go\<close> as a locale. Its clients are the DNS
  server, the domain monitor and the start-up code; its providers are \<open>MockFirewallManager\<close>,
  \<open>IPTablesManager\<close> and \<open>ebpf.Manager\<close>. A provider shows its state through \<open>view\<close>: for
  the key of an address, the time until which the address is on the whitelist. The laws are
  what all three keep: a successful \<open>AllowIPWithTTL\<close> gives the address its whole TTL from the
  moment of the call, touches no other key and never grants more than the TTL from its last
  clock reading; a failing call changes nothing; a cleanup only removes, and only what has
  expired. \<open>fits\<close> is the range in which a provider can represent the expiry.

  \<open>allow_all\<close> is the loop \<open>for _, ip := range ips { manager.AllowIPWithTTL(ip, ttl) }\<close> of
  its three clients, which logs an error and goes on.
\<close>

datatype fw_error =
    Setup_failed string string
  | Allow_failed string string
  | Update_failed string string
  | Manager_closed
  | Map_not_found string
  | Store_failed string

type_synonym 'm allow_op = "'m \<Rightarrow> clock \<Rightarrow> ip \<Rightarrow> duration \<Rightarrow> fw_error ret \<times> 'm \<times> clock"

text \<open>The logged failures, a panic if one ended the loop, the manager and the clock.\<close>

fun allow_all :: "'m allow_op \<Rightarrow> 'm \<Rightarrow> clock \<Rightarrow> ip list \<Rightarrow> duration \<Rightarrow>
    (ip \<times> fw_error) list \<times> string option \<times> 'm \<times> clock" where
  "allow_all al m ck [] d = ([], None, m, ck)"
| "allow_all al m ck (ip # ips) d =
     (case al m ck ip d of
        (Nil_ret, m1, ck1) \<Rightarrow> allow_all al m1 ck1 ips d
      | (Err e, m1, ck1) \<Rightarrow> (let (log, r) = allow_all al m1 ck1 ips d in ((ip, e) # log, r))
      | (Panic p, m1, ck1) \<Rightarrow> ([], Some p, m1, ck1))"

locale firewall =
  fixes allow :: "'m \<Rightarrow> clock \<Rightarrow> ip \<Rightarrow> duration \<Rightarrow> fw_error ret \<times> 'm \<times> clock"
    and remove :: "'m \<Rightarrow> ip \<Rightarrow> fw_error ret \<times> 'm"
    and cleanup :: "'m \<Rightarrow> clock \<Rightarrow> fw_error ret \<times> 'm \<times> clock"
    and view :: "'m \<Rightarrow> 'k \<Rightarrow> time option"
    and key :: "ip \<Rightarrow> 'k"
    and fits :: "clock \<Rightarrow> ip \<Rightarrow> duration \<Rightarrow> bool"
  assumes allow_later: "allow m ck ip d = (r, m', ck') \<Longrightarrow> later ck ck'"
    and allow_grants: "mono ck \<Longrightarrow> fits ck ip d \<Longrightarrow> allow m ck ip d = (Nil_ret, m', ck') \<Longrightarrow>
      \<exists>e. view m' (key ip) = Some e \<and> ck 0 + sint d \<le> e"
    and allow_other: "fits ck ip d \<Longrightarrow> allow m ck ip d = (r, m', ck') \<Longrightarrow> k \<noteq> key ip \<Longrightarrow> view m' k = view m k"
    and allow_bound: "mono ck \<Longrightarrow> fits ck ip d \<Longrightarrow> allow m ck ip d = (r, m', ck') \<Longrightarrow>
      view m' (key ip) = Some e \<Longrightarrow> view m (key ip) = Some e \<or> e \<le> ck' 0 + sint d"
    and allow_error: "r \<noteq> Nil_ret \<Longrightarrow> allow m ck ip d = (r, m', ck') \<Longrightarrow> view m' = view m"
    and remove_gone: "remove m ip = (Nil_ret, m') \<Longrightarrow> view m' = (view m)(key ip := None)"
    and cleanup_later: "cleanup m ck = (r, m', ck') \<Longrightarrow> later ck ck'"
    and cleanup_only_removes: "cleanup m ck = (r, m', ck') \<Longrightarrow> view m' k = Some e \<Longrightarrow> view m k = Some e"
    and cleanup_keeps: "cleanup m ck = (r, m', ck') \<Longrightarrow> view m k = Some e \<Longrightarrow> ck 0 \<le> e \<Longrightarrow> view m' k = Some e"
    and fits_later: "fits ck ip d \<Longrightarrow> later ck ck' \<Longrightarrow> fits ck' ip d"
begin

lemma allow_all_later: "allow_all allow m ck ips d = (log, p, m', ck') \<Longrightarrow> later ck ck'"
proof (induction ips arbitrary: m ck log)
  case (Cons ip ips)
  obtain r m1 ck1 where a: "allow m ck ip d = (r, m1, ck1)" by (metis prod_cases3)
  have "later ck ck1" using a by (rule allow_later)
  with Cons a show ?case
    by (cases r) (auto split: prod.splits intro: later_trans)
qed simp

text \<open>A grant that reaches \<open>t + d\<close> survives every later call with the same TTL.\<close>

lemma allow_keeps_grant:
  assumes "mono ck" "fits ck ip d" "allow m ck ip d = (r, m', ck')"
    and "view m k = Some e" "t + sint d \<le> e" "t \<le> ck 0"
  shows "\<exists>e'. view m' k = Some e' \<and> t + sint d \<le> e'"
proof (cases "r = Nil_ret \<and> k = key ip")
  case True
  then obtain e' where "view m' k = Some e'" "ck 0 + sint d \<le> e'"
    using allow_grants assms(1-3) by blast
  moreover have "t + sint d \<le> ck 0 + sint d" using assms(6) by simp
  ultimately show ?thesis by fastforce
next
  case False
  then have "view m' k = view m k"
    using allow_other [OF assms(2,3)] allow_error [OF _ assms(3)] by (cases "r = Nil_ret") auto
  with assms(4,5) show ?thesis by simp
qed

lemma allow_all_keeps_grant:
  assumes "allow_all allow m ck ips d = (log, p, m', ck')" "mono ck"
    and "\<forall>ip \<in> set ips. fits ck ip d"
    and "view m k = Some e" "t + sint d \<le> e" "t \<le> ck 0"
  shows "\<exists>e'. view m' k = Some e' \<and> t + sint d \<le> e'"
  using assms
proof (induction ips arbitrary: m ck log e)
  case (Cons ip ips)
  obtain r m1 ck1 where a: "allow m ck ip d = (r, m1, ck1)" by (metis prod_cases3)
  have l: "later ck ck1" using a by (rule allow_later)
  obtain e1 where e1: "view m1 k = Some e1" "t + sint d \<le> e1"
    using allow_keeps_grant [OF Cons.prems(2) _ a Cons.prems(4,5,6)] Cons.prems(3) by auto
  show ?case
  proof (cases "\<exists>s. r = Panic s")
    case True
    with Cons.prems(1) a have "m' = m1" by auto
    with e1 show ?thesis by blast
  next
    case False
    then obtain log1 where run: "allow_all allow m1 ck1 ips d = (log1, p, m', ck')"
      using Cons.prems(1) a by (cases r) (auto split: prod.splits)
    have "\<forall>i \<in> set ips. fits ck1 i d" using Cons.prems(3) l fits_later by auto
    moreover have "t \<le> ck1 0" using Cons.prems(6) mono_later_le [OF Cons.prems(2) l, of 0] by linarith
    ultimately show ?thesis
      using Cons.IH [OF run mono_later [OF Cons.prems(2) l] _ e1] by blast
  qed
qed auto

text \<open>
  The loop's guarantee: an address that was not logged as failed holds its whole TTL from the
  start of the loop.
\<close>

lemma allow_all_grants:
  assumes "allow_all allow m ck ips d = (log, None, m', ck')" "mono ck"
    and "\<forall>ip \<in> set ips. fits ck ip d" "ip \<in> set ips" "ip \<notin> fst ` set log"
  shows "\<exists>e. view m' (key ip) = Some e \<and> ck 0 + sint d \<le> e"
  using assms
proof (induction ips arbitrary: m ck log)
  case (Cons i ips)
  obtain r m1 ck1 where a: "allow m ck i d = (r, m1, ck1)" by (metis prod_cases3)
  have l: "later ck ck1" using a by (rule allow_later)
  have le: "ck 0 \<le> ck1 0" using mono_later_le [OF Cons.prems(2) l] .
  have m1: "mono ck1" using mono_later [OF Cons.prems(2) l] .
  have f1: "\<forall>j \<in> set ips. fits ck1 j d" using Cons.prems(3) l fits_later by auto
  obtain log1 where run: "allow_all allow m1 ck1 ips d = (log1, None, m', ck')"
    and sub: "fst ` set log1 \<subseteq> fst ` set log" and er: "r \<noteq> Nil_ret \<Longrightarrow> i \<in> fst ` set log"
    using Cons.prems(1) a by (cases r) (auto simp: subset_insertI split: prod.splits)
  show ?case
  proof (cases "ip \<in> set ips")
    case True
    then obtain e where "view m' (key ip) = Some e" "ck1 0 + sint d \<le> e"
      using Cons.IH [OF run m1 f1] Cons.prems(5) sub by blast
    with le show ?thesis by fastforce
  next
    case False
    then have i: "ip = i" "r = Nil_ret" using Cons.prems(4,5) er by auto
    then obtain e where "view m1 (key ip) = Some e" "ck 0 + sint d \<le> e"
      using allow_grants Cons.prems(2,3) a by (metis list.set_intros(1))
    then show ?thesis
      using allow_all_keeps_grant [OF run m1 f1, of "key ip" e "ck 0"] le by blast
  qed
qed simp

text \<open>What the loop leaves alone and how far it can reach.\<close>

lemma allow_all_bound:
  assumes "allow_all allow m ck ips d = (log, p, m', ck')" "mono ck"
    and "\<forall>ip \<in> set ips. fits ck ip d" "view m' k = Some e"
  shows "view m k = Some e \<or> (k \<in> key ` set ips \<and> e \<le> ck' 0 + sint d)"
  using assms
proof (induction ips arbitrary: m ck log)
  case (Cons i ips)
  obtain r m1 ck1 where a: "allow m ck i d = (r, m1, ck1)" by (metis prod_cases3)
  have l: "later ck ck1" using a by (rule allow_later)
  have m1: "mono ck1" using mono_later [OF Cons.prems(2) l] .
  have f1: "\<forall>j \<in> set ips. fits ck1 j d" using Cons.prems(3) l fits_later by auto
  have fi: "fits ck i d" using Cons.prems(3) by simp
  have one: "view m k = Some e' \<or> (k = key i \<and> e' \<le> ck1 0 + sint d)" if "view m1 k = Some e'" for e'
    using that allow_other [OF fi a] allow_bound [OF Cons.prems(2) fi a] by (cases "k = key i") auto
  show ?case
  proof (cases "\<exists>s. r = Panic s")
    case True
    with Cons.prems(1) a have "m' = m1" "ck' = ck1" by auto
    with one Cons.prems(4) show ?thesis by fastforce
  next
    case False
    then obtain log1 where run: "allow_all allow m1 ck1 ips d = (log1, p, m', ck')"
      using Cons.prems(1) a by (cases r) (auto split: prod.splits)
    have "ck1 0 \<le> ck' 0" using mono_later_le [OF m1 allow_all_later [OF run]] .
    with Cons.IH [OF run m1 f1 Cons.prems(4)] one show ?thesis by fastforce
  qed
qed simp

lemma allow_all_others:
  assumes "allow_all allow m ck ips d = (log, p, m', ck')"
    and "\<forall>ip \<in> set ips. fits ck ip d" "k \<notin> key ` set ips"
  shows "view m' k = view m k"
  using assms
proof (induction ips arbitrary: m ck log)
  case (Cons i ips)
  obtain r m1 ck1 where a: "allow m ck i d = (r, m1, ck1)" by (metis prod_cases3)
  have l: "later ck ck1" using a by (rule allow_later)
  have f1: "\<forall>j \<in> set ips. fits ck1 j d" using Cons.prems(2) l fits_later by auto
  have v: "view m1 k = view m k" using allow_other [OF _ a] Cons.prems(2,3) by simp
  show ?case
  proof (cases "\<exists>s. r = Panic s")
    case True
    with Cons.prems(1) a have "m' = m1" by auto
    with v show ?thesis by simp
  next
    case False
    then obtain log1 where run: "allow_all allow m1 ck1 ips d = (log1, p, m', ck')"
      using Cons.prems(1) a by (cases r) (auto split: prod.splits)
    with Cons.IH [OF run f1] Cons.prems(3) v show ?thesis by simp
  qed
qed simp

end

end
