(* ===== verification/Mock_Firewall.thy ===== *)
theory Mock_Firewall
  imports Firewall_Contract
begin

text \<open>
  \<open>MockFirewallManager\<close> of \<open>main.go\<close>, the manager the tests run against: a map from the
  text of an address to its \<open>IPEntry\<close> and the \<open>cleanupDone\<close> channel, of which only whether
  it is closed matters (closing it twice panics). The clock readings of \<open>AllowIPWithTTL\<close> are
  taken in the code's order, with the short-circuits of its conditions.
\<close>

record ip_entry =
  ie_ip :: string
  ie_expires :: time

record mock_manager =
  mk_allowed :: "string \<rightharpoonup> ip_entry"
  mk_closed :: bool

definition new_mock :: mock_manager where
  "new_mock = \<lparr>mk_allowed = Map.empty, mk_closed = False\<rparr>"

definition mock_setup :: "mock_manager \<Rightarrow> fw_error ret \<times> mock_manager" where
  "mock_setup m = (Nil_ret, m)"

text \<open>The last part of \<open>AllowIPWithTTL\<close>: store with an expiry counted from a fresh reading.\<close>

definition mock_store :: "mock_manager \<Rightarrow> clock \<Rightarrow> string \<Rightarrow> duration \<Rightarrow> mock_manager \<times> clock" where
  "mock_store m ck s ttl =
     (let (t, ck1) = now ck
      in (m\<lparr>mk_allowed := (mk_allowed m)(s \<mapsto> \<lparr>ie_ip = s, ie_expires = time_add t ttl\<rparr>)\<rparr>, ck1))"

definition mock_allow_ttl :: "mock_manager \<Rightarrow> clock \<Rightarrow> ip \<Rightarrow> duration \<Rightarrow> fw_error ret \<times> mock_manager \<times> clock" where
  "mock_allow_ttl m ck ip ttl =
     (let s = ip_string ip
      in case mk_allowed m s of
           None \<Rightarrow> (Nil_ret, mock_store m ck s ttl)
         | Some entry \<Rightarrow>
             (let (t1, ck1) = now ck;
                  new_expires = time_add t1 ttl;
                  (t2, ck2) = now ck1
              in if time_before t2 (ie_expires entry) \<and> time_after new_expires (ie_expires entry)
                 then (Nil_ret,
                       m\<lparr>mk_allowed := (mk_allowed m)(s \<mapsto> entry\<lparr>ie_expires := new_expires\<rparr>)\<rparr>, ck2)
                 else
                   (let (t3, ck3) = now ck2
                    in if time_before t3 (ie_expires entry) then (Nil_ret, m, ck3)
                       else (Nil_ret, mock_store (m\<lparr>mk_allowed := (mk_allowed m)(s := None)\<rparr>) ck3 s ttl))))"

definition mock_allow :: "mock_manager \<Rightarrow> clock \<Rightarrow> ip \<Rightarrow> fw_error ret \<times> mock_manager \<times> clock" where
  "mock_allow m ck ip = mock_allow_ttl m ck ip (300 * second)"

definition mock_remove :: "mock_manager \<Rightarrow> ip \<Rightarrow> fw_error ret \<times> mock_manager" where
  "mock_remove m ip = (Nil_ret, m\<lparr>mk_allowed := (mk_allowed m)(ip_string ip := None)\<rparr>)"

definition mock_cleanup :: "mock_manager \<Rightarrow> fw_error ret \<times> mock_manager" where
  "mock_cleanup m = (Nil_ret, m\<lparr>mk_allowed := Map.empty\<rparr>)"

text \<open>The first loop of \<open>CleanupExpired\<close>: the expired keys, in the order visited.\<close>

definition expired_keys :: "(string \<rightharpoonup> ip_entry) \<Rightarrow> time \<Rightarrow> string list \<Rightarrow> string list" where
  "expired_keys mp t order =
     filter (\<lambda>s. case mp s of None \<Rightarrow> False | Some e \<Rightarrow> time_after t (ie_expires e)) order"

definition mock_cleanup_expired :: "string list \<Rightarrow> mock_manager \<Rightarrow> clock \<Rightarrow> fw_error ret \<times> mock_manager \<times> clock" where
  "mock_cleanup_expired order m ck =
     (let (t, ck1) = now ck
      in (Nil_ret, m\<lparr>mk_allowed := delete_all (expired_keys (mk_allowed m) t order) (mk_allowed m)\<rparr>, ck1))"

definition mock_close :: "mock_manager \<Rightarrow> fw_error ret \<times> mock_manager" where
  "mock_close m =
     (if mk_closed m then (Panic ''close of closed channel'', m)
      else (Nil_ret, m\<lparr>mk_closed := True\<rparr>))"

section \<open>The contract\<close>

definition expiry_view :: "(string \<rightharpoonup> ip_entry) \<Rightarrow> string \<Rightarrow> time option" where
  "expiry_view mp s = map_option ie_expires (mp s)"

definition mock_view :: "mock_manager \<Rightarrow> string \<Rightarrow> time option" where
  "mock_view m = expiry_view (mk_allowed m)"

lemma expiry_view_upd [simp]:
  "expiry_view (mp(s \<mapsto> e)) = (expiry_view mp)(s \<mapsto> ie_expires e)"
  "expiry_view (mp(s := None)) = (expiry_view mp)(s := None)"
  by (auto simp: expiry_view_def)

lemma expiry_view_apply: "expiry_view mp s = map_option ie_expires (mp s)"
  by (simp add: expiry_view_def)

lemmas mock_simps = mock_allow_ttl_def mock_store_def mock_view_def go_defs Let_def

lemma expired_keys_set:
  "s \<in> set (expired_keys mp t order) \<longleftrightarrow>
   s \<in> set order \<and> (\<exists>e. mp s = Some e \<and> ie_expires e < t)"
  by (auto simp: expired_keys_def go_defs split: option.splits)

text \<open>
  The result of one call, branch by branch: what it stores depends only on the old expiry of
  the address and on four readings of the clock.
\<close>

definition new_expiry :: "time option \<Rightarrow> clock \<Rightarrow> duration \<Rightarrow> time" where
  "new_expiry old ck ttl =
     (case old of
        None \<Rightarrow> ck 0 + sint ttl
      | Some e \<Rightarrow>
          if ck 1 < e \<and> e < ck 0 + sint ttl then ck 0 + sint ttl
          else if ck 2 < e then e else ck 3 + sint ttl)"

lemma mock_allow_ttl_view:
  "fst (mock_allow_ttl m ck ip ttl) = Nil_ret"
  "mock_view (fst (snd (mock_allow_ttl m ck ip ttl))) =
     (mock_view m)(ip_string ip \<mapsto> new_expiry (mock_view m (ip_string ip)) ck ttl)"
  by (cases "mk_allowed m (ip_string ip)";
      simp add: mock_simps new_expiry_def expiry_view_apply fun_upd_idem numeral_2_eq_2 numeral_3_eq_3)+

lemma mock_allow_ttl_reads:
  "\<exists>k. snd (snd (mock_allow_ttl m ck ip ttl)) = (\<lambda>n. ck (k + n))"
proof (cases "mk_allowed m (ip_string ip)")
  case None
  then show ?thesis by (intro exI [of _ 1]) (simp add: mock_simps)
next
  case (Some e)
  consider (update) "ck 1 < ie_expires e \<and> ie_expires e < ck 0 + sint ttl"
    | (keep) "\<not> (ck 1 < ie_expires e \<and> ie_expires e < ck 0 + sint ttl)" "ck 2 < ie_expires e"
    | (renew) "\<not> (ck 1 < ie_expires e \<and> ie_expires e < ck 0 + sint ttl)" "\<not> ck 2 < ie_expires e"
    by blast
  then show ?thesis
  proof cases
    case update
    with Some show ?thesis by (intro exI [of _ 2]) (simp add: mock_simps)
  next
    case keep
    with Some show ?thesis by (intro exI [of _ 3]) (auto simp: mock_simps numeral_2_eq_2 numeral_3_eq_3)
  next
    case renew
    with Some show ?thesis by (intro exI [of _ 4]) (auto simp: mock_simps numeral_2_eq_2 eval_nat_numeral)
  qed
qed

lemma mock_allow_ttl_later: "later ck (snd (snd (mock_allow_ttl m ck ip ttl)))"
  using mock_allow_ttl_reads unfolding later_def .

lemma new_expiry_lower:
  assumes "mono ck"
  shows "ck 0 + sint ttl \<le> new_expiry old ck ttl"
proof -
  have "ck 0 \<le> ck 3" "ck 1 \<le> ck 2"
    using mono_read_le [OF assms, of 3] mono_reads [OF assms, of 1 2] by simp_all
  then show ?thesis by (auto simp: new_expiry_def split: option.splits)
qed

text \<open>The expiry is the old one or the TTL counted from a reading the call has taken.\<close>

lemma new_expiry_upper:
  assumes "mono ck" "mock_view m (ip_string ip) \<noteq> Some (new_expiry (mock_view m (ip_string ip)) ck ttl)"
  shows "new_expiry (mock_view m (ip_string ip)) ck ttl
    \<le> snd (snd (mock_allow_ttl m ck ip ttl)) 0 + sint ttl"
proof (cases "mk_allowed m (ip_string ip)")
  case None
  moreover have "ck 0 \<le> ck 1" using mono_reads [OF assms(1)] by simp
  ultimately show ?thesis by (simp add: mock_simps new_expiry_def expiry_view_apply)
next
  case (Some e)
  have "ck 0 \<le> ck 2" "ck 3 \<le> ck 4"
    using mono_reads [OF assms(1)] by simp_all
  with Some assms(2) show ?thesis
    by (simp add: mock_simps new_expiry_def expiry_view_apply eval_nat_numeral split: if_splits)
qed

interpretation mock: firewall mock_allow_ttl mock_remove "mock_cleanup_expired order"
    mock_view ip_string "\<lambda>_ _ _. True" for order
proof (unfold_locales, goal_cases)
  case (1 m ck ip d r m' ck')
  then show ?case using mock_allow_ttl_later [of ck m ip d] by simp
next
  case (2 ck ip d m m' ck')
  then show ?case using mock_allow_ttl_view(2) [of m ck ip d] new_expiry_lower [of ck] by simp
next
  case (3 ck ip d m r m' ck' k)
  then show ?case using mock_allow_ttl_view(2) [of m ck ip d] by simp
next
  case (4 ck ip d m r m' ck' e)
  then show ?case
    using mock_allow_ttl_view(2) [of m ck ip d] new_expiry_upper [of ck m ip d] by fastforce
next
  case (5 r m ck ip d m' ck')
  then show ?case using mock_allow_ttl_view(1) [of m ck ip d] by simp
next
  case (6 m ip m')
  then show ?case by (auto simp: mock_remove_def mock_view_def)
next
  case (7 m ck r m' ck')
  then show ?case by (auto simp: mock_cleanup_expired_def go_defs)
next
  case (8 m ck r m' ck' k e)
  then show ?case
    by (auto simp: mock_cleanup_expired_def mock_view_def expiry_view_apply delete_all_apply
        go_defs split: if_splits)
next
  case (9 m ck r m' ck' k e)
  then show ?case
    by (auto simp: mock_cleanup_expired_def mock_view_def expiry_view_apply delete_all_apply
        expired_keys_set go_defs)
qed auto

lemma mock_cleanup_expired_exact:
  assumes "mock_cleanup_expired order m ck = (r, m', ck')" "visits order (mk_allowed m)"
  shows "mk_allowed m' = (\<lambda>s. case mk_allowed m s of None \<Rightarrow> None
      | Some e \<Rightarrow> if ie_expires e < ck 0 then None else Some e)"
proof -
  have "m' = m\<lparr>mk_allowed := delete_all (expired_keys (mk_allowed m) (ck 0) order) (mk_allowed m)\<rparr>"
    using assms(1) by (simp add: mock_cleanup_expired_def now_def)
  then show ?thesis using visits_dom [OF assms(2)]
    by (auto simp: delete_all_eq expired_keys_set fun_eq_iff split: option.splits)
qed

end
