(* ===== verification/Iptables_Firewall.thy ===== *)
theory Iptables_Firewall
  imports Mock_Firewall
begin

text \<open>
  \<open>IPTablesManager\<close> of \<open>main.go\<close>: the map of \<open>IPEntry\<close>s, the name of the chain, whether
  \<open>cleanupDone\<close> is closed, and the packet filter of the machine (\<open>it_kernel\<close>), which the
  code reaches only by running the program \<open>iptables\<close>. Running a program is the parameter
  \<open>exec\<close>: it takes the argument vector and the packet filter and gives an error text or
  none, and the new packet filter. \<open>runCommand\<close> splits its text at white space and starts
  the program itself, without a shell.
\<close>

type_synonym 'k exec = "string list \<Rightarrow> 'k \<Rightarrow> string option \<times> 'k"

record 'k iptables_manager =
  it_allowed :: "string \<rightharpoonup> ip_entry"
  it_chain :: string
  it_closed :: bool
  it_kernel :: 'k

definition new_iptables :: "'k \<Rightarrow> 'k iptables_manager" where
  "new_iptables k =
     \<lparr>it_allowed = Map.empty, it_chain = ''EGRESS_WHITELIST'', it_closed = False, it_kernel = k\<rparr>"

definition run_command :: "'k exec \<Rightarrow> string \<Rightarrow> 'k \<Rightarrow> string option \<times> 'k" where
  "run_command exec cmd k = (case str_fields cmd of [] \<Rightarrow> (None, k) | parts \<Rightarrow> exec parts k)"

definition or_true :: string where "or_true = '' 2>/dev/null || true''"

definition cmd_delete :: "string \<Rightarrow> string \<Rightarrow> string" where
  "cmd_delete chain s = ''iptables -D '' @ chain @ '' -d '' @ s @ '' -j ACCEPT'' @ or_true"

definition cmd_insert :: "string \<Rightarrow> string \<Rightarrow> string" where
  "cmd_insert chain s = ''iptables -I '' @ chain @ '' -d '' @ s @ '' -j ACCEPT''"

text \<open>A command whose error the code ignores.\<close>

definition run_ignored :: "'k exec \<Rightarrow> string \<Rightarrow> 'k iptables_manager \<Rightarrow> 'k iptables_manager" where
  "run_ignored exec cmd m = m\<lparr>it_kernel := snd (run_command exec cmd (it_kernel m))\<rparr>"

text \<open>The four commands of \<open>Setup\<close> and the texts of their errors; the first failure returns.\<close>

definition setup_steps :: "string \<Rightarrow> (string \<times> string) list" where
  "setup_steps chain =
     [(''iptables -N '' @ chain @ or_true, ''failed to create iptables chain''),
      (''iptables -F '' @ chain, ''failed to flush iptables chain''),
      (''iptables -I OUTPUT -j '' @ chain, ''failed to insert OUTPUT rule''),
      (''iptables -A '' @ chain @ '' -j DROP'', ''failed to set default DROP policy'')]"

fun run_steps :: "'k exec \<Rightarrow> (string \<times> string) list \<Rightarrow> 'k \<Rightarrow> fw_error ret \<times> 'k" where
  "run_steps exec [] k = (Nil_ret, k)"
| "run_steps exec ((cmd, what) # steps) k =
     (case run_command exec cmd k of
        (Some e, k1) \<Rightarrow> (Err (Setup_failed what e), k1)
      | (None, k1) \<Rightarrow> run_steps exec steps k1)"

definition it_setup :: "'k exec \<Rightarrow> 'k iptables_manager \<Rightarrow> fw_error ret \<times> 'k iptables_manager" where
  "it_setup exec m =
     (let (r, k) = run_steps exec (setup_steps (it_chain m)) (it_kernel m)
      in (r, m\<lparr>it_kernel := k\<rparr>))"

text \<open>The last part of \<open>AllowIPWithTTL\<close>: insert the rule, then store the entry.\<close>

definition it_insert_store ::
  "'k exec \<Rightarrow> 'k iptables_manager \<Rightarrow> clock \<Rightarrow> string \<Rightarrow> duration \<Rightarrow> fw_error ret \<times> 'k iptables_manager \<times> clock" where
  "it_insert_store exec m ck s ttl =
     (case run_command exec (cmd_insert (it_chain m) s) (it_kernel m) of
        (Some e, k) \<Rightarrow> (Err (Allow_failed s e), m\<lparr>it_kernel := k\<rparr>, ck)
      | (None, k) \<Rightarrow>
          (let (t, ck1) = now ck
           in (Nil_ret,
               m\<lparr>it_kernel := k,
                 it_allowed := (it_allowed m)(s \<mapsto> \<lparr>ie_ip = s, ie_expires = time_add t ttl\<rparr>)\<rparr>, ck1)))"

text \<open>The branch that extends a valid entry: delete the rule, insert it again, set the expiry.\<close>

definition it_extend ::
  "'k exec \<Rightarrow> 'k iptables_manager \<Rightarrow> string \<Rightarrow> ip_entry \<Rightarrow> time \<Rightarrow> fw_error ret \<times> 'k iptables_manager" where
  "it_extend exec m s entry new_expires =
     (let m1 = run_ignored exec (cmd_delete (it_chain m) s) m
      in case run_command exec (cmd_insert (it_chain m) s) (it_kernel m1) of
           (Some e, k) \<Rightarrow> (Err (Update_failed s e), m1\<lparr>it_kernel := k\<rparr>)
         | (None, k) \<Rightarrow>
             (Nil_ret, m1\<lparr>it_kernel := k,
                it_allowed := (it_allowed m)(s \<mapsto> entry\<lparr>ie_expires := new_expires\<rparr>)\<rparr>))"

definition it_allow_ttl ::
  "'k exec \<Rightarrow> 'k iptables_manager \<Rightarrow> clock \<Rightarrow> ip \<Rightarrow> duration \<Rightarrow> fw_error ret \<times> 'k iptables_manager \<times> clock" where
  "it_allow_ttl exec m ck ip ttl =
     (let s = ip_string ip
      in case it_allowed m s of
           None \<Rightarrow> it_insert_store exec m ck s ttl
         | Some entry \<Rightarrow>
             (let (t1, ck1) = now ck;
                  new_expires = time_add t1 ttl;
                  (t2, ck2) = now ck1
              in if time_before t2 (ie_expires entry) \<and> time_after new_expires (ie_expires entry)
                 then (let (r, m') = it_extend exec m s entry new_expires in (r, m', ck2))
                 else
                   (let (t3, ck3) = now ck2
                    in if time_before t3 (ie_expires entry) then (Nil_ret, m, ck3)
                       else it_insert_store exec
                              (run_ignored exec (cmd_delete (it_chain m) s) m) ck3 s ttl)))"

definition it_allow ::
  "'k exec \<Rightarrow> 'k iptables_manager \<Rightarrow> clock \<Rightarrow> ip \<Rightarrow> fw_error ret \<times> 'k iptables_manager \<times> clock" where
  "it_allow exec m ck ip = it_allow_ttl exec m ck ip (300 * second)"

definition it_remove :: "'k exec \<Rightarrow> 'k iptables_manager \<Rightarrow> ip \<Rightarrow> fw_error ret \<times> 'k iptables_manager" where
  "it_remove exec m ip =
     (let s = ip_string ip
      in case it_allowed m s of
           None \<Rightarrow> (Nil_ret, m)
         | Some _ \<Rightarrow>
             (let m1 = run_ignored exec (cmd_delete (it_chain m) s) m
              in (Nil_ret, m1\<lparr>it_allowed := (it_allowed m1)(s := None)\<rparr>)))"

text \<open>The second loop of \<open>CleanupExpired\<close>: delete the rule and the entry of every key.\<close>

fun it_remove_keys :: "'k exec \<Rightarrow> string list \<Rightarrow> 'k iptables_manager \<Rightarrow> 'k iptables_manager" where
  "it_remove_keys exec [] m = m"
| "it_remove_keys exec (s # ss) m =
     (let m1 = run_ignored exec (cmd_delete (it_chain m) s) m
      in it_remove_keys exec ss (m1\<lparr>it_allowed := (it_allowed m1)(s := None)\<rparr>))"

definition it_cleanup_expired ::
  "'k exec \<Rightarrow> string list \<Rightarrow> 'k iptables_manager \<Rightarrow> clock \<Rightarrow> fw_error ret \<times> 'k iptables_manager \<times> clock" where
  "it_cleanup_expired exec order m ck =
     (let (t, ck1) = now ck
      in (Nil_ret, it_remove_keys exec (expired_keys (it_allowed m) t order) m, ck1))"

text \<open>
  \<open>cleanupLoop\<close>, the goroutine \<open>NewIPTablesManager\<close> starts: what its \<open>select\<close> receives, a tick every 30 seconds
  with the order in which the map is visited then, or the end of \<open>cleanupDone\<close>, after which it has returned.
\<close>

datatype loop_event = Ticker_fires "string list" | Done_closed

fun it_cleanup_loop ::
  "'k exec \<Rightarrow> loop_event list \<Rightarrow> 'k iptables_manager \<Rightarrow> clock \<Rightarrow> bool \<times> 'k iptables_manager \<times> clock" where
  "it_cleanup_loop exec [] m ck = (False, m, ck)"
| "it_cleanup_loop exec (Ticker_fires order # es) m ck =
     (let (r, m1, ck1) = it_cleanup_expired exec order m ck in it_cleanup_loop exec es m1 ck1)"
| "it_cleanup_loop exec (Done_closed # es) m ck = (True, m, ck)"

definition it_close :: "'k iptables_manager \<Rightarrow> fw_error ret \<times> 'k iptables_manager" where
  "it_close m =
     (if it_closed m then (Panic ''close of closed channel'', m)
      else (Nil_ret, m\<lparr>it_closed := True\<rparr>))"

text \<open>
  \<open>Cleanup\<close>: every rule of the map, then the chain; all errors are ignored and the map keeps
  its entries.
\<close>

definition it_cleanup :: "'k exec \<Rightarrow> string list \<Rightarrow> 'k iptables_manager \<Rightarrow> fw_error ret \<times> 'k iptables_manager" where
  "it_cleanup exec order m =
     (let cmds = map (cmd_delete (it_chain m)) order @
            [''iptables -D OUTPUT -j '' @ it_chain m @ or_true,
             ''iptables -F '' @ it_chain m @ or_true,
             ''iptables -X '' @ it_chain m @ or_true]
      in (Nil_ret, fold (run_ignored exec) cmds m))"

section \<open>The argument vectors\<close>

lemma plain_ip [simp]: "plain_word (ip_string ip)"
  by (rule plain_word_ip_string)

lemma fields_acc_plain:
  assumes "plain_word w"
  shows "fields_acc acc (w @ s) = fields_acc (rev w @ acc) s"
  using assms by (simp add: fields_acc_word plain_word_def)

lemma fields_acc_plain_end: "plain_word w \<Longrightarrow> fields_acc [] w = [w]"
  using fields_acc_plain [of w "[]" "[]"] by (simp add: plain_word_def)

lemma plain_word_ne: "plain_word w \<Longrightarrow> w \<noteq> []"
  by (simp add: plain_word_def)

lemmas argv_simps = str_fields_def fields_acc_plain fields_acc_plain_end plain_word_ne is_space_def or_true_def

lemma cmd_insert_argv:
  assumes "plain_word chain" "plain_word s"
  shows "str_fields (cmd_insert chain s) = [''iptables'', ''-I'', chain, ''-d'', s, ''-j'', ''ACCEPT'']"
  using assms by (simp add: cmd_insert_def argv_simps)

lemma cmd_delete_argv:
  assumes "plain_word chain" "plain_word s"
  shows "str_fields (cmd_delete chain s) =
    [''iptables'', ''-D'', chain, ''-d'', s, ''-j'', ''ACCEPT'', ''2>/dev/null'', ''||'', ''true'']"
  using assms by (simp add: cmd_delete_def argv_simps)

lemma new_chain_argv:
  assumes "plain_word chain"
  shows "str_fields (''iptables -N '' @ chain @ or_true) =
    [''iptables'', ''-N'', chain, ''2>/dev/null'', ''||'', ''true'']"
  using assms by (simp add: argv_simps)

section \<open>Refinement of the mock\<close>

text \<open>
  Forgetting the packet filter, the manager is the mock: every call that succeeds does to the
  map and the clock what the mock does.
\<close>

definition it_abs :: "'k iptables_manager \<Rightarrow> mock_manager" where
  "it_abs m = \<lparr>mk_allowed = it_allowed m, mk_closed = it_closed m\<rparr>"

definition it_view :: "'k iptables_manager \<Rightarrow> string \<Rightarrow> time option" where
  "it_view m = expiry_view (it_allowed m)"

lemma it_abs_simps [simp]:
  "mk_allowed (it_abs m) = it_allowed m"
  "mk_closed (it_abs m) = it_closed m"
  "mock_view (it_abs m) = it_view m"
  "it_abs (m\<lparr>it_kernel := k\<rparr>) = it_abs m"
  by (simp_all add: it_abs_def mock_view_def it_view_def)

lemma run_ignored_simps [simp]:
  "it_allowed (run_ignored exec cmd m) = it_allowed m"
  "it_chain (run_ignored exec cmd m) = it_chain m"
  "it_closed (run_ignored exec cmd m) = it_closed m"
  "it_abs (run_ignored exec cmd m) = it_abs m"
  "it_view (run_ignored exec cmd m) = it_view m"
  by (simp_all add: run_ignored_def it_view_def)

lemma it_insert_store_cases:
  assumes "it_insert_store exec m ck s ttl = (r, m', ck')"
  shows "(r = Nil_ret \<and> (it_abs m', ck') = mock_store (it_abs m) ck s ttl) \<or>
    ((\<exists>e. r = Err (Allow_failed s e)) \<and> it_abs m' = it_abs m \<and> ck' = ck)"
  using assms
  by (auto simp: it_insert_store_def mock_store_def it_abs_def Let_def split: prod.splits option.splits)

lemma it_extend_cases:
  assumes "it_extend exec m s entry e = (r, m')"
  shows "(r = Nil_ret \<and> it_abs m' =
      (it_abs m)\<lparr>mk_allowed := (it_allowed m)(s \<mapsto> entry\<lparr>ie_expires := e\<rparr>)\<rparr>) \<or>
    ((\<exists>x. r = Err (Update_failed s x)) \<and> it_abs m' = it_abs m)"
  using assms
  by (auto simp: it_extend_def it_abs_def run_ignored_def Let_def split: prod.splits option.splits)

lemma mock_store_forgets:
  "mock_store (m\<lparr>mk_allowed := (mk_allowed m)(s := None)\<rparr>) ck s ttl = mock_store m ck s ttl"
  by (simp add: mock_store_def now_def)

lemma it_allow_ttl_cases:
  assumes "it_allow_ttl exec m ck ip ttl = (r, m', ck')"
  obtains (ok) "r = Nil_ret" "mock_allow_ttl (it_abs m) ck ip ttl = (Nil_ret, it_abs m', ck')"
    | (failed) e where "r = Err e" "it_abs m' = it_abs m" "later ck ck'"
proof (cases "it_allowed m (ip_string ip)")
  case None
  then have "it_insert_store exec m ck (ip_string ip) ttl = (r, m', ck')"
    using assms by (simp add: it_allow_ttl_def Let_def)
  from it_insert_store_cases [OF this] show ?thesis
    using None ok failed by (auto simp: mock_allow_ttl_def Let_def)
next
  case (Some entry)
  let ?s = "ip_string ip"
  let ?up = "ck 1 < ie_expires entry \<and> ie_expires entry < ck 0 + sint ttl"
  have l: "later ck (\<lambda>n. ck (Suc (Suc n)))" by simp
  consider (update) ?up | (keep) "\<not> ?up" "ck 2 < ie_expires entry"
    | (renew) "\<not> ?up" "\<not> ck 2 < ie_expires entry"
    by blast
  then show ?thesis
  proof cases
    case update
    then have "it_extend exec m ?s entry (ck 0 + sint ttl) = (r, m')" "ck' = (\<lambda>n. ck (Suc (Suc n)))"
      using assms Some by (auto simp: it_allow_ttl_def go_defs Let_def split: prod.splits)
    with it_extend_cases [OF this(1)] update Some l ok failed show ?thesis
      by (auto simp: mock_allow_ttl_def go_defs Let_def)
  next
    case keep
    then have "r = Nil_ret" "m' = m" "ck' = (\<lambda>n. ck (Suc (Suc (Suc n))))"
      using assms Some by (auto simp: it_allow_ttl_def go_defs Let_def numeral_2_eq_2)
    with keep Some ok show ?thesis
      by (auto simp: mock_allow_ttl_def go_defs Let_def numeral_2_eq_2)
  next
    case renew
    let ?m = "run_ignored exec (cmd_delete (it_chain m) ?s) m"
    have "it_insert_store exec ?m (\<lambda>n. ck (Suc (Suc (Suc n)))) ?s ttl = (r, m', ck')"
      using assms Some renew by (auto simp: it_allow_ttl_def go_defs Let_def numeral_2_eq_2)
    from it_insert_store_cases [OF this] show ?thesis
      using renew Some l ok failed mock_store_forgets [of "it_abs m" ?s]
      by (auto simp: mock_allow_ttl_def go_defs Let_def numeral_2_eq_2)
  qed
qed

lemma it_remove_keys_abs:
  "it_abs (it_remove_keys exec ss m) = (it_abs m)\<lparr>mk_allowed := delete_all ss (it_allowed m)\<rparr>"
  by (induction ss arbitrary: m) (simp_all add: it_abs_def Let_def)

lemma it_cleanup_expired_abs:
  assumes "it_cleanup_expired exec order m ck = (r, m', ck')"
  shows "mock_cleanup_expired order (it_abs m) ck = (r, it_abs m', ck')"
  using assms it_remove_keys_abs [of exec _ m]
  by (auto simp: it_cleanup_expired_def mock_cleanup_expired_def now_def)

lemma it_remove_abs:
  assumes "it_remove exec m ip = (r, m')"
  shows "mock_remove (it_abs m) ip = (r, it_abs m')"
proof (cases "it_allowed m (ip_string ip)")
  case None
  then have "(it_allowed m)(ip_string ip := None) = it_allowed m" by (simp add: fun_upd_idem)
  with None assms show ?thesis by (auto simp: it_remove_def mock_remove_def it_abs_def)
next
  case (Some e)
  with assms show ?thesis
    by (auto simp: it_remove_def mock_remove_def it_abs_def Let_def)
qed

interpretation iptables: firewall "it_allow_ttl exec" "it_remove exec"
    "it_cleanup_expired exec order" it_view ip_string "\<lambda>_ _ _. True" for exec order
proof (unfold_locales, goal_cases)
  case (1 m ck ip d r m' ck')
  then show ?case by (cases rule: it_allow_ttl_cases) (auto dest: mock.allow_later)
next
  case (2 ck ip d m m' ck')
  from 2(3) show ?case
    by (cases rule: it_allow_ttl_cases) (use 2(1) mock.allow_grants in fastforce)+
next
  case (3 ck ip d m r m' ck' k)
  from 3(2) show ?case
  proof (cases rule: it_allow_ttl_cases)
    case ok
    then show ?thesis using mock.allow_other [OF _ ok(2) 3(3)] by simp
  next
    case (failed e)
    then show ?thesis by (metis it_abs_simps(3))
  qed
next
  case (4 ck ip d m r m' ck' e)
  from 4(3) show ?case
  proof (cases rule: it_allow_ttl_cases)
    case ok
    then show ?thesis using mock.allow_bound [OF 4(1) _ ok(2)] 4(4) by simp
  next
    case (failed x)
    then have "it_view m' = it_view m" by (metis it_abs_simps(3))
    with 4(4) show ?thesis by simp
  qed
next
  case (5 r m ck ip d m' ck')
  from 5(2) show ?case
    by (cases rule: it_allow_ttl_cases) (use 5(1) in \<open>auto simp flip: it_abs_simps(3)\<close>)
next
  case (6 m ip m')
  then show ?case using mock.remove_gone [OF it_remove_abs [OF 6]] by simp
next
  case (7 m ck r m' ck')
  then show ?case using mock.cleanup_later [OF it_cleanup_expired_abs] by blast
next
  case (8 m ck r m' ck' k e)
  then show ?case using mock.cleanup_only_removes [OF it_cleanup_expired_abs [OF 8(1)]] by simp
next
  case (9 m ck r m' ck' k e)
  then show ?case using mock.cleanup_keeps [OF it_cleanup_expired_abs [OF 9(1)]] by simp
qed auto

text \<open>However often it ticks, the loop takes out only entries that have expired by the end.\<close>

lemma cleanup_loop_keeps:
  assumes "it_cleanup_loop exec es m ck = (ended, m', ck')" "mono ck"
  shows "later ck ck' \<and> (\<forall>k e. it_view m' k = Some e \<longrightarrow> it_view m k = Some e) \<and>
    (\<forall>k e. it_view m k = Some e \<longrightarrow> ck' 0 \<le> e \<longrightarrow> it_view m' k = Some e)"
  using assms
proof (induction es arbitrary: m ck)
  case (Cons ev es)
  show ?case
  proof (cases ev)
    case (Ticker_fires order)
    obtain r m1 ck1 where c: "it_cleanup_expired exec order m ck = (r, m1, ck1)" by (rule prod_cases3)
    have l: "later ck ck1" using iptables.cleanup_later [OF c] .
    have m1: "mono ck1" using mono_later [OF Cons.prems(2) l] .
    have run: "it_cleanup_loop exec es m1 ck1 = (ended, m', ck')" using Cons.prems(1) c Ticker_fires by simp
    note ih = Cons.IH [OF run m1]
    have rest: "later ck1 ck'" "\<And>k e. it_view m' k = Some e \<Longrightarrow> it_view m1 k = Some e"
      "\<And>k e. it_view m1 k = Some e \<Longrightarrow> ck' 0 \<le> e \<Longrightarrow> it_view m' k = Some e"
      using ih by blast+
    have "later ck ck'" using l rest(1) by (rule later_trans)
    moreover from this have le: "ck 0 \<le> ck' 0" using Cons.prems(2) mono_later_le by blast
    moreover have "it_view m k = Some e" if "it_view m' k = Some e" for k e
      using iptables.cleanup_only_removes [OF c] rest(2) [OF that] by blast
    moreover have "it_view m' k = Some e" if "it_view m k = Some e" "ck' 0 \<le> e" for k e
      using rest(3) [OF iptables.cleanup_keeps [OF c that(1)] that(2)] le that(2) by simp
    ultimately show ?thesis by blast
  next
    case Done_closed
    with Cons.prems show ?thesis by simp
  qed
qed simp

section \<open>What reaches the packet filter\<close>

text \<open>
  Documented behaviour of \<open>iptables\<close>: an argument list with a word it does not know is an
  error and changes nothing. Without a shell, \<open>||\<close> is such a word.
\<close>

definition rejects_shell_words :: "'k exec \<Rightarrow> bool" where
  "rejects_shell_words exec \<longleftrightarrow>
     (\<forall>argv k. ''||'' \<in> set argv \<longrightarrow> (\<exists>e. exec argv k = (Some e, k)))"

lemma rejected_run:
  assumes "rejects_shell_words exec" "str_fields cmd = w # ws" "''||'' \<in> set (w # ws)"
  shows "\<exists>e. run_command exec cmd k = (Some e, k)"
  using assms by (simp add: run_command_def rejects_shell_words_def)

lemma rejected_delete:
  assumes "rejects_shell_words exec" "plain_word (it_chain m)" "plain_word s"
  shows "run_ignored exec (cmd_delete (it_chain m) s) m = m"
  using rejected_run [OF assms(1) cmd_delete_argv [OF assms(2,3)], of "it_kernel m"]
  by (auto simp: run_ignored_def)

lemma rejected_remove_keys:
  assumes "rejects_shell_words exec" "plain_word (it_chain m)" "\<forall>s \<in> set ss. plain_word s"
  shows "it_kernel (it_remove_keys exec ss m) = it_kernel m"
  using assms
proof (induction ss arbitrary: m)
  case (Cons s ss)
  have "run_ignored exec (cmd_delete (it_chain m) s) m = m"
    using rejected_delete Cons.prems by auto
  with Cons show ?case by (simp add: Let_def)
qed simp

lemma it_remove_keys_chain [simp]: "it_chain (it_remove_keys exec ss m) = it_chain m"
  by (induction ss arbitrary: m) (simp_all add: Let_def)

text \<open>The insertion of a rule, as the argument vector \<open>iptables\<close> is run with.\<close>

definition insert_argv :: "string \<Rightarrow> string \<Rightarrow> string list" where
  "insert_argv chain s = [''iptables'', ''-I'', chain, ''-d'', s, ''-j'', ''ACCEPT'']"

lemma run_insert:
  "plain_word chain \<Longrightarrow> run_command exec (cmd_insert chain (ip_string ip)) k = exec (insert_argv chain (ip_string ip)) k"
  by (simp add: run_command_def cmd_insert_argv insert_argv_def)

text \<open>A concrete packet filter: the commands accepted so far, those with a shell's words refused.\<close>

definition demo_exec :: "string list list exec" where
  "demo_exec argv k =
     (if ''||'' \<in> set argv then (Some ''exit status 2'', k) else (None, argv # k))"

lemma demo_rejects: "rejects_shell_words demo_exec"
  by (simp add: rejects_shell_words_def demo_exec_def)

section \<open>Well-formed managers\<close>

text \<open>Every key of the map is the text of an address, and the name of the chain is one word.\<close>

definition it_wf :: "'k iptables_manager \<Rightarrow> bool" where
  "it_wf m \<longleftrightarrow> plain_word (it_chain m) \<and> dom (it_allowed m) \<subseteq> range ip_string"

lemma it_wf_new: "it_wf (new_iptables k)"
  by (simp add: it_wf_def new_iptables_def plain_word_def is_space_def)

lemma it_wf_kernel [simp]: "it_wf (m\<lparr>it_kernel := k\<rparr>) = it_wf m"
  by (simp add: it_wf_def)

lemma it_wf_ignored [simp]: "it_wf (run_ignored exec cmd m) = it_wf m"
  by (simp add: it_wf_def)

lemma it_chain_allow:
  "it_allow_ttl exec m ck ip ttl = (r, m', ck') \<Longrightarrow> it_chain m' = it_chain m"
  by (auto simp: it_allow_ttl_def it_insert_store_def it_extend_def run_ignored_def Let_def
      split: option.splits prod.splits if_splits)

lemma mock_allow_dom:
  "mock_allow_ttl m ck ip ttl = (r, m', ck') \<Longrightarrow> dom (mk_allowed m') \<subseteq> insert (ip_string ip) (dom (mk_allowed m))"
  by (auto simp: mock_allow_ttl_def mock_store_def Let_def split: option.splits prod.splits if_splits)

lemma it_wf_allow:
  assumes "it_allow_ttl exec m ck ip ttl = (r, m', ck')" "it_wf m"
  shows "it_wf m'"
proof -
  have "dom (it_allowed m') \<subseteq> insert (ip_string ip) (dom (it_allowed m))"
    using assms(1)
  proof (cases rule: it_allow_ttl_cases)
    case ok
    from mock_allow_dom [OF ok(2)] show ?thesis by simp
  next
    case (failed e)
    then have "it_allowed m' = it_allowed m" by (metis it_abs_simps(1))
    then show ?thesis by auto
  qed
  with assms(2) it_chain_allow [OF assms(1)] show ?thesis by (auto simp: it_wf_def)
qed

lemma it_wf_remove: "it_remove exec m ip = (r, m') \<Longrightarrow> it_wf m \<Longrightarrow> it_wf m'"
  by (auto simp: it_remove_def it_wf_def Let_def split: option.splits if_splits)

lemma it_remove_keys_allowed: "it_allowed (it_remove_keys exec ss m) = delete_all ss (it_allowed m)"
  using arg_cong [OF it_remove_keys_abs [of exec ss m], of mk_allowed] by simp

lemma it_wf_cleanup_expired:
  "it_cleanup_expired exec order m ck = (r, m', ck') \<Longrightarrow> it_wf m \<Longrightarrow> it_wf m'"
  by (auto simp: it_cleanup_expired_def now_def it_wf_def it_remove_keys_allowed delete_all_apply
      split: if_splits)

lemma setup_refused:
  assumes "rejects_shell_words exec" "plain_word (it_chain m)"
  shows "\<exists>e. it_setup exec m = (Err (Setup_failed ''failed to create iptables chain'' e), m)"
proof -
  obtain e where "run_command exec (''iptables -N '' @ it_chain m @ or_true) (it_kernel m) = (Some e, it_kernel m)"
    using rejected_run [OF assms(1) new_chain_argv [OF assms(2)], of "it_kernel m"] by auto
  then show ?thesis by (simp add: it_setup_def setup_steps_def)
qed

section \<open>Properties\<close>

text \<open>
  C31. A call of \<open>AllowIPWithTTL\<close> that succeeds does to the map, to \<open>cleanupDone\<close> and to the
  clock exactly what the mock does, whatever \<open>iptables\<close> answered; a call that fails leaves
  the map as it was and names the address in its error.
\<close>

theorem iptables_allow_refines_mock:
  "case it_allow_ttl exec m ck ip ttl of (r, m', ck') \<Rightarrow>
     (r = Nil_ret \<and> mock_allow_ttl (it_abs m) ck ip ttl = (Nil_ret, it_abs m', ck')) \<or>
     ((\<exists>e. r = Err e) \<and> it_abs m' = it_abs m)"
proof -
  obtain r m' ck' where a: "it_allow_ttl exec m ck ip ttl = (r, m', ck')" by (metis prod_cases3)
  then show ?thesis by (cases rule: it_allow_ttl_cases) (simp_all add: a)
qed

text \<open>
  When \<open>Setup\<close> succeeds, \<open>iptables\<close> has accepted exactly the four argument vectors
  create, flush, jump from OUTPUT and drop, in this order: the chain ends in a default DROP.
\<close>

theorem iptables_setup_steps:
  assumes "it_setup exec m = (Nil_ret, m')" "plain_word (it_chain m)"
  shows "\<exists>k1 k2 k3.
     exec [''iptables'', ''-N'', it_chain m, ''2>/dev/null'', ''||'', ''true''] (it_kernel m) = (None, k1) \<and>
     exec [''iptables'', ''-F'', it_chain m] k1 = (None, k2) \<and>
     exec [''iptables'', ''-I'', ''OUTPUT'', ''-j'', it_chain m] k2 = (None, k3) \<and>
     exec [''iptables'', ''-A'', it_chain m, ''-j'', ''DROP''] k3 = (None, it_kernel m') \<and>
     it_abs m' = it_abs m"
proof -
  have argv: "str_fields (''iptables -F '' @ it_chain m) = [''iptables'', ''-F'', it_chain m]"
    "str_fields (''iptables -I OUTPUT -j '' @ it_chain m) = [''iptables'', ''-I'', ''OUTPUT'', ''-j'', it_chain m]"
    "str_fields (''iptables -A '' @ it_chain m @ '' -j DROP'') = [''iptables'', ''-A'', it_chain m, ''-j'', ''DROP'']"
    using assms(2) by (simp_all add: argv_simps)
  obtain k where run: "run_steps exec (setup_steps (it_chain m)) (it_kernel m) = (Nil_ret, k)"
    and m': "m' = m\<lparr>it_kernel := k\<rparr>"
    using assms(1) by (auto simp: it_setup_def split: prod.splits)
  show ?thesis
    using run m' new_chain_argv [OF assms(2)] argv
    by (auto simp: setup_steps_def run_command_def split: prod.splits option.splits)
qed

text \<open>
  Because \<open>runCommand\<close> has no shell, the first command of \<open>Setup\<close> hands \<open>2>/dev/null\<close>,
  \<open>||\<close> and \<open>true\<close> to \<open>iptables\<close>: with an \<open>iptables\<close> that refuses unknown words, \<open>Setup\<close>
  always fails and installs nothing.
\<close>

theorem iptables_setup_refused:
  assumes "rejects_shell_words exec" "plain_word (it_chain m)"
  shows "\<exists>e. it_setup exec m = (Err (Setup_failed ''failed to create iptables chain'' e), m)"
  by (rule setup_refused [OF assms])

text \<open>
  C38. For the same reason no rule is ever taken back: \<open>RemoveIP\<close> and \<open>CleanupExpired\<close> delete
  the entry from the map, but the rule that accepts the address stays in the packet filter.
\<close>

theorem iptables_rules_stay:
  assumes "rejects_shell_words exec" "it_wf m"
    and "it_cleanup_expired exec order m ck = (r, m1, ck1)" "it_remove exec m ip = (r', m2)"
  shows "it_kernel m1 = it_kernel m \<and> it_kernel m2 = it_kernel m \<and> it_view m2 (ip_string ip) = None \<and>
    (\<forall>s e. it_view m s = Some e \<and> e < ck 0 \<and> s \<in> set order \<longrightarrow> it_view m1 s = None)"
proof -
  let ?ks = "expired_keys (it_allowed m) (ck 0) order"
  have "\<forall>s \<in> set ?ks. plain_word s"
    using assms(2) by (force simp: expired_keys_set it_wf_def)
  then have "it_kernel m1 = it_kernel m"
    using rejected_remove_keys [OF assms(1), of m ?ks] assms(2,3)
    by (auto simp: it_cleanup_expired_def now_def it_wf_def)
  moreover have "it_kernel m2 = it_kernel m"
    using assms(4) rejected_delete [OF assms(1), of m "ip_string ip"] assms(2)
    by (auto simp: it_remove_def it_wf_def Let_def split: option.splits)
  moreover have "it_view m2 (ip_string ip) = None"
    using assms(4) by (auto simp: it_remove_def it_view_def expiry_view_def Let_def split: option.splits)
  moreover have "it_view m1 s = None"
    if "it_view m s = Some e" "e < ck 0" "s \<in> set order" for s e
    using assms(3) that
    by (auto simp: it_cleanup_expired_def now_def it_view_def expiry_view_def it_remove_keys_allowed
        delete_all_apply expired_keys_set)
  ultimately show ?thesis by blast
qed

section \<open>Witnesses\<close>

definition demo_ip :: ip where "demo_ip = v4_prefix @ [93, 184, 216, 34]"

lemma demo_ip_string [simp]: "ip_string demo_ip = ''93.184.216.34''"
  by code_simp

text \<open>A manager with one entry that expires at time 5, made by \<open>AllowIPWithTTL\<close> itself.\<close>

definition demo_manager :: "string list list iptables_manager" where
  "demo_manager = fst (snd (it_allow_ttl demo_exec (new_iptables []) (\<lambda>_. 5) demo_ip 0))"

lemma demo_manager_wf: "it_wf demo_manager"
  using it_wf_allow [OF _ it_wf_new] unfolding demo_manager_def by (metis prod.collapse)

lemma iptables_setup_steps_witness:
  "\<exists>k1 k2 k3. (\<lambda>argv k. (None, argv # k)) [''iptables'', ''-F'', ''EGRESS_WHITELIST''] k1 = (None :: string option, k2 :: string list list)"
  using iptables_setup_steps [of "\<lambda>argv k. (None, argv # k)" "new_iptables []"
      "snd (it_setup (\<lambda>argv k. (None, argv # k)) (new_iptables []))"]
  by (simp add: it_setup_def setup_steps_def run_command_def new_iptables_def argv_simps plain_word_def)

lemma iptables_setup_refused_witness:
  "\<exists>e. it_setup demo_exec (new_iptables []) =
     (Err (Setup_failed ''failed to create iptables chain'' e), new_iptables [])"
  by (rule iptables_setup_refused [OF demo_rejects])
    (simp add: new_iptables_def plain_word_def is_space_def)

lemma iptables_rules_stay_witness:
  "let m = demo_manager;
       m1 = fst (snd (it_cleanup_expired demo_exec [ip_string demo_ip] m (\<lambda>_. 6)))
   in it_kernel m1 = [insert_argv ''EGRESS_WHITELIST'' (ip_string demo_ip)] \<and>
      it_view m1 (ip_string demo_ip) = None"
proof -
  have m: "it_kernel demo_manager = [insert_argv ''EGRESS_WHITELIST'' (ip_string demo_ip)]"
    "it_view demo_manager (ip_string demo_ip) = Some 5"
    using run_insert [of "''EGRESS_WHITELIST''" demo_exec demo_ip "[]"]
    by (simp_all add: demo_manager_def new_iptables_def it_allow_ttl_def it_insert_store_def
        plain_word_def is_space_def demo_exec_def insert_argv_def it_view_def expiry_view_def go_defs Let_def)
  let ?order = "[ip_string demo_ip]"
  obtain r m1 ck1 where c: "it_cleanup_expired demo_exec ?order demo_manager (\<lambda>_. 6) = (r, m1, ck1)"
    by (rule prod_cases3)
  obtain r' m2 where d: "it_remove demo_exec demo_manager demo_ip = (r', m2)"
    by (rule prod.exhaust)
  note stay = iptables_rules_stay [OF demo_rejects demo_manager_wf c d]
  have "it_view demo_manager (ip_string demo_ip) = Some 5 \<and> (5 :: int) < 6 \<and>
      ip_string demo_ip \<in> set ?order"
    using m(2) by (simp del: demo_ip_string)
  then have "it_view m1 (ip_string demo_ip) = None" using stay by blast
  then show ?thesis using stay m(1) c by simp
qed

end
