(* ===== verification/Go_Time.thy ===== *)
theory Go_Time
  imports Egress_Prelude
begin

text \<open>
  \<open>Duration.Seconds\<close> and \<open>time.Until\<close>. \<open>Seconds\<close> adds the whole seconds and the remaining
  nanoseconds divided by 1e9 as \<open>float64\<close>, both roundings being to 53 bits, ties to even.
  \<open>float_seconds\<close> is the integral part of the result, for a count of nanoseconds that is not
  negative; \<open>int_seconds\<close> is \<open>int(d.Seconds())\<close>, which truncates towards zero.
\<close>

definition rne_div :: "int \<Rightarrow> int \<Rightarrow> int" where
  "rne_div a b =
     (let q = a div b; r = a mod b
      in if 2 * r < b then q else if b < 2 * r then q + 1 else if even q then q else q + 1)"

fun bits_upto :: "nat \<Rightarrow> int \<Rightarrow> nat" where
  "bits_upto 0 n = 0"
| "bits_upto (Suc k) n = (if n \<le> 0 then 0 else Suc (bits_upto k (n div 2)))"

text \<open>\<open>float_frac ns = (m, s)\<close>: the nearest \<open>float64\<close> to \<open>ns / 1e9\<close> is \<open>m / 2 ^ s\<close>.\<close>

definition float_frac :: "int \<Rightarrow> int \<times> nat" where
  "float_frac ns =
     (let s = 52 + bits_upto 40 (1000000000 div ns);
          m = rne_div (ns * 2 ^ s) 1000000000
      in (m, s))"

definition float_seconds :: "int \<Rightarrow> int" where
  "float_seconds ns =
     (let sec = ns div 1000000000; rest = ns mod 1000000000
      in if rest = 0 then sec
         else
           (let (m, s) = float_frac rest;
                n = sec * 2 ^ s + m;
                drop = bits_upto 128 n - 53
            in (rne_div n (2 ^ drop) * 2 ^ drop) div 2 ^ s))"

definition int_seconds :: "int \<Rightarrow> int" where
  "int_seconds ns = (if ns < 0 then - float_seconds (- ns) else float_seconds ns)"

text \<open>\<open>t.Sub(u)\<close> saturates at the bounds of a duration.\<close>

definition time_sub :: "time \<Rightarrow> time \<Rightarrow> int" where
  "time_sub t u = max (- (2 ^ 63)) (min (2 ^ 63 - 1) (t - u))"

end
