(* ===== verification/Dns_Server.thy ===== *)
theory Dns_Server
  imports Dns_Resolver Iptables_Firewall Go_Time
begin

text \<open>
  \<open>DNSServer\<close> of \<open>main.go\<close>: the handler of a query, one tick of the domain monitor and one
  of the cleanup task, for any implementation \<open>allow\<close> of \<open>FirewallManager.AllowIPWithTTL\<close>.
  A query is its list of questions and the rest of the message (\<open>'q\<close>); what \<open>SetReply\<close> makes
  of a query is the parameter \<open>set_reply\<close> of the DNS library. The handler answers by
  \<open>WriteMsg\<close> exactly once, unless the manager panics.
\<close>

text \<open>
  \<open>uint32(ttl.Seconds())\<close>: the conversion truncates. A non-negative duration has less than \<open>2 ^ 34\<close>
  seconds; a value that \<open>uint32\<close> cannot hold is left to the implementation (\<open>oor\<close>).
\<close>

definition ttl_seconds :: "(duration \<Rightarrow> 32 word) \<Rightarrow> duration \<Rightarrow> 32 word" where
  "ttl_seconds oor d =
     (if sint d < 0 \<or> 2 ^ 32 \<le> float_seconds (sint d) then oor d
      else word_of_int (float_seconds (sint d)))"

section \<open>The handler\<close>

definition rcode_server_failure :: nat where "rcode_server_failure = 2"
definition rcode_not_implemented :: nat where "rcode_not_implemented = 4"
definition type_a :: nat where "type_a = 1"
definition class_inet :: nat where "class_inet = 1"

record question =
  q_name :: string
  q_type :: nat

record 'q dns_query =
  qy_questions :: "question list"
  qy_rest :: 'q

record a_answer =
  an_name :: string
  an_rrtype :: nat
  an_class :: nat
  an_ttl :: "32 word"
  an_ip :: ip

record 'r reply =
  rp_base :: 'r
  rp_rcode :: nat
  rp_answer :: "a_answer list"

datatype 'r outcome = Written "'r reply" | Crashed string

text \<open>The result of a handler: what it wrote, the logged failures, cache, manager and clock.\<close>

type_synonym ('r, 'm) handled =
  "'r outcome \<times> (ip \<times> fw_error) list \<times> domain_cache \<times> 'm \<times> clock"

definition answer_of :: "(duration \<Rightarrow> 32 word) \<Rightarrow> string \<Rightarrow> duration \<Rightarrow> ip \<Rightarrow> a_answer" where
  "answer_of oor name ttl ip =
     \<lparr>an_name = name, an_rrtype = type_a, an_class = class_inet, an_ttl = ttl_seconds oor ttl, an_ip = ip\<rparr>"

definition handle_dns ::
  "('q dns_query \<Rightarrow> 'r) \<Rightarrow> (duration \<Rightarrow> 32 word) \<Rightarrow>
   (string \<Rightarrow> string) \<Rightarrow> (string \<Rightarrow> string \<Rightarrow> string + dns_resp) \<Rightarrow>
   'm allow_op \<Rightarrow> resolver \<Rightarrow> 'q dns_query \<Rightarrow> domain_cache \<Rightarrow> 'm \<Rightarrow> clock \<Rightarrow> ('r, 'm) handled" where
  "handle_dns set_reply oor fqdn exchange al rs r c m ck =
     (let msg = \<lparr>rp_base = set_reply r, rp_rcode = rcode_success, rp_answer = []\<rparr>
      in case qy_questions r of
           [] \<Rightarrow> (Written (msg\<lparr>rp_rcode := rcode_server_failure\<rparr>), [], c, m, ck)
         | q # _ \<Rightarrow>
             (if q_type q \<noteq> type_a then
                (Written (msg\<lparr>rp_rcode := rcode_not_implemented\<rparr>), [], c, m, ck)
              else
                (case resolve_with_ttl fqdn exchange rs c (trim_suffix (q_name q) ''.'') ck of
                   (Inl e, c1, ck1) \<Rightarrow> (Written (msg\<lparr>rp_rcode := rcode_server_failure\<rparr>), [], c1, m, ck1)
                 | (Inr (ips, ttl), c1, ck1) \<Rightarrow>
                     (case allow_all al m ck1 ips ttl of
                        (log, Some p, m1, ck2) \<Rightarrow> (Crashed p, log, c1, m1, ck2)
                      | (log, None, m1, ck2) \<Rightarrow>
                          (Written (msg\<lparr>rp_answer := map (answer_of oor (q_name q) ttl) ips\<rparr>),
                           log, c1, m1, ck2)))))"

section \<open>The background tasks\<close>

text \<open>
  The loop over the configured domains: the body of one tick of \<open>DomainMonitor\<close>, and the
  loop that resolves the domains before \<open>main\<close> waits.
\<close>

fun refresh_domains ::
  "(string \<Rightarrow> string) \<Rightarrow> (string \<Rightarrow> string \<Rightarrow> string + dns_resp) \<Rightarrow>
   'm allow_op \<Rightarrow> resolver \<Rightarrow> string list \<Rightarrow> domain_cache \<Rightarrow> 'm \<Rightarrow> clock \<Rightarrow>
   string option \<times> domain_cache \<times> 'm \<times> clock" where
  "refresh_domains fqdn exchange al rs [] c m ck = (None, c, m, ck)"
| "refresh_domains fqdn exchange al rs (nm # nms) c m ck =
     (case resolve_with_ttl fqdn exchange rs c nm ck of
        (Inl e, c1, ck1) \<Rightarrow> refresh_domains fqdn exchange al rs nms c1 m ck1
      | (Inr (ips, ttl), c1, ck1) \<Rightarrow>
          (case allow_all al m ck1 ips ttl of
             (log, Some p, m1, ck2) \<Rightarrow> (Some p, c1, m1, ck2)
           | (log, None, m1, ck2) \<Rightarrow> refresh_domains fqdn exchange al rs nms c1 m1 ck2))"

text \<open>One tick of \<open>CleanupExpiredIPs\<close>, which only collects the texts of the cached addresses.\<close>

definition current_ip_set :: "string list \<Rightarrow> domain_cache \<Rightarrow> clock \<Rightarrow> string set \<times> clock" where
  "current_ip_set order c ck =
     (let (ips, ck1) = cache_allowed_ips order c ck in (set (map ip_string ips), ck1))"

text \<open>\<open>NewDNSResolver\<close> as \<open>NewDNSServer\<close> calls it, and the address \<open>Start\<close> listens on.\<close>

definition server_resolver :: "gateway_config \<Rightarrow> resolver" where
  "server_resolver cfg = \<lparr>rs_upstream = gc_upstream_dns cfg, rs_config = Some cfg\<rparr>"

definition listen_addr :: "gateway_config \<Rightarrow> string" where
  "listen_addr cfg =
     CHR '':'' # (if gc_port cfg < 0 then CHR ''-'' # dec_string (nat (- gc_port cfg)) else dec_string (nat (gc_port cfg)))"

section \<open>Lemmas\<close>

lemma ttl_seconds_whole:
  assumes "0 \<le> n" "n < 2 ^ 32" "sint d = n * 1000000000"
  shows "ttl_seconds oor d = word_of_int n"
  using assms by (simp add: ttl_seconds_def float_seconds_def)

text \<open>The branch in which the handler answers with addresses.\<close>

lemma handle_dns_answers:
  assumes "handle_dns set_reply oor fqdn exchange al rs r c m ck = (Written rp, log, c', m', ck')"
    and "rp_answer rp \<noteq> []"
  obtains q qs ips ttl ck1 where "qy_questions r = q # qs" "q_type q = type_a"
    "resolve_with_ttl fqdn exchange rs c (trim_suffix (q_name q) ''.'') ck = (Inr (ips, ttl), c', ck1)"
    "allow_all al m ck1 ips ttl = (log, None, m', ck')"
    "rp = \<lparr>rp_base = set_reply r, rp_rcode = rcode_success, rp_answer = map (answer_of oor (q_name q) ttl) ips\<rparr>"
proof (cases "qy_questions r")
  case Nil
  with assms show ?thesis by (auto simp: handle_dns_def Let_def)
next
  case (Cons q qs)
  have qt: "q_type q = type_a"
    by (rule ccontr) (use Cons assms in \<open>auto simp: handle_dns_def Let_def\<close>)
  obtain res c1 ck1 where res: "resolve_with_ttl fqdn exchange rs c (trim_suffix (q_name q) ''.'') ck = (res, c1, ck1)"
    by (rule prod_cases3)
  show ?thesis
  proof (cases res)
    case (Inl e)
    with Cons qt res assms show ?thesis by (auto simp: handle_dns_def Let_def)
  next
    case (Inr p)
    obtain ips ttl where p: "p = (ips, ttl)" by (rule prod.exhaust)
    obtain lg pn m1 ck2 where al: "allow_all al m ck1 ips ttl = (lg, pn, m1, ck2)" by (rule prod_cases4)
    show ?thesis
    proof (cases pn)
      case None
      with Cons qt res Inr p al assms that show ?thesis by (auto simp: handle_dns_def Let_def)
    next
      case (Some s)
      with Cons qt res Inr p al assms show ?thesis by (auto simp: handle_dns_def Let_def)
    qed
  qed
qed

context firewall
begin

text \<open>
  Every address of an answer whose insertion was not logged as failed is on the whitelist when
  the answer is written, for its TTL from a moment after the query arrived.
\<close>

lemma handle_dns_grants:
  assumes "handle_dns set_reply oor fqdn exchange allow rs r c m ck = (Written rp, log, c', m', ck')"
    and "mono ck" "a \<in> set (rp_answer rp)" "an_ip a \<notin> fst ` set log" "\<And>ip d. fits ck ip d"
  shows "\<exists>e ttl. view m' (key (an_ip a)) = Some e \<and> ck 0 + sint ttl \<le> e \<and> an_ttl a = ttl_seconds oor ttl"
proof -
  from assms(3) have "rp_answer rp \<noteq> []" by auto
  with assms(1) show ?thesis
  proof (cases rule: handle_dns_answers)
    case (1 q qs ips ttl ck1)
    have l: "later ck ck1" using 1(3) by (rule resolve_with_ttl_later)
    obtain ip where ip: "ip \<in> set ips" "an_ip a = ip" "an_ttl a = ttl_seconds oor ttl"
      using assms(3) 1(5) by (auto simp: answer_of_def)
    have "\<forall>ip \<in> set ips. fits ck1 ip ttl" using assms(5) fits_later l by blast
    then obtain e where e: "view m' (key ip) = Some e" "ck1 0 + sint ttl \<le> e"
      using allow_all_grants [OF 1(4) mono_later [OF assms(2) l]] ip assms(4) by blast
    moreover have "ck 0 \<le> ck1 0" using mono_later_le [OF assms(2) l] .
    ultimately show ?thesis using ip by (intro exI [of _ e] exI [of _ ttl]) simp
  qed
qed

text \<open>A hit in the cache grants the original TTL of the record from the query on, whatever the record's age.\<close>

lemma cache_hit_grants:
  assumes "handle_dns set_reply oor fqdn exchange allow rs r c m ck = (Written rp, log, c', m', ck')"
    and "qy_questions r = q # qs" "q_type q = type_a" "c (trim_suffix (q_name q) ''.'') = Some d" "ck 0 \<le> rec_expires d"
    and "mono ck" "\<forall>j \<in> set (rec_ips d). fits ck j (rec_ttl d)" "ip \<in> set (rec_ips d)" "ip \<notin> fst ` set log"
  shows "\<exists>e. view m' (key ip) = Some e \<and> ck 0 + sint (rec_ttl d) \<le> e"
proof -
  let ?ck = "\<lambda>n. ck (Suc n)"
  have res: "resolve_with_ttl fqdn exchange rs c (trim_suffix (q_name q) ''.'') ck = (Inr (rec_ips d, rec_ttl d), c, ?ck)"
    using assms(4,5) by (simp add: resolve_with_ttl_def cache_get_def go_defs)
  obtain lg pn m1 ck2 where al: "allow_all allow m ?ck (rec_ips d) (rec_ttl d) = (lg, pn, m1, ck2)"
    by (rule prod_cases4)
  have out: "pn = None \<and> lg = log \<and> m1 = m'"
    using assms(1-3) res al by (cases pn) (simp_all add: handle_dns_def Let_def)
  have l: "later ck ?ck" unfolding later_def by (intro exI [of _ 1]) simp
  have "\<forall>j \<in> set (rec_ips d). fits ?ck j (rec_ttl d)" using assms(7) fits_later l by blast
  then obtain e where "view m' (key ip) = Some e" "?ck 0 + sint (rec_ttl d) \<le> e"
    using allow_all_grants [of m ?ck "rec_ips d" "rec_ttl d" lg m1 ck2 ip] al out mono_later [OF assms(6) l] assms(8,9) by auto
  moreover have "ck 0 \<le> ?ck 0" by (rule mono_read_le [OF assms(6)])
  ultimately show ?thesis by (intro exI [of _ e]) simp
qed

text \<open>The handler changes the whitelist only at the addresses it answers with.\<close>

lemma handle_dns_others:
  assumes "handle_dns set_reply oor fqdn exchange allow rs r c m ck = (Written rp, log, c', m', ck')"
    and "\<And>ip d. fits ck ip d" "k \<notin> (key \<circ> an_ip) ` set (rp_answer rp)"
  shows "view m' k = view m k"
proof (cases "rp_answer rp = []")
  case False
  with assms(1) show ?thesis
  proof (cases rule: handle_dns_answers)
    case (1 q qs ips ttl ck1)
    have "later ck ck1" using 1(3) by (rule resolve_with_ttl_later)
    then have "\<forall>ip \<in> set ips. fits ck1 ip ttl" using assms(2) fits_later by blast
    moreover have "k \<notin> key ` set ips" using assms(3) 1(5) by (auto simp: answer_of_def image_iff)
    ultimately show ?thesis using allow_all_others [OF 1(4)] by simp
  qed
next
  case True
  with assms(1) show ?thesis
    by (auto simp: handle_dns_def Let_def split: list.splits if_splits prod.splits sum.splits option.splits)
qed

end

section \<open>Properties\<close>

text \<open>
  C33. What the handler answers: either no address at all, or the reply is a success to an A
  query and its addresses are, in their order, those of a cached record of the name that has not
  expired, or the A records of the answer the upstream server has just given for the name. Each
  answer carries the name of the question.
\<close>

theorem dns_answers_are_resolved:
  assumes "handle_dns set_reply oor fqdn exchange al rs r c m ck = (Written rp, log, c', m', ck')"
  shows "rp_answer rp = [] \<or>
    (\<exists>q qs. qy_questions r = q # qs \<and> q_type q = type_a \<and> rp_rcode rp = rcode_success \<and>
       (\<forall>a \<in> set (rp_answer rp). an_name a = q_name q \<and> an_rrtype a = type_a) \<and>
       ((\<exists>d. c (trim_suffix (q_name q) ''.'') = Some d \<and> ck 0 \<le> rec_expires d \<and>
             map an_ip (rp_answer rp) = rec_ips d) \<or>
        (\<exists>resp. exchange (fqdn (trim_suffix (q_name q) ''.'')) (rs_upstream rs) = Inr resp \<and>
             resp_rcode resp = rcode_success \<and>
             map an_ip (rp_answer rp) = List.map_filter a_address (resp_answer resp))))"
proof (cases "rp_answer rp = []")
  case False
  with assms show ?thesis
  proof (cases rule: handle_dns_answers)
    case (1 q qs ips ttl ck1)
    have ips: "map an_ip (rp_answer rp) = ips" "rp_rcode rp = rcode_success"
      "\<forall>a \<in> set (rp_answer rp). an_name a = q_name q \<and> an_rrtype a = type_a"
      using 1(5) by (auto simp: answer_of_def o_def)
    from 1(3) show ?thesis
    proof (cases rule: resolve_with_ttl_cases)
      case (hit d)
      with 1 ips show ?thesis by auto
    next
      case (stored resp ips1 ttl1 ck2)
      then have "ips1 = ips" "ttl1 = ttl" by simp_all
      with stored(2) have "resp_rcode resp = rcode_success"
        "ips = List.map_filter a_address (resp_answer resp)"
        unfolding read_reply_Inr by auto
      with 1 ips stored(1) show ?thesis by blast
    qed simp
  qed
qed simp

text \<open>
  C22. The iptables manager: when the handler has written an answer, every address in it whose
  insertion was not logged as failed is in the manager's map at least until the TTL counted from
  the arrival of the query, and the TTL of the answer is the one granted. No other address of
  the map has changed.
\<close>

theorem dns_answer_whitelisted_iptables:
  assumes "handle_dns set_reply oor fqdn exchange (it_allow_ttl exec) rs r c m ck
      = (Written rp, log, c', m', ck')"
    and "mono ck"
  shows "(\<forall>a \<in> set (rp_answer rp). an_ip a \<notin> fst ` set log \<longrightarrow>
      (\<exists>e ttl. it_view m' (ip_string (an_ip a)) = Some e \<and> ck 0 + sint ttl \<le> e \<and>
        an_ttl a = ttl_seconds oor ttl)) \<and>
    (\<forall>s. s \<notin> (ip_string \<circ> an_ip) ` set (rp_answer rp) \<longrightarrow> it_view m' s = it_view m s)"
  using iptables.handle_dns_grants [OF assms] iptables.handle_dns_others [OF assms(1)] by blast+

text \<open>
  C36. The lifetime of a fresh resolution lies between the configured bounds; within them it
  is at most 300 seconds and at most the TTL of every A record of the reply.
\<close>

theorem resolved_ttl_bounds:
  assumes "read_reply (Some cfg) nm resp = Inr (ips, ttl)" "sint (gc_min_ttl cfg) \<le> sint (gc_max_ttl cfg)"
  shows "sint (gc_min_ttl cfg) \<le> sint ttl \<and> sint ttl \<le> sint (gc_max_ttl cfg) \<and>
    sint ttl \<le> max (sint (gc_min_ttl cfg)) (300 * 1000000000) \<and>
    (\<forall>t a. A_record t a \<in> set (resp_answer resp) \<longrightarrow>
       sint ttl \<le> max (sint (gc_min_ttl cfg)) (int (unat t) * 1000000000))"
proof -
  let ?m = "snd (answer_scan (resp_answer resp) [] 300)"
  have ttl: "ttl = clamp (gc_min_ttl cfg) (gc_max_ttl cfg) (ucast ?m * second)"
    using assms(1) by (simp add: read_reply_Inr clamp_ttl_def)
  have m: "?m \<le> 300" by (rule answer_scan_min_le)
  note s = sint_ucast_seconds [OF m]
  have le: "sint ttl \<le> max (sint (gc_min_ttl cfg)) (uint ?m * 1000000000)"
    using clamp_le_max [of "gc_min_ttl cfg" "gc_max_ttl cfg" "ucast ?m * second"] ttl s by simp
  have "uint ?m \<le> 300" using m by (simp add: word_le_def)
  then have "sint ttl \<le> max (sint (gc_min_ttl cfg)) (300 * 1000000000)" using le by simp
  moreover have "sint ttl \<le> max (sint (gc_min_ttl cfg)) (int (unat t) * 1000000000)"
    if "A_record t a \<in> set (resp_answer resp)" for t a
    using answer_scan_min_ttl [OF that, of "[]" 300] le by (simp add: word_le_def)
  moreover have "sint (gc_min_ttl cfg) \<le> sint ttl" "sint ttl \<le> sint (gc_max_ttl cfg)"
    using clamp_lower [OF assms(2)] clamp_upper ttl by simp_all
  ultimately show ?thesis by blast
qed

text \<open>
  A reply whose records all live longer than 300 seconds is kept for 300 seconds (or the
  configured minimum, if that is longer): the configured maximum is not reached.
\<close>

theorem long_ttl_cut_to_300:
  assumes "read_reply (Some cfg) nm resp = Inr (ips, ttl)"
    and "\<And>t a. A_record t a \<in> set (resp_answer resp) \<Longrightarrow> 300 \<le> t"
    and "300 * 1000000000 \<le> sint (gc_max_ttl cfg)" "sint (gc_min_ttl cfg) \<le> 300 * 1000000000"
  shows "ttl = 300 * second"
proof -
  let ?m = "snd (answer_scan (resp_answer resp) [] 300)"
  have "?m = 300"
    using answer_scan_min_in [of "resp_answer resp" "[]" 300] assms(2)
      answer_scan_min_le [of "resp_answer resp" "[]" 300] by (metis order_antisym)
  moreover have "sint (ucast (300 :: 32 word) * second :: duration) = 300 * 1000000000"
    using sint_ucast_seconds [of 300] by simp
  ultimately show ?thesis
    using assms by (simp add: read_reply_Inr clamp_ttl_def clamp_id second_def)
qed

section \<open>Witnesses\<close>

definition demo_resp :: dns_resp where
  "demo_resp = \<lparr>resp_rcode = 0, resp_answer = [Other_record, A_record 400 [93, 184, 216, 34]]\<rparr>"

definition demo_exchange :: "string \<Rightarrow> string \<Rightarrow> string + dns_resp" where
  "demo_exchange nm server = Inr demo_resp"

definition demo_query :: "unit dns_query" where
  "demo_query = \<lparr>qy_questions = [\<lparr>q_name = ''example.com.'', q_type = 1\<rparr>], qy_rest = ()\<rparr>"

definition demo_record :: dns_record where
  "demo_record = \<lparr>rec_ips = [demo_ip], rec_ttl = 300 * second, rec_expires = 300 * 1000000000\<rparr>"

definition demo_written :: "unit reply" where
  "demo_written = \<lparr>rp_base = (), rp_rcode = 0,
     rp_answer = [answer_of (\<lambda>_. 0) ''example.com.'' (300 * second) demo_ip]\<rparr>"

lemma demo_reply: "read_reply (Some default_config) nm demo_resp = Inr ([demo_ip], 300 * second)"
proof -
  have "ip_string [93, 184, 216, 34] = ''93.184.216.34''" by code_simp
  moreover have "parse_ip ''93.184.216.34'' = Some demo_ip" by code_simp
  ultimately show ?thesis
    by (simp add: demo_resp_def read_reply_def rcode_success_def clamp_ttl_def default_config_def
        clamp_def second_def)
qed

lemma demo_name: "trim_suffix ''example.com.'' ''.'' = ''example.com''"
  by code_simp

lemma demo_resolved:
  "resolve_with_ttl id demo_exchange (server_resolver default_config) Map.empty ''example.com'' (\<lambda>_. 0) =
   (Inr ([demo_ip], 300 * second), [''example.com'' \<mapsto> demo_record], \<lambda>_. 0)"
  using demo_reply
  by (simp add: resolve_with_ttl_def cache_get_def demo_exchange_def server_resolver_def cache_set_def
      go_defs second_def demo_record_def)

lemma demo_handled:
  assumes "al m (\<lambda>_. 0) demo_ip (300 * second) = (Nil_ret, m1, ck1)"
  shows "handle_dns (\<lambda>_. ()) (\<lambda>_. 0) id demo_exchange al (server_resolver default_config) demo_query
     Map.empty m (\<lambda>_. 0) = (Written demo_written, [], [''example.com'' \<mapsto> demo_record], m1, ck1)"
  using assms
  by (simp add: handle_dns_def demo_query_def demo_name demo_resolved Let_def demo_written_def
      type_a_def rcode_success_def)

lemma demo_iptables_allow:
  "\<exists>m1. it_allow_ttl demo_exec (new_iptables []) (\<lambda>_. 0) demo_ip (300 * second) = (Nil_ret, m1, \<lambda>_. 0)"
  using run_insert [of "''EGRESS_WHITELIST''" demo_exec demo_ip "[]"]
  by (simp add: it_allow_ttl_def new_iptables_def it_insert_store_def insert_argv_def demo_exec_def
      plain_word_def is_space_def go_defs Let_def)

lemma dns_answers_are_resolved_witness:
  "map an_ip (rp_answer demo_written) = List.map_filter a_address (resp_answer demo_resp)"
proof -
  obtain m1 where "it_allow_ttl demo_exec (new_iptables []) (\<lambda>_. 0) demo_ip (300 * second) = (Nil_ret, m1, \<lambda>_. 0)"
    using demo_iptables_allow by blast
  note h = demo_handled [where al = "it_allow_ttl demo_exec", OF this]
  have "rp_answer demo_written \<noteq> []" by (simp add: demo_written_def)
  with dns_answers_are_resolved [OF h] show ?thesis by (auto simp: demo_exchange_def)
qed

lemma dns_answer_whitelisted_iptables_witness:
  "let (out, log, c', m', ck') = handle_dns (\<lambda>_. ()) (\<lambda>_. 0) id demo_exchange (it_allow_ttl demo_exec)
       (server_resolver default_config) demo_query Map.empty (new_iptables []) (\<lambda>_. 0)
   in out = Written demo_written \<and> (\<exists>e. it_view m' (ip_string demo_ip) = Some e)"
proof -
  obtain m1 where "it_allow_ttl demo_exec (new_iptables []) (\<lambda>_. 0) demo_ip (300 * second) = (Nil_ret, m1, \<lambda>_. 0)"
    using demo_iptables_allow by blast
  note h = demo_handled [where al = "it_allow_ttl demo_exec", OF this]
  have a: "answer_of (\<lambda>_. 0) ''example.com.'' (300 * second) demo_ip \<in> set (rp_answer demo_written)"
    by (simp add: demo_written_def)
  have "\<exists>e. it_view m1 (ip_string demo_ip) = Some e"
    using bspec [OF conjunct1 [OF dns_answer_whitelisted_iptables [OF h]] a]
    by (auto simp: mono_def answer_of_def simp del: demo_ip_string)
  with h show ?thesis by (simp del: demo_ip_string)
qed

lemma resolved_ttl_bounds_witness:
  "sint (5 * second) \<le> sint (300 * second :: duration) \<and> sint (300 * second :: duration) \<le> 300 * 1000000000"
  using resolved_ttl_bounds [OF demo_reply]
  by (simp add: default_config_def second_def)

lemma long_ttl_cut_to_300_witness:
  "\<exists>ips ttl. read_reply (Some default_config) ''example.com'' demo_resp = Inr (ips, ttl) \<and> ttl = 300 * second"
  using long_ttl_cut_to_300 [OF demo_reply] demo_reply
  by (auto simp: demo_resp_def default_config_def second_def)

end
