(* ===== verification/Go_Path.thy ===== *)
theory Go_Path
  imports Go_Net
begin

text \<open>What the code uses of Go's \<open>path/filepath\<close>: \<open>Clean\<close>, and \<open>Join\<close> of a directory and a name.\<close>

fun clean_parts :: "bool \<Rightarrow> string list \<Rightarrow> string list \<Rightarrow> string list" where
  "clean_parts rooted acc [] = rev acc"
| "clean_parts rooted acc (p # ps) =
     (if p = [] \<or> p = ''.'' then clean_parts rooted acc ps
      else if p = ''..'' then
        (case acc of
           [] \<Rightarrow> clean_parts rooted (if rooted then [] else [p]) ps
         | a # as \<Rightarrow> clean_parts rooted (if a = ''..'' then p # acc else as) ps)
      else clean_parts rooted (p # acc) ps)"

definition path_clean :: "string \<Rightarrow> string" where
  "path_clean s =
     (let rooted = has_prefix s ''/'';
          body = join ''/'' (clean_parts rooted [] (split_on CHR ''/'' s))
      in if rooted then CHR ''/'' # body else if body = [] then ''.'' else body)"

definition path_join :: "string \<Rightarrow> string \<Rightarrow> string" where
  "path_join d f =
     (let parts = filter (\<lambda>p. p \<noteq> []) [d, f]
      in if parts = [] then [] else path_clean (join ''/'' parts))"

end
