(* ===== verification/Ebpf_Manager.thy ===== *)
theory Ebpf_Manager
  imports Firewall_Contract Gateway_Config Go_Path
begin

text \<open>
  \<open>ebpf.Manager\<close> of \<open>ebpf/manager.go\<close>. The library \<open>github.com/cilium/ebpf\<close>, the file
  system and the kernel are not part of the repository: they are the record \<open>bpf_api\<close> of
  operations on an abstract kernel state \<open>'k\<close>, in which programs, maps and links are known by
  number, as the library's handles are. The manager's own state is \<open>ebpf_manager\<close>;
  \<open>em_kernel\<close> is the kernel the handles refer to.
\<close>

type_synonym ip_key = "64 word \<times> 64 word"

datatype bpf_value = Entry_value "64 word" | Byte_value "8 word"

record 'k bpf_api =
  stat_missing :: "string \<Rightarrow> bool"
  load_collection :: "string \<Rightarrow> 'k \<Rightarrow> (string + (string \<times> nat) list \<times> (string \<times> nat) list) \<times> 'k"
  interface_by_name :: "string \<Rightarrow> string + nat"
  attach_xdp :: "nat \<Rightarrow> nat \<Rightarrow> 'k \<Rightarrow> (string + nat) \<times> 'k"
  map_put :: "nat \<Rightarrow> ip_key \<Rightarrow> bpf_value \<Rightarrow> 'k \<Rightarrow> string option \<times> 'k"
  map_delete :: "nat \<Rightarrow> ip_key \<Rightarrow> 'k \<Rightarrow> 'k"
  link_close :: "nat \<Rightarrow> 'k \<Rightarrow> 'k"
  collection_close :: "string \<Rightarrow> 'k \<Rightarrow> 'k"

record ebpf_config =
  ec_interface :: string
  ec_programs_path :: string
  ec_default_ttl :: duration
  ec_min_ttl :: duration
  ec_max_ttl :: duration
  ec_dns_servers :: "string list"

record 'k ebpf_manager =
  em_collection :: "string option"
  em_programs :: "string \<rightharpoonup> nat"
  em_links :: "nat list"
  em_maps :: "string \<rightharpoonup> nat"
  em_interface :: string
  em_stop_closed :: bool
  em_closed :: bool
  em_config :: ebpf_config
  em_kernel :: 'k

definition ebpf_default_config :: ebpf_config where
  "ebpf_default_config =
     \<lparr>ec_interface = ''eth0'', ec_programs_path = ''./ebpf/compiled'', ec_default_ttl = 300 * second,
      ec_min_ttl = 5 * second, ec_max_ttl = 24 * 3600 * second, ec_dns_servers = []\<rparr>"

text \<open>\<open>NewManager\<close>; \<open>memlock\<close> is the answer of \<open>rlimit.RemoveMemlock\<close>.\<close>

definition new_manager :: "string option \<Rightarrow> ebpf_config \<Rightarrow> 'k \<Rightarrow> fw_error + 'k ebpf_manager" where
  "new_manager memlock cfg k =
     (case memlock of
        Some e \<Rightarrow> Inl (Setup_failed ''failed to remove memlock'' e)
      | None \<Rightarrow> Inr \<lparr>em_collection = None, em_programs = Map.empty, em_links = [], em_maps = Map.empty,
           em_interface = ec_interface cfg, em_stop_closed = False, em_closed = False,
           em_config = cfg, em_kernel = k\<rparr>)"

section \<open>Keys\<close>

text \<open>
  The 128-bit key of an address, the block repeated in four operations. An address that is
  neither 4 nor 16 bytes long has no 16-byte form, and slicing it panics.
\<close>

definition ip_key_of :: "ip \<Rightarrow> ip_key option" where
  "ip_key_of ip =
     (case to4 ip of
        Some ip4 \<Rightarrow> Some (0, ucast (be_word ip4 :: 32 word))
      | None \<Rightarrow>
          (case to16 ip of
             Some ip16 \<Rightarrow> Some (be_word (take 8 ip16), be_word (drop 8 ip16))
           | None \<Rightarrow> None))"

definition slice_panic :: string where
  "slice_panic = ''slice bounds out of range''"

section \<open>The maps\<close>

definition em_allow_ttl ::
  "'k bpf_api \<Rightarrow> 'k ebpf_manager \<Rightarrow> clock \<Rightarrow> ip \<Rightarrow> duration \<Rightarrow> fw_error ret \<times> 'k ebpf_manager \<times> clock" where
  "em_allow_ttl api m ck ip ttl =
     (if em_closed m then (Err Manager_closed, m, ck)
      else case em_maps m ''ip_whitelist'' of
        None \<Rightarrow> (Err (Map_not_found ''ip_whitelist''), m, ck)
      | Some h \<Rightarrow>
          (case ip_key_of ip of
             None \<Rightarrow> (Panic slice_panic, m, ck)
           | Some k \<Rightarrow>
               (let (t, ck1) = now ck;
                    expires_at = word_of_int t + ttl
                in case map_put api h k (Entry_value expires_at) (em_kernel m) of
                     (Some e, kn) \<Rightarrow> (Err (Store_failed e), m\<lparr>em_kernel := kn\<rparr>, ck1)
                   | (None, kn) \<Rightarrow> (Nil_ret, m\<lparr>em_kernel := kn\<rparr>, ck1))))"

definition em_allow ::
  "'k bpf_api \<Rightarrow> 'k ebpf_manager \<Rightarrow> clock \<Rightarrow> ip \<Rightarrow> fw_error ret \<times> 'k ebpf_manager \<times> clock" where
  "em_allow api m ck ip = em_allow_ttl api m ck ip (ec_default_ttl (em_config m))"

definition em_remove :: "'k bpf_api \<Rightarrow> 'k ebpf_manager \<Rightarrow> ip \<Rightarrow> fw_error ret \<times> 'k ebpf_manager" where
  "em_remove api m ip =
     (if em_closed m then (Err Manager_closed, m)
      else case em_maps m ''ip_whitelist'' of
        None \<Rightarrow> (Err (Map_not_found ''ip_whitelist''), m)
      | Some h \<Rightarrow>
          (case ip_key_of ip of
             None \<Rightarrow> (Panic slice_panic, m)
           | Some k \<Rightarrow> (Nil_ret, m\<lparr>em_kernel := map_delete api h k (em_kernel m)\<rparr>)))"

definition em_allow_dns_server :: "'k bpf_api \<Rightarrow> 'k ebpf_manager \<Rightarrow> ip \<Rightarrow> fw_error ret \<times> 'k ebpf_manager" where
  "em_allow_dns_server api m ip =
     (if em_closed m then (Err Manager_closed, m)
      else case em_maps m ''allowed_dns_servers'' of
        None \<Rightarrow> (Err (Map_not_found ''allowed_dns_servers''), m)
      | Some h \<Rightarrow>
          (case ip_key_of ip of
             None \<Rightarrow> (Panic slice_panic, m)
           | Some k \<Rightarrow>
               (case map_put api h k (Byte_value 1) (em_kernel m) of
                  (Some e, kn) \<Rightarrow> (Err (Store_failed e), m\<lparr>em_kernel := kn\<rparr>)
                | (None, kn) \<Rightarrow> (Nil_ret, m\<lparr>em_kernel := kn\<rparr>))))"

definition em_remove_dns_server :: "'k bpf_api \<Rightarrow> 'k ebpf_manager \<Rightarrow> ip \<Rightarrow> fw_error ret \<times> 'k ebpf_manager" where
  "em_remove_dns_server api m ip =
     (if em_closed m then (Err Manager_closed, m)
      else case em_maps m ''allowed_dns_servers'' of
        None \<Rightarrow> (Err (Map_not_found ''allowed_dns_servers''), m)
      | Some h \<Rightarrow>
          (case ip_key_of ip of
             None \<Rightarrow> (Panic slice_panic, m)
           | Some k \<Rightarrow> (Nil_ret, m\<lparr>em_kernel := map_delete api h k (em_kernel m)\<rparr>)))"

definition em_cleanup_expired :: "'k ebpf_manager \<Rightarrow> clock \<Rightarrow> fw_error ret \<times> 'k ebpf_manager \<times> clock" where
  "em_cleanup_expired m ck = (Nil_ret, m, ck)"

definition em_cleanup :: "'k bpf_api \<Rightarrow> 'k ebpf_manager \<Rightarrow> fw_error ret \<times> 'k ebpf_manager" where
  "em_cleanup api m =
     (if em_closed m then (Nil_ret, m)
      else if em_stop_closed m then (Panic ''close of closed channel'', m\<lparr>em_closed := True\<rparr>)
      else
        (let k1 = fold (link_close api) (em_links m) (em_kernel m);
             k2 = (case em_collection m of None \<Rightarrow> k1 | Some c \<Rightarrow> collection_close api c k1)
         in (Nil_ret, m\<lparr>em_closed := True, em_stop_closed := True, em_links := [],
                       em_collection := None, em_kernel := k2\<rparr>)))"

definition em_close :: "'k bpf_api \<Rightarrow> 'k ebpf_manager \<Rightarrow> fw_error ret \<times> 'k ebpf_manager" where
  "em_close api m = em_cleanup api m"

section \<open>Setup\<close>

text \<open>\<open>Setup\<close> up to the network interface: the files are there, both collections load.\<close>

definition em_load_one ::
  "'k bpf_api \<Rightarrow> string \<Rightarrow> string \<Rightarrow> 'k ebpf_manager \<Rightarrow> fw_error ret \<times> 'k ebpf_manager" where
  "em_load_one api path what m =
     (case load_collection api path (em_kernel m) of
        (Inl e, k) \<Rightarrow> (Err (Setup_failed what e), m\<lparr>em_kernel := k\<rparr>)
      | (Inr (progs, maps), k) \<Rightarrow>
          (Nil_ret, m\<lparr>em_kernel := k, em_programs := em_programs m ++ map_of progs,
                      em_maps := em_maps m ++ map_of maps\<rparr>))"

definition em_load :: "'k bpf_api \<Rightarrow> 'k ebpf_manager \<Rightarrow> fw_error ret \<times> 'k ebpf_manager" where
  "em_load api m =
     (let dns_path = path_join (ec_programs_path (em_config m)) ''dns_intercept.o'';
          conn_path = path_join (ec_programs_path (em_config m)) ''conn_filter.o''
      in if stat_missing api dns_path then
           (Err (Setup_failed ''DNS intercept program not found'' dns_path), m)
         else if stat_missing api conn_path then
           (Err (Setup_failed ''Connection filter program not found'' conn_path), m)
         else case em_load_one api dns_path ''failed to load DNS intercept'' m of
           (Nil_ret, m1) \<Rightarrow>
             (case em_load_one api conn_path ''failed to load connection filter'' m1 of
                (Nil_ret, m2) \<Rightarrow> (Nil_ret, m2\<lparr>em_collection := Some dns_path\<rparr>)
              | (r, m2) \<Rightarrow> (r, m2))
         | (r, m1) \<Rightarrow> (r, m1))"

text \<open>
  The program to attach: \<open>xdp_dns\<close>, or any program if there is none of that name. The
  \<open>range\<close> over the programs stops at the first one, \<open>order\<close> being the order of visits.
\<close>

definition em_dns_program :: "string list \<Rightarrow> 'k ebpf_manager \<Rightarrow> nat option" where
  "em_dns_program order m =
     (case em_programs m ''xdp_dns'' of
        Some p \<Rightarrow> Some p
      | None \<Rightarrow> (case order of [] \<Rightarrow> None | s # _ \<Rightarrow> em_programs m s))"

definition em_conn_program :: "'k ebpf_manager \<Rightarrow> nat option" where
  "em_conn_program m =
     (case em_programs m ''xdp_filter'' of
        Some p \<Rightarrow> Some p
      | None \<Rightarrow>
          (case em_programs m ''conn_filter'' of
             Some p \<Rightarrow> Some p
           | None \<Rightarrow> em_programs m ''socket_filter''))"

definition em_attach_conn :: "'k bpf_api \<Rightarrow> nat \<Rightarrow> nat \<Rightarrow> 'k ebpf_manager \<Rightarrow> 'k ebpf_manager" where
  "em_attach_conn api dns_prog iface m =
     (case em_conn_program m of
        None \<Rightarrow> m
      | Some p \<Rightarrow>
          if p = dns_prog then m
          else (case attach_xdp api p iface (em_kernel m) of
                  (Inl e, k) \<Rightarrow> m\<lparr>em_kernel := k\<rparr>
                | (Inr l, k) \<Rightarrow> m\<lparr>em_kernel := k, em_links := em_links m @ [l]\<rparr>))"

fun em_allow_servers :: "'k bpf_api \<Rightarrow> string list \<Rightarrow> 'k ebpf_manager \<Rightarrow> fw_error ret \<times> 'k ebpf_manager" where
  "em_allow_servers api [] m = (Nil_ret, m)"
| "em_allow_servers api (s # ss) m =
     (case parse_ip s of
        None \<Rightarrow> em_allow_servers api ss m
      | Some ip \<Rightarrow>
          (case em_allow_dns_server api m ip of
             (Panic p, m1) \<Rightarrow> (Panic p, m1)
           | (_, m1) \<Rightarrow> em_allow_servers api ss m1))"

definition em_setup :: "'k bpf_api \<Rightarrow> string list \<Rightarrow> 'k ebpf_manager \<Rightarrow> fw_error ret \<times> 'k ebpf_manager" where
  "em_setup api order m =
     (case em_load api m of
        (Nil_ret, m1) \<Rightarrow>
          (case interface_by_name api (em_interface m1) of
             Inl e \<Rightarrow> (Err (Setup_failed ''failed to get interface'' e), m1)
           | Inr iface \<Rightarrow>
               (case em_dns_program order m1 of
                  None \<Rightarrow> (Err (Setup_failed ''no DNS program found'' []), m1)
                | Some p \<Rightarrow>
                    (case attach_xdp api p iface (em_kernel m1) of
                       (Inl e, k) \<Rightarrow> (Err (Setup_failed ''failed to attach XDP'' e), m1\<lparr>em_kernel := k\<rparr>)
                     | (Inr l, k) \<Rightarrow>
                         (let m2 = m1\<lparr>em_kernel := k, em_links := em_links m1 @ [l]\<rparr>;
                              m3 = em_attach_conn api p iface m2
                          in em_allow_servers api (ec_dns_servers (em_config m3)) m3))))
      | (r, m1) \<Rightarrow> (r, m1))"

section \<open>The contract of the maps\<close>

text \<open>
  What the manager relies on in a map of the library: a \<open>Put\<close> that succeeds is what a lookup
  finds, a \<open>Put\<close> that fails changes nothing, and neither touches another key or map. \<open>look\<close>
  is the lookup of the kernel, which the manager itself never calls.
\<close>

locale bpf_maps =
  fixes api :: "'k bpf_api"
    and look :: "nat \<Rightarrow> ip_key \<Rightarrow> 'k \<Rightarrow> bpf_value option"
  assumes put_found: "map_put api h k v kn = (None, kn') \<Longrightarrow> look h k kn' = Some v"
    and put_other: "map_put api h k v kn = (r, kn') \<Longrightarrow> (i, j) \<noteq> (h, k) \<Longrightarrow> look i j kn' = look i j kn"
    and put_error: "map_put api h k v kn = (Some e, kn') \<Longrightarrow> look i j kn' = look i j kn"
    and delete_gone: "look h k (map_delete api h k kn) = None"
    and delete_other: "(i, j) \<noteq> (h, k) \<Longrightarrow> look i j (map_delete api h k kn) = look i j kn"

definition em_view :: "(nat \<Rightarrow> ip_key \<Rightarrow> 'k \<Rightarrow> bpf_value option) \<Rightarrow> 'k ebpf_manager \<Rightarrow> ip_key \<Rightarrow> time option" where
  "em_view look m k =
     (case em_maps m ''ip_whitelist'' of
        None \<Rightarrow> None
      | Some h \<Rightarrow>
          (case look h k (em_kernel m) of
             Some (Entry_value e) \<Rightarrow> Some (uint e)
           | _ \<Rightarrow> None))"

definition ebpf_key :: "ip \<Rightarrow> ip_key" where
  "ebpf_key ip = (case ip_key_of ip of Some k \<Rightarrow> k | None \<Rightarrow> (0, 0))"

text \<open>The expiry is representable as the unsigned 64-bit number the map holds.\<close>

definition ebpf_fits :: "clock \<Rightarrow> ip \<Rightarrow> duration \<Rightarrow> bool" where
  "ebpf_fits ck ip d \<longleftrightarrow> (\<forall>n. 0 \<le> ck n + sint d \<and> ck n + sint d < 2 ^ 64)"

lemma expires_word:
  assumes "0 \<le> t + sint d" "t + sint d < 2 ^ 64"
  shows "uint (word_of_int t + d :: duration) = t + sint d"
proof -
  have "word_of_int t + d = (word_of_int (t + sint d) :: duration)" by simp
  moreover have "uint (word_of_int (t + sint d) :: duration) = take_bit 64 (t + sint d)"
    by (simp only: uint_word_of_int_eq) simp
  ultimately show ?thesis using assms by (simp add: take_bit_int_eq_self del: of_int_add)
qed

text \<open>The outcomes of \<open>AllowIPWithTTL\<close>.\<close>

lemma em_allow_cases:
  assumes "em_allow_ttl api m ck ip ttl = (r, m', ck')"
  obtains (refused) "r \<noteq> Nil_ret" "m' = m" "ck' = ck"
    | (failed) h k e kn where "em_maps m ''ip_whitelist'' = Some h" "ip_key_of ip = Some k"
      "map_put api h k (Entry_value (word_of_int (ck 0) + ttl)) (em_kernel m) = (Some e, kn)"
      "r = Err (Store_failed e)" "m' = m\<lparr>em_kernel := kn\<rparr>" "ck' = (\<lambda>n. ck (Suc n))"
    | (stored) h k kn where "em_maps m ''ip_whitelist'' = Some h" "ip_key_of ip = Some k" "\<not> em_closed m"
      "map_put api h k (Entry_value (word_of_int (ck 0) + ttl)) (em_kernel m) = (None, kn)"
      "r = Nil_ret" "m' = m\<lparr>em_kernel := kn\<rparr>" "ck' = (\<lambda>n. ck (Suc n))"
proof (cases "em_closed m")
  case True
  show ?thesis by (rule refused) (use assms True in \<open>auto simp: em_allow_ttl_def\<close>)
next
  case open_m: False
  show ?thesis
  proof (cases "em_maps m ''ip_whitelist''")
    case None
    show ?thesis by (rule refused) (use assms open_m None in \<open>auto simp: em_allow_ttl_def\<close>)
  next
    case h: (Some h)
    show ?thesis
    proof (cases "ip_key_of ip")
      case None
      show ?thesis by (rule refused) (use assms open_m h None in \<open>auto simp: em_allow_ttl_def\<close>)
    next
      case k: (Some k)
      let ?v = "Entry_value (word_of_int (ck 0) + ttl)"
      obtain x kn where put: "map_put api h k ?v (em_kernel m) = (x, kn)" by fastforce
      show ?thesis
      proof (cases x)
        case None
        show ?thesis
          by (rule stored [OF h k open_m put [unfolded None]])
            (use assms open_m h k put None in \<open>simp_all add: em_allow_ttl_def now_def\<close>)
      next
        case (Some e)
        show ?thesis
          by (rule failed [OF h k put [unfolded Some]])
            (use assms open_m h k put Some in \<open>simp_all add: em_allow_ttl_def now_def\<close>)
      qed
    qed
  qed
qed

context bpf_maps
begin

lemma allow_view_error:
  assumes "em_allow_ttl api m ck ip ttl = (r, m', ck')" "r \<noteq> Nil_ret"
  shows "em_view look m' = em_view look m"
  using assms
proof (cases rule: em_allow_cases)
  case (failed h k e kn)
  then show ?thesis using put_error [OF failed(3)] by (simp add: em_view_def fun_eq_iff)
qed simp_all

lemma allow_view_stored:
  assumes "em_allow_ttl api m ck ip ttl = (Nil_ret, m', ck')" "ebpf_fits ck ip ttl"
  shows "em_view look m' = (em_view look m)(ebpf_key ip \<mapsto> ck 0 + sint ttl)"
    and "ck' = (\<lambda>n. ck (Suc n))"
proof -
  have x: "uint (word_of_int (ck 0) + ttl) = ck 0 + sint ttl"
    using expires_word [of "ck 0" ttl] assms(2) by (simp add: ebpf_fits_def)
  from assms(1) show "em_view look m' = (em_view look m)(ebpf_key ip \<mapsto> ck 0 + sint ttl)"
  proof (cases rule: em_allow_cases)
    case (stored h k kn)
    have "em_view look m' j = ((em_view look m)(ebpf_key ip \<mapsto> ck 0 + sint ttl)) j" for j
      using put_found [OF stored(4)] put_other [OF stored(4), of h j] stored(1,2,6) x
      by (cases "j = k") (simp_all add: em_view_def ebpf_key_def)
    then show ?thesis by blast
  qed simp_all
  from assms(1) show "ck' = (\<lambda>n. ck (Suc n))"
    by (cases rule: em_allow_cases) simp_all
qed

lemma remove_view:
  assumes "em_remove api m ip = (Nil_ret, m')"
  shows "em_view look m' = (em_view look m)(ebpf_key ip := None)"
proof -
  obtain h k where h: "em_maps m ''ip_whitelist'' = Some h" "ip_key_of ip = Some k"
    and m': "m' = m\<lparr>em_kernel := map_delete api h k (em_kernel m)\<rparr>"
    using assms by (auto simp: em_remove_def split: if_splits option.splits)
  have "em_view look m' j = ((em_view look m)(ebpf_key ip := None)) j" for j
    using delete_gone [of h k "em_kernel m"] delete_other [of h j h k "em_kernel m"] h m'
    by (cases "j = k") (simp_all add: em_view_def ebpf_key_def)
  then show ?thesis by blast
qed

end

sublocale bpf_maps \<subseteq> firewall "em_allow_ttl api" "em_remove api" em_cleanup_expired
    "em_view look" ebpf_key ebpf_fits
proof (unfold_locales, goal_cases)
  case (1 m ck ip d r m' ck')
  then show ?case by (cases rule: em_allow_cases) auto
next
  case (2 ck ip d m m' ck')
  then show ?case using allow_view_stored(1) [OF 2(3,2)] by simp
next
  case (3 ck ip d m r m' ck' k)
  then show ?case
    using allow_view_stored(1) [OF _ 3(1)] allow_view_error [OF 3(2)] by (cases "r = Nil_ret") auto
next
  case (4 ck ip d m r m' ck' e)
  have "ck 0 \<le> ck 1" using mono_reads [OF 4(1)] by simp
  with 4 show ?case
    using allow_view_stored [of m ck ip d m' ck'] allow_view_error [OF 4(3)]
    by (cases "r = Nil_ret") auto
next
  case (5 r m ck ip d m' ck')
  then show ?case using allow_view_error by blast
next
  case (6 m ip m')
  then show ?case by (rule remove_view)
next
  case (10 ck ip d ck')
  then show ?case by (auto simp: ebpf_fits_def later_def)
qed (auto simp: em_cleanup_expired_def)

end
