(* ===== verification/Bpf_Kernel.thy ===== *)
theory Bpf_Kernel
  imports Ebpf_Manager
begin

text \<open>
  The kernel side of \<open>ebpf/manager.go\<close>, for the objects \<open>ebpf/include/common.h\<close> declares:
  two hash maps with their \<open>max_entries\<close>, loaded afresh with every collection, and the
  exclusive XDP hook of an interface. It instantiates the operations of \<open>bpf_api\<close> as the
  kernel documents them for \<open>BPF_MAP_TYPE_HASH\<close> (an update of a full map fails) and for an XDP
  link (a second one on the same interface is refused), so that the manager's contract can be
  discharged and whole runs can be evaluated. Which programs an object file holds is the
  argument \<open>catalog\<close>.
\<close>

record hash_map =
  hm_max :: nat
  hm_entries :: "(ip_key \<times> bpf_value) list"

text \<open>Maps and programs are numbered by position; a program knows the whitelist it reads.\<close>

record hash_kernel =
  hk_maps :: "hash_map list"
  hk_programs :: "nat list"
  hk_xdp :: "(nat \<times> nat) list"

definition empty_kernel :: hash_kernel where
  "empty_kernel = \<lparr>hk_maps = [], hk_programs = [], hk_xdp = []\<rparr>"

definition declared_maps :: "(string \<times> hash_map) list" where
  "declared_maps =
     [(''ip_whitelist'', \<lparr>hm_max = 65535, hm_entries = []\<rparr>),
      (''allowed_dns_servers'', \<lparr>hm_max = 10, hm_entries = []\<rparr>)]"

definition hash_update :: "ip_key \<Rightarrow> bpf_value \<Rightarrow> hash_map \<Rightarrow> hash_map option" where
  "hash_update k v m =
     (if map_of (hm_entries m) k = None \<and> hm_max m \<le> length (hm_entries m) then None
      else Some (m\<lparr>hm_entries := (k, v) # filter (\<lambda>p. fst p \<noteq> k) (hm_entries m)\<rparr>))"

definition hash_put :: "nat \<Rightarrow> ip_key \<Rightarrow> bpf_value \<Rightarrow> hash_kernel \<Rightarrow> string option \<times> hash_kernel" where
  "hash_put h k v kn =
     (if length (hk_maps kn) \<le> h then (Some ''bad file descriptor'', kn)
      else case hash_update k v (hk_maps kn ! h) of
        None \<Rightarrow> (Some ''argument list too long'', kn)
      | Some m \<Rightarrow> (None, kn\<lparr>hk_maps := (hk_maps kn)[h := m]\<rparr>))"

definition hash_delete :: "nat \<Rightarrow> ip_key \<Rightarrow> hash_kernel \<Rightarrow> hash_kernel" where
  "hash_delete h k kn =
     (if length (hk_maps kn) \<le> h then kn
      else let m = hk_maps kn ! h
           in kn\<lparr>hk_maps := (hk_maps kn)[h := m\<lparr>hm_entries := filter (\<lambda>p. fst p \<noteq> k) (hm_entries m)\<rparr>]\<rparr>)"

definition hash_look :: "nat \<Rightarrow> ip_key \<Rightarrow> hash_kernel \<Rightarrow> bpf_value option" where
  "hash_look h k kn =
     (if length (hk_maps kn) \<le> h then None else map_of (hm_entries (hk_maps kn ! h)) k)"

definition hash_load :: "(string \<Rightarrow> string list option) \<Rightarrow> string \<Rightarrow> hash_kernel \<Rightarrow>
    (string + (string \<times> nat) list \<times> (string \<times> nat) list) \<times> hash_kernel" where
  "hash_load catalog path kn =
     (case catalog path of
        None \<Rightarrow> (Inl ''no such file or directory'', kn)
      | Some names \<Rightarrow>
          (let n = length (hk_maps kn); p = length (hk_programs kn)
           in (Inr (zip names [p ..< p + length names],
                    zip (map fst declared_maps) [n ..< n + length declared_maps]),
               kn\<lparr>hk_maps := hk_maps kn @ map snd declared_maps,
                  hk_programs := hk_programs kn @ replicate (length names) n\<rparr>)))"

definition hash_attach :: "nat \<Rightarrow> nat \<Rightarrow> hash_kernel \<Rightarrow> (string + nat) \<times> hash_kernel" where
  "hash_attach p iface kn =
     (if map_of (hk_xdp kn) iface \<noteq> None then (Inl ''device or resource busy'', kn)
      else (Inr iface, kn\<lparr>hk_xdp := (iface, p) # hk_xdp kn\<rparr>))"

definition hash_api :: "(string \<Rightarrow> string list option) \<Rightarrow> (string \<Rightarrow> string + nat) \<Rightarrow> hash_kernel bpf_api" where
  "hash_api catalog ifaces =
     \<lparr>stat_missing = (\<lambda>path. catalog path = None),
      load_collection = hash_load catalog,
      interface_by_name = ifaces,
      attach_xdp = hash_attach,
      map_put = hash_put,
      map_delete = hash_delete,
      link_close = (\<lambda>l kn. kn\<lparr>hk_xdp := filter (\<lambda>p. fst p \<noteq> l) (hk_xdp kn)\<rparr>),
      collection_close = (\<lambda>_ kn. kn)\<rparr>"

lemma hash_look_xdp [simp]: "hash_look h j (kn\<lparr>hk_xdp := x\<rparr>) = hash_look h j kn"
  by (simp add: hash_look_def)

lemma map_of_filter_ne: "map_of (filter (\<lambda>p. fst p \<noteq> k) xs) j = (if j = k then None else map_of xs j)"
  by (induction xs) auto

interpretation hash: bpf_maps "hash_api catalog ifaces" hash_look for catalog ifaces
proof (unfold_locales, goal_cases)
  case (1 h k v kn kn')
  then show ?case
    by (auto simp: hash_api_def hash_put_def hash_look_def hash_update_def split: if_splits option.splits)
next
  case (2 h k v kn r kn' i j)
  then show ?case
    by (cases "i = h")
      (auto simp: hash_api_def hash_put_def hash_look_def hash_update_def map_of_filter_ne
        split: if_splits option.splits)
next
  case (3 h k v kn e kn' i j)
  then show ?case
    by (auto simp: hash_api_def hash_put_def split: if_splits option.splits)
next
  case (4 h k kn)
  then show ?case
    by (auto simp: hash_api_def hash_delete_def hash_look_def map_of_filter_ne Let_def)
next
  case (5 i j h k kn)
  then show ?case
    by (cases "i = h") (auto simp: hash_api_def hash_delete_def hash_look_def map_of_filter_ne Let_def)
qed

text \<open>
  The whitelist a packet leaving through an interface is checked against: the one of the
  program attached to it.
\<close>

definition enforced :: "nat \<Rightarrow> ip_key \<Rightarrow> hash_kernel \<Rightarrow> bpf_value option" where
  "enforced iface k kn =
     (case map_of (hk_xdp kn) iface of
        None \<Rightarrow> None
      | Some p \<Rightarrow> hash_look (hk_programs kn ! p) k kn)"

lemma hash_put_frame:
  assumes "hash_put h k v kn = (r, kn')"
  shows "hk_xdp kn' = hk_xdp kn" "hk_programs kn' = hk_programs kn"
    "i \<noteq> h \<Longrightarrow> hash_look i j kn' = hash_look i j kn"
  using assms by (auto simp: hash_put_def hash_look_def split: if_splits option.splits)

lemma enforced_put:
  assumes "hash_put h k v kn = (r, kn')" "\<forall>p. map_of (hk_xdp kn) iface = Some p \<longrightarrow> hk_programs kn ! p \<noteq> h"
  shows "enforced iface j kn' = enforced iface j kn"
  using assms(2) hash_put_frame [OF assms(1)] by (auto simp: enforced_def split: option.splits)

text \<open>Writing the list of DNS servers changes neither the hooks nor the whitelists.\<close>

lemma allow_server_frame:
  assumes "em_allow_dns_server (hash_api catalog ifaces) m ip = (r, m')"
    and "em_maps m ''allowed_dns_servers'' = Some d"
  shows "em_maps m' = em_maps m \<and> hk_xdp (em_kernel m') = hk_xdp (em_kernel m) \<and>
    hk_programs (em_kernel m') = hk_programs (em_kernel m) \<and>
    (\<forall>i j. i \<noteq> d \<longrightarrow> hash_look i j (em_kernel m') = hash_look i j (em_kernel m))"
  using assms hash_put_frame
  by (auto simp: em_allow_dns_server_def hash_api_def split: if_splits option.splits prod.splits)

lemma allow_servers_frame:
  assumes "em_allow_servers (hash_api catalog ifaces) ss m = (r, m')"
    and "em_maps m ''allowed_dns_servers'' = Some d"
  shows "em_maps m' = em_maps m \<and> hk_xdp (em_kernel m') = hk_xdp (em_kernel m) \<and>
    hk_programs (em_kernel m') = hk_programs (em_kernel m) \<and>
    (\<forall>i j. i \<noteq> d \<longrightarrow> hash_look i j (em_kernel m') = hash_look i j (em_kernel m))"
  using assms
proof (induction ss arbitrary: m)
  case (Cons s ss)
  show ?case
  proof (cases "parse_ip s")
    case None
    with Cons show ?thesis by simp
  next
    case (Some ip)
    obtain r1 m1 where one: "em_allow_dns_server (hash_api catalog ifaces) m ip = (r1, m1)" by fastforce
    note f = allow_server_frame [OF one Cons.prems(2)]
    show ?thesis
    proof (cases "\<exists>p. r1 = Panic p")
      case True
      with Cons.prems(1) Some one have "m' = m1" by auto
      with f show ?thesis by simp
    next
      case False
      with Cons.prems(1) Some one have "em_allow_servers (hash_api catalog ifaces) ss m1 = (r, m')"
        by (cases r1) auto
      with Cons.IH [of m1] f Cons.prems(2) show ?thesis by simp
    qed
  qed
qed simp

lemma allow_server_keeps:
  assumes "em_allow_dns_server (hash_api catalog ifaces) m ip = (r, m')"
  shows "em_interface m' = em_interface m \<and> em_config m' = em_config m \<and>
    hk_xdp (em_kernel m') = hk_xdp (em_kernel m)"
  using assms hash_put_frame
  by (auto simp: em_allow_dns_server_def hash_api_def split: if_splits option.splits prod.splits)

lemma allow_servers_keeps:
  assumes "em_allow_servers (hash_api catalog ifaces) ss m = (r, m')"
  shows "em_interface m' = em_interface m \<and> em_config m' = em_config m \<and>
    hk_xdp (em_kernel m') = hk_xdp (em_kernel m)"
  using assms
proof (induction ss arbitrary: m)
  case (Cons s ss)
  show ?case
  proof (cases "parse_ip s")
    case None
    with Cons show ?thesis by simp
  next
    case (Some ip)
    obtain r1 m1 where one: "em_allow_dns_server (hash_api catalog ifaces) m ip = (r1, m1)" by fastforce
    with Cons Some show ?thesis using allow_server_keeps [OF one] by (cases r1) auto
  qed
qed simp

text \<open>Loading both object files into a kernel: the handles the manager keeps are the second file's.\<close>

lemma load_fresh:
  assumes "new_manager None cfg empty_kernel = Inr m"
    and "catalog (path_join (ec_programs_path cfg) ''dns_intercept.o'') = Some ds"
    and "catalog (path_join (ec_programs_path cfg) ''conn_filter.o'') = Some cs"
  obtains m1 where "em_load (hash_api catalog ifaces) m = (Nil_ret, m1)"
    "em_maps m1 ''ip_whitelist'' = Some 2" "em_maps m1 ''allowed_dns_servers'' = Some 3"
    "em_programs m1 = map_of (zip ds [0 ..< length ds]) ++ map_of (zip cs [length ds ..< length ds + length cs])"
    "hk_programs (em_kernel m1) = replicate (length ds) 0 @ replicate (length cs) 2"
    "hk_xdp (em_kernel m1) = []" "em_interface m1 = ec_interface cfg"
    "\<And>h j. hash_look h j (em_kernel m1) = None" "em_config m1 = cfg" "em_links m1 = []"
proof -
  let ?m1 = "snd (em_load (hash_api catalog ifaces) m)"
  have m: "m = \<lparr>em_collection = None, em_programs = Map.empty, em_links = [], em_maps = Map.empty,
      em_interface = ec_interface cfg, em_stop_closed = False, em_closed = False,
      em_config = cfg, em_kernel = empty_kernel\<rparr>"
    using assms(1) by (simp add: new_manager_def)
  have maps: "hk_maps (em_kernel ?m1) = map snd declared_maps @ map snd declared_maps"
    using assms(2,3)
    by (simp add: m em_load_def em_load_one_def hash_api_def hash_load_def empty_kernel_def
        declared_maps_def Let_def)
  have look: "hash_look h j (em_kernel ?m1) = None" for h j
    unfolding hash_look_def maps by (auto simp: declared_maps_def nth_Cons split: nat.splits)
  show ?thesis
    by (rule that [of ?m1]; (rule look)?)
      (use assms(2,3) in \<open>simp_all add: m em_load_def em_load_one_def hash_api_def hash_load_def
        empty_kernel_def declared_maps_def Let_def\<close>)
qed

lemma map_of_zip_upt:
  assumes "x \<in> set xs"
  obtains p where "map_of (zip xs [n ..< n + length xs]) x = Some p" "n \<le> p" "p < n + length xs"
proof -
  have "map_of (zip xs [n ..< n + length xs]) x \<noteq> None"
    using assms by (simp add: map_of_zip_is_None)
  then obtain p where "map_of (zip xs [n ..< n + length xs]) x = Some p" by blast
  moreover have "n \<le> p \<and> p < n + length xs"
    using map_of_SomeD [OF calculation] by (auto dest: set_zip_rightD)
  ultimately show ?thesis using that by blast
qed

text \<open>The attachment of the connection filter to a hook that is taken fails and changes nothing.\<close>

lemma attach_conn_taken:
  assumes "map_of (hk_xdp (em_kernel m)) iface \<noteq> None"
  shows "em_attach_conn (hash_api catalog ifaces) p iface m = m"
  using assms by (auto simp: em_attach_conn_def hash_api_def hash_attach_def split: option.splits)

lemma setup_hook:
  assumes "em_setup (hash_api catalog ifaces) order m = (Nil_ret, m')"
  obtains i where "ifaces (em_interface m) = Inr i" "map_of (hk_xdp (em_kernel m')) i \<noteq> None"
    "em_interface m' = em_interface m" "em_config m' = em_config m"
proof -
  let ?api = "hash_api catalog ifaces"
  obtain m1 where l: "em_load ?api m = (Nil_ret, m1)"
    using assms by (auto simp: em_setup_def split: prod.splits ret.splits)
  have l1: "em_interface m1 = em_interface m" "em_config m1 = em_config m"
    using l by (auto simp: em_load_def em_load_one_def Let_def split: if_splits prod.splits ret.splits sum.splits)
  obtain i where i: "ifaces (em_interface m1) = Inr i"
    using assms l by (cases "ifaces (em_interface m1)") (auto simp: em_setup_def hash_api_def)
  obtain p where p: "em_dns_program order m1 = Some p"
    using assms l i by (cases "em_dns_program order m1") (auto simp: em_setup_def hash_api_def)
  have free: "map_of (hk_xdp (em_kernel m1)) i = None"
    using assms l i p by (auto simp: em_setup_def hash_api_def hash_attach_def split: if_splits)
  let ?m2 = "m1\<lparr>em_kernel := (em_kernel m1)\<lparr>hk_xdp := (i, p) # hk_xdp (em_kernel m1)\<rparr>,
      em_links := em_links m1 @ [i]\<rparr>"
  have c: "em_attach_conn ?api p i ?m2 = ?m2" by (rule attach_conn_taken) simp
  have run: "em_allow_servers ?api (ec_dns_servers (em_config m)) ?m2 = (Nil_ret, m')"
    using assms l i p free c l1 by (simp add: em_setup_def hash_api_def hash_attach_def Let_def)
  have "em_interface m' = em_interface ?m2 \<and> em_config m' = em_config ?m2 \<and>
      hk_xdp (em_kernel m') = hk_xdp (em_kernel ?m2)"
    using run by (rule allow_servers_keeps)
  then show ?thesis using that i l1 by simp
qed

text \<open>The two object files of the repository, with the names their sections have.\<close>

definition demo_catalog :: "string \<Rightarrow> string list option" where
  "demo_catalog path =
     (if path = ''ebpf/compiled/dns_intercept.o'' then Some [''xdp_dns'', ''xdp_dns_v6'']
      else if path = ''ebpf/compiled/conn_filter.o'' then Some [''socket_filter'', ''xdp_filter'', ''cgroup_skb'']
      else None)"

definition demo_ifaces :: "string \<Rightarrow> string + nat" where
  "demo_ifaces name = (if name = ''eth0'' then Inr 2 else Inl ''no such network interface'')"

definition demo_api :: "hash_kernel bpf_api" where
  "demo_api = hash_api demo_catalog demo_ifaces"

definition fresh_manager :: "hash_kernel ebpf_manager" where
  "fresh_manager =
     (case new_manager None ebpf_default_config empty_kernel of
        Inr m \<Rightarrow> m)"

lemma paths:
  "path_join ''./ebpf/compiled'' ''dns_intercept.o'' = ''ebpf/compiled/dns_intercept.o''"
  "path_join ''./ebpf/compiled'' ''conn_filter.o'' = ''ebpf/compiled/conn_filter.o''"
  by code_simp+

lemma setup_again_err:
  assumes "em_setup (hash_api catalog ifaces) order m = (Nil_ret, m1)"
  shows "\<exists>what e. fst (em_setup (hash_api catalog ifaces) order' m1) = Err (Setup_failed what e)"
proof -
  let ?api = "hash_api catalog ifaces"
  obtain i where i: "ifaces (em_interface m) = Inr i" "map_of (hk_xdp (em_kernel m1)) i \<noteq> None"
    "em_interface m1 = em_interface m" "em_config m1 = em_config m"
    by (rule setup_hook [OF assms])
  show ?thesis
  proof (cases "em_load ?api m1")
    case (Pair r m2)
    have k: "hk_xdp (em_kernel m2) = hk_xdp (em_kernel m1)" "em_interface m2 = em_interface m1"
      and r: "r = Nil_ret \<or> (\<exists>what e. r = Err (Setup_failed what e))"
      using Pair
      by (auto simp: em_load_def em_load_one_def hash_api_def hash_load_def Let_def
          split: if_splits prod.splits ret.splits sum.splits option.splits)
    then show ?thesis
      using Pair i r by (auto simp: em_setup_def hash_api_def hash_attach_def split: option.splits)
  qed
qed

section \<open>Properties\<close>

text \<open>
  A manager set up on a fresh kernel never opens the filter for an address: the program
  attached to the interface reads the whitelist of its own collection, the handle the manager
  writes through belongs to the collection loaded second, whose program is refused because
  the hook is taken. Whatever \<open>AllowIPWithTTL\<close> answers, the enforced whitelist stays empty.
\<close>

theorem ebpf_whitelist_not_enforced:
  assumes "new_manager None cfg empty_kernel = Inr m"
    and "catalog (path_join (ec_programs_path cfg) ''dns_intercept.o'') = Some ds"
    and "catalog (path_join (ec_programs_path cfg) ''conn_filter.o'') = Some cs"
    and "''xdp_dns'' \<in> set ds" "''xdp_dns'' \<notin> set cs" "ifaces (ec_interface cfg) = Inr i"
    and "em_setup (hash_api catalog ifaces) order m = (r, m1)"
    and "em_allow_ttl (hash_api catalog ifaces) m1 ck ip ttl = (r', m2, ck')"
  shows "enforced i k (em_kernel m2) = None"
proof -
  let ?api = "hash_api catalog ifaces"
  obtain l where l: "em_load ?api m = (Nil_ret, l)"
    and maps: "em_maps l ''ip_whitelist'' = Some 2" "em_maps l ''allowed_dns_servers'' = Some 3"
    and progs: "em_programs l = map_of (zip ds [0 ..< length ds]) ++ map_of (zip cs [length ds ..< length ds + length cs])"
      "hk_programs (em_kernel l) = replicate (length ds) 0 @ replicate (length cs) 2"
    and l0: "hk_xdp (em_kernel l) = []" "em_interface l = ec_interface cfg"
      "\<And>h j. hash_look h j (em_kernel l) = None" "em_config l = cfg" "em_links l = []"
    by (rule load_fresh [OF assms(1-3), of ifaces]) blast
  have c: "map_of (zip cs [length ds ..< length ds + length cs]) ''xdp_dns'' = None"
    using assms(5) by (simp add: map_of_zip_is_None)
  obtain p where d: "map_of (zip ds [0 ..< 0 + length ds]) ''xdp_dns'' = Some p" "p < 0 + length ds"
    using map_of_zip_upt [OF assms(4), of 0] by blast
  have p: "em_programs l ''xdp_dns'' = Some p" "p < length ds"
    using d unfolding progs map_add_def c by simp_all
  then have prog: "em_dns_program order l = Some p" by (simp add: em_dns_program_def)
  let ?m2 = "l\<lparr>em_kernel := (em_kernel l)\<lparr>hk_xdp := [(i, p)]\<rparr>, em_links := [i]\<rparr>"
  have "em_attach_conn ?api p i ?m2 = ?m2" by (rule attach_conn_taken) simp
  then have run: "em_allow_servers ?api (ec_dns_servers cfg) ?m2 = (r, m1)"
    using assms(6,7) l l0 prog by (simp add: em_setup_def hash_api_def hash_attach_def Let_def)
  have f: "em_maps m1 = em_maps l" "hk_xdp (em_kernel m1) = [(i, p)]"
      "hk_programs (em_kernel m1) ! p = 0" "hash_look 0 k (em_kernel m1) = None"
    using allow_servers_frame [OF run, of 3] maps progs(2) p(2) l0(3) [of 0 k]
    by (simp_all add: nth_append del: split_paired_All)
  then have "enforced i k (em_kernel m1) = None" by (simp add: enforced_def)
  with assms(8) f maps(1) show ?thesis
    by (cases rule: em_allow_cases) (auto simp: hash_api_def enforced_put)
qed

text \<open>
  Calling \<open>Setup\<close> again on a manager that is set up, as \<open>main\<close> does, always ends in an
  error: the hook of the interface is still taken by the first call.
\<close>

theorem ebpf_setup_twice_fails:
  assumes "em_setup (hash_api catalog ifaces) order m = (Nil_ret, m1)"
  shows "\<exists>what e. fst (em_setup (hash_api catalog ifaces) order' m1) = Err (Setup_failed what e)"
  by (rule setup_again_err [OF assms])

section \<open>Witnesses\<close>

lemma demo_fresh:
  "new_manager None ebpf_default_config empty_kernel = Inr fresh_manager"
  by (simp add: fresh_manager_def new_manager_def)

lemma demo_catalogs:
  "demo_catalog (path_join (ec_programs_path ebpf_default_config) ''dns_intercept.o'')
     = Some [''xdp_dns'', ''xdp_dns_v6'']"
  "demo_catalog (path_join (ec_programs_path ebpf_default_config) ''conn_filter.o'')
     = Some [''socket_filter'', ''xdp_filter'', ''cgroup_skb'']"
  by (simp_all add: ebpf_default_config_def paths demo_catalog_def)

lemma demo_setup_ok: "fst (em_setup demo_api [] fresh_manager) = Nil_ret"
  by (simp add: fresh_manager_def new_manager_def ebpf_default_config_def em_setup_def demo_api_def
      hash_api_def em_load_def em_load_one_def paths demo_catalog_def hash_load_def empty_kernel_def
      declared_maps_def demo_ifaces_def em_dns_program_def hash_attach_def em_attach_conn_def
      em_conn_program_def Let_def upt_rec numeral_2_eq_2 numeral_3_eq_3)

lemma ebpf_whitelist_not_enforced_witness:
  "let m1 = snd (em_setup demo_api [] fresh_manager);
       m2 = fst (snd (em_allow_ttl demo_api m1 (\<lambda>_. 7) (v4_prefix @ [93, 184, 216, 34]) (300 * second)))
   in enforced 2 (ebpf_key (v4_prefix @ [93, 184, 216, 34])) (em_kernel m2) = None"
proof -
  obtain r m1 where s: "em_setup demo_api [] fresh_manager = (r, m1)" by (rule prod.exhaust)
  obtain r' m2 ck' where a: "em_allow_ttl demo_api m1 (\<lambda>_. 7) (v4_prefix @ [93, 184, 216, 34]) (300 * second) = (r', m2, ck')"
    by (rule prod_cases3)
  have "ifc (ec_interface ebpf_default_config) = Inr 2"
    if "ifc = demo_ifaces" for ifc
    using that by (simp add: ebpf_default_config_def demo_ifaces_def)
  then have "enforced 2 k (em_kernel m2) = None" for k
    using ebpf_whitelist_not_enforced [OF demo_fresh demo_catalogs, of demo_ifaces 2 "[]" r m1] s a
    by (simp add: demo_api_def)
  then show ?thesis using s a by simp
qed

lemma ebpf_setup_twice_fails_witness:
  "\<exists>what e. fst (em_setup demo_api [] (snd (em_setup demo_api [] fresh_manager))) = Err (Setup_failed what e)"
proof -
  have "em_setup demo_api [] fresh_manager = (Nil_ret, snd (em_setup demo_api [] fresh_manager))"
    using demo_setup_ok by (metis prod.collapse)
  then show ?thesis
    unfolding demo_api_def by (rule ebpf_setup_twice_fails)
qed

end
