(* ===== verification/Gateway_Main.thy ===== *)
theory Gateway_Main
  imports Dns_Server Bpf_Kernel
begin

text \<open>
  The start of the gateway, \<open>main\<close> of \<open>main.go\<close>: choosing the firewall manager with its
  fall-backs, the call of \<open>Setup\<close> on what was chosen, and the resolution of the configured
  domains. \<open>any_manager\<close> is the interface value \<open>manager\<close>, one of the two implementations the
  program uses. The goroutines \<open>main\<close> starts are modelled in \<open>Gateway_Run\<close>.
\<close>

datatype ('n, 'k) any_manager = Iptables_m "'n iptables_manager" | Ebpf_m "'k ebpf_manager"

fun any_setup ::
  "'n exec \<Rightarrow> 'k bpf_api \<Rightarrow> string list \<Rightarrow> ('n, 'k) any_manager \<Rightarrow> fw_error ret \<times> ('n, 'k) any_manager" where
  "any_setup exec api order (Iptables_m m) = map_prod id Iptables_m (it_setup exec m)"
| "any_setup exec api order (Ebpf_m m) = map_prod id Ebpf_m (em_setup api order m)"

fun any_allow_ttl :: "'n exec \<Rightarrow> 'k bpf_api \<Rightarrow> ('n, 'k) any_manager allow_op" where
  "any_allow_ttl exec api (Iptables_m m) ck ip ttl =
     (let (r, m', ck') = it_allow_ttl exec m ck ip ttl in (r, Iptables_m m', ck'))"
| "any_allow_ttl exec api (Ebpf_m m) ck ip ttl =
     (let (r, m', ck') = em_allow_ttl api m ck ip ttl in (r, Ebpf_m m', ck'))"

text \<open>\<open>managerCleanup\<close>, deferred to the end of \<open>main\<close>; \<open>order\<close> is a visit of the map.\<close>

fun any_cleanup ::
  "'n exec \<Rightarrow> 'k bpf_api \<Rightarrow> string list \<Rightarrow> ('n, 'k) any_manager \<Rightarrow> fw_error ret \<times> ('n, 'k) any_manager" where
  "any_cleanup exec api order (Iptables_m m) = map_prod id Iptables_m (it_cleanup exec order m)"
| "any_cleanup exec api order (Ebpf_m m) = map_prod id Ebpf_m (em_cleanup api m)"

definition main_ebpf_config :: "gateway_config \<Rightarrow> ebpf_config" where
  "main_ebpf_config cfg =
     \<lparr>ec_interface = gc_interface cfg, ec_programs_path = ''./ebpf/compiled'',
      ec_default_ttl = gc_default_ttl cfg, ec_min_ttl = gc_min_ttl cfg, ec_max_ttl = gc_max_ttl cfg,
      ec_dns_servers = gc_dns_servers cfg\<rparr>"

text \<open>
  The selection: eBPF if it is wanted, its file can be found (\<open>stat_ok\<close>), the manager can be
  made and its \<open>Setup\<close> succeeds; otherwise iptables. The kernel of an abandoned eBPF manager is
  returned beside the choice.
\<close>

definition select_manager ::
  "'k bpf_api \<Rightarrow> (string \<Rightarrow> bool) \<Rightarrow> string option \<Rightarrow> string list \<Rightarrow> gateway_config \<Rightarrow> 'n \<Rightarrow> 'k \<Rightarrow>
   ('n, 'k) any_manager \<times> 'k" where
  "select_manager api stat_ok memlock order cfg n k =
     (if gc_use_ebpf cfg then
        (let ec = main_ebpf_config cfg
         in if stat_ok (path_join (ec_programs_path ec) ''dns_intercept.o'') then
              (case new_manager memlock ec k of
                 Inl e \<Rightarrow> (Iptables_m (new_iptables n), k)
               | Inr mgr \<Rightarrow>
                   (case em_setup api order mgr of
                      (Nil_ret, mgr1) \<Rightarrow> (Ebpf_m mgr1, em_kernel mgr1)
                    | (_, mgr1) \<Rightarrow>
                        (Iptables_m (new_iptables n), em_kernel (snd (em_close api mgr1)))))
            else (Iptables_m (new_iptables n), k))
      else (Iptables_m (new_iptables n), k))"

text \<open>
  \<open>main\<close> up to the wait for a signal: whether it warned that it runs in DNS-only mode, the panic
  that ended it if one did, and the state it has built.
\<close>

definition main_start ::
  "'n exec \<Rightarrow> 'k bpf_api \<Rightarrow> (string \<Rightarrow> bool) \<Rightarrow> string option \<Rightarrow> string list \<Rightarrow> string list \<Rightarrow>
   (string \<Rightarrow> string) \<Rightarrow> (string \<Rightarrow> string \<Rightarrow> string + dns_resp) \<Rightarrow> gateway_config \<Rightarrow> 'n \<Rightarrow> 'k \<Rightarrow> clock \<Rightarrow>
   bool \<times> string option \<times> domain_cache \<times> ('n, 'k) any_manager \<times> clock" where
  "main_start exec api stat_ok memlock order1 order2 fqdn exchange cfg n k ck =
     (let cache = new_domain_cache;
          (mgr, k1) = select_manager api stat_ok memlock order1 cfg n k;
          (r, mgr1) = any_setup exec api order2 mgr;
          dns_only = (r \<noteq> Nil_ret);
          (p, c1, mgr2, ck1) =
            refresh_domains fqdn exchange (any_allow_ttl exec api) (server_resolver cfg)
              (gc_domains cfg) cache mgr1 ck
      in (dns_only, p, c1, mgr2, ck1))"

lemma select_manager_cases:
  assumes "select_manager api stat_ok memlock order cfg n k = (mgr, k1)"
  obtains (iptables) "mgr = Iptables_m (new_iptables n)"
    | (ebpf) m0 m1 where "new_manager memlock (main_ebpf_config cfg) k = Inr m0"
      "em_setup api order m0 = (Nil_ret, m1)" "mgr = Ebpf_m m1"
  using assms
  by (auto simp: select_manager_def Let_def split: if_splits sum.splits prod.splits ret.splits)

text \<open>
  With the packet filters as documented (\<open>iptables\<close> refuses the words of a shell, an XDP hook
  takes one program), \<open>main\<close> always ends up in DNS-only mode: \<open>Setup\<close> of the iptables manager
  fails at its first command, and a chosen eBPF manager is set up a second time, which fails.
\<close>

theorem main_runs_dns_only:
  assumes "rejects_shell_words exec"
    and "main_start exec (hash_api catalog ifaces) stat_ok memlock order1 order2 fqdn exchange cfg n k ck
      = (dns_only, p, c', mgr, ck')"
  shows dns_only
proof -
  let ?api = "hash_api catalog ifaces"
  obtain mgr0 k1 where sel: "select_manager ?api stat_ok memlock order1 cfg n k = (mgr0, k1)"
    by (rule prod.exhaust)
  have "fst (any_setup exec ?api order2 mgr0) \<noteq> Nil_ret"
    using sel
  proof (cases rule: select_manager_cases)
    case iptables
    have "plain_word (it_chain (new_iptables n))"
      using it_wf_new [of n] by (simp add: it_wf_def)
    with iptables show ?thesis
      using setup_refused [OF assms(1), of "new_iptables n"] by auto
  next
    case (ebpf m0 m1)
    with setup_again_err [OF ebpf(2), of order2] show ?thesis by auto
  qed
  with assms(2) sel show ?thesis
    by (auto simp: main_start_def Let_def split: prod.splits)
qed

lemma main_runs_dns_only_witness:
  "fst (main_start demo_exec demo_api (\<lambda>_. True) None [] [] id demo_exchange
     default_config [] empty_kernel (\<lambda>_. 0))"
proof -
  obtain d p c m ck where "main_start demo_exec demo_api (\<lambda>_. True) None [] [] id demo_exchange
     default_config [] empty_kernel (\<lambda>_. 0) = (d, p, c, m, ck)"
    by (rule prod_cases5)
  then show ?thesis
    using main_runs_dns_only [OF demo_rejects] unfolding demo_api_def by fastforce
qed

end
