(* ===== verification/Gateway_Run.thy ===== *)
theory Gateway_Run
  imports Gateway_Main
begin

text \<open>
  The running gateway as a state machine. Every query is handled by a goroutine of its own, and
  the domain monitor, the cleanup loops of the cache and of the manager run beside them; they
  share the cache and the manager, whose operations are atomic under their mutexes. A \<open>job\<close> is
  the position of one goroutine in \<open>HandleDNS\<close> or in the body of \<open>DomainMonitor\<close>, which do the
  same: look the name up, ask the upstream server, store the record, allow the addresses one by
  one. The steps of the jobs interleave freely. \<open>gw_history\<close> records what the upstream server
  has answered; no step reads it.
\<close>

datatype job =
    Lookup string
  | Querying string
  | Storing string "ip list" duration
  | Allowing "ip list" duration
  | Done

record 'm gateway =
  gw_cache :: domain_cache
  gw_manager :: 'm
  gw_clock :: clock
  gw_jobs :: "job list"
  gw_history :: "(string \<times> dns_resp) list"

definition new_gateway :: "'m \<Rightarrow> clock \<Rightarrow> 'm gateway" where
  "new_gateway m ck =
     \<lparr>gw_cache = new_domain_cache, gw_manager = m, gw_clock = ck, gw_jobs = [], gw_history = []\<rparr>"

text \<open>
  One step. \<open>al\<close> is the manager's \<open>AllowIPWithTTL\<close>, \<open>cl\<close> its \<open>CleanupExpired\<close> for some order
  of visits.
\<close>

inductive gw_step ::
  "'m allow_op \<Rightarrow> (string list \<Rightarrow> 'm \<Rightarrow> clock \<Rightarrow> fw_error ret \<times> 'm \<times> clock) \<Rightarrow> gateway_config option \<Rightarrow>
   'm gateway \<Rightarrow> 'm gateway \<Rightarrow> bool"
  for al cl cfg where
  arrive: "gw_step al cl cfg g (g\<lparr>gw_jobs := gw_jobs g @ [Lookup nm]\<rparr>)"
| hit: "\<lbrakk>i < length (gw_jobs g); gw_jobs g ! i = Lookup nm;
     cache_get (gw_cache g) nm (gw_clock g) = (Some r, ck')\<rbrakk> \<Longrightarrow>
   gw_step al cl cfg g
     (g\<lparr>gw_clock := ck', gw_jobs := (gw_jobs g)[i := Allowing (rec_ips r) (rec_ttl r)]\<rparr>)"
| miss: "\<lbrakk>i < length (gw_jobs g); gw_jobs g ! i = Lookup nm;
     cache_get (gw_cache g) nm (gw_clock g) = (None, ck')\<rbrakk> \<Longrightarrow>
   gw_step al cl cfg g (g\<lparr>gw_clock := ck', gw_jobs := (gw_jobs g)[i := Querying nm]\<rparr>)"
| no_reply: "\<lbrakk>i < length (gw_jobs g); gw_jobs g ! i = Querying nm\<rbrakk> \<Longrightarrow>
   gw_step al cl cfg g (g\<lparr>gw_jobs := (gw_jobs g)[i := Done]\<rparr>)"
| bad_reply: "\<lbrakk>i < length (gw_jobs g); gw_jobs g ! i = Querying nm; read_reply cfg nm resp = Inl e\<rbrakk> \<Longrightarrow>
   gw_step al cl cfg g
     (g\<lparr>gw_jobs := (gw_jobs g)[i := Done], gw_history := (nm, resp) # gw_history g\<rparr>)"
| good_reply: "\<lbrakk>i < length (gw_jobs g); gw_jobs g ! i = Querying nm;
     read_reply cfg nm resp = Inr (ips, ttl)\<rbrakk> \<Longrightarrow>
   gw_step al cl cfg g
     (g\<lparr>gw_jobs := (gw_jobs g)[i := Storing nm ips ttl], gw_history := (nm, resp) # gw_history g\<rparr>)"
| store: "\<lbrakk>i < length (gw_jobs g); gw_jobs g ! i = Storing nm ips ttl;
     cache_set (gw_cache g) nm ips ttl (gw_clock g) = (c', ck')\<rbrakk> \<Longrightarrow>
   gw_step al cl cfg g
     (g\<lparr>gw_cache := c', gw_clock := ck', gw_jobs := (gw_jobs g)[i := Allowing ips ttl]\<rparr>)"
| allow: "\<lbrakk>i < length (gw_jobs g); gw_jobs g ! i = Allowing (ip # ips) ttl;
     al (gw_manager g) (gw_clock g) ip ttl = (r, m', ck'); \<forall>p. r \<noteq> Panic p\<rbrakk> \<Longrightarrow>
   gw_step al cl cfg g
     (g\<lparr>gw_manager := m', gw_clock := ck', gw_jobs := (gw_jobs g)[i := Allowing ips ttl]\<rparr>)"
| reply: "\<lbrakk>i < length (gw_jobs g); gw_jobs g ! i = Allowing [] ttl\<rbrakk> \<Longrightarrow>
   gw_step al cl cfg g (g\<lparr>gw_jobs := (gw_jobs g)[i := Done]\<rparr>)"
| cache_tick: "cache_cleanup order (gw_cache g) (gw_clock g) = (c', ck') \<Longrightarrow>
   gw_step al cl cfg g (g\<lparr>gw_cache := c', gw_clock := ck'\<rparr>)"
| manager_tick: "cl order (gw_manager g) (gw_clock g) = (r, m', ck') \<Longrightarrow>
   gw_step al cl cfg g (g\<lparr>gw_manager := m', gw_clock := ck'\<rparr>)"

inductive gw_reachable ::
  "'m allow_op \<Rightarrow> (string list \<Rightarrow> 'm \<Rightarrow> clock \<Rightarrow> fw_error ret \<times> 'm \<times> clock) \<Rightarrow> gateway_config option \<Rightarrow>
   'm gateway \<Rightarrow> 'm gateway \<Rightarrow> bool"
  for al cl cfg g0 where
  start: "gw_reachable al cl cfg g0 g0"
| step: "gw_reachable al cl cfg g0 g \<Longrightarrow> gw_step al cl cfg g g' \<Longrightarrow> gw_reachable al cl cfg g0 g'"

section \<open>The invariant\<close>

text \<open>Addresses and a TTL that the code has read from an upstream answer.\<close>

definition answered :: "gateway_config option \<Rightarrow> (string \<times> dns_resp) list \<Rightarrow> string \<Rightarrow> ip list \<Rightarrow> duration \<Rightarrow> bool" where
  "answered cfg h nm ips ttl \<longleftrightarrow> (\<exists>resp. (nm, resp) \<in> set h \<and> read_reply cfg nm resp = Inr (ips, ttl))"

definition allowed_by :: "gateway_config option \<Rightarrow> (string \<times> dns_resp) list \<Rightarrow> ip \<Rightarrow> duration \<Rightarrow> bool" where
  "allowed_by cfg h ip ttl \<longleftrightarrow> (\<exists>nm ips. answered cfg h nm ips ttl \<and> ip \<in> set ips)"

fun job_ok :: "gateway_config option \<Rightarrow> (string \<times> dns_resp) list \<Rightarrow> job \<Rightarrow> bool" where
  "job_ok cfg h (Storing nm ips ttl) = answered cfg h nm ips ttl"
| "job_ok cfg h (Allowing ips ttl) = (\<forall>ip \<in> set ips. allowed_by cfg h ip ttl)"
| "job_ok cfg h _ = True"

definition cache_ok :: "gateway_config option \<Rightarrow> (string \<times> dns_resp) list \<Rightarrow> domain_cache \<Rightarrow> bool" where
  "cache_ok cfg h c \<longleftrightarrow> (\<forall>nm r. c nm = Some r \<longrightarrow> answered cfg h nm (rec_ips r) (rec_ttl r))"

lemma answered_mono: "answered cfg h nm ips ttl \<Longrightarrow> answered cfg (x # h) nm ips ttl"
  by (auto simp: answered_def)

lemma allowed_mono: "allowed_by cfg h ip ttl \<Longrightarrow> allowed_by cfg (x # h) ip ttl"
  by (auto simp: allowed_by_def intro: answered_mono)

lemma job_ok_mono: "job_ok cfg h j \<Longrightarrow> job_ok cfg (x # h) j"
  by (cases j) (auto intro: answered_mono allowed_mono)

lemma cache_ok_mono: "cache_ok cfg h c \<Longrightarrow> cache_ok cfg (x # h) c"
  by (auto simp: cache_ok_def intro: answered_mono)

lemma answered_allowed: "answered cfg h nm ips ttl \<Longrightarrow> ip \<in> set ips \<Longrightarrow> allowed_by cfg h ip ttl"
  by (auto simp: allowed_by_def)

definition jobs_ok :: "gateway_config option \<Rightarrow> (string \<times> dns_resp) list \<Rightarrow> job list \<Rightarrow> bool" where
  "jobs_ok cfg h js \<longleftrightarrow> (\<forall>j \<in> set js. job_ok cfg h j)"

lemma jobs_ok_update: "jobs_ok cfg h js \<Longrightarrow> job_ok cfg h j \<Longrightarrow> jobs_ok cfg h (js[i := j])"
  using set_update_subset_insert [of js i j] by (auto simp: jobs_ok_def)

lemma jobs_ok_nth: "jobs_ok cfg h js \<Longrightarrow> i < length js \<Longrightarrow> job_ok cfg h (js ! i)"
  by (simp add: jobs_ok_def)

lemma jobs_ok_mono: "jobs_ok cfg h js \<Longrightarrow> jobs_ok cfg (x # h) js"
  by (simp add: jobs_ok_def job_ok_mono)

text \<open>The cache and the jobs hold nothing but what was answered.\<close>

lemma gw_step_answers:
  assumes "gw_step al cl cfg g g'" "cache_ok cfg (gw_history g) (gw_cache g)"
    and "jobs_ok cfg (gw_history g) (gw_jobs g)"
  shows "cache_ok cfg (gw_history g') (gw_cache g') \<and> jobs_ok cfg (gw_history g') (gw_jobs g')"
  using assms
proof (cases rule: gw_step.cases)
  case (arrive nm)
  with assms show ?thesis by (simp add: jobs_ok_def)
next
  case (hit i nm r ck')
  have "answered cfg (gw_history g) nm (rec_ips r) (rec_ttl r)"
    using cache_get_Some [OF hit(4)] assms(2) by (auto simp: cache_ok_def)
  with hit assms show ?thesis by (auto intro!: jobs_ok_update intro: answered_allowed)
next
  case (miss i nm ck')
  with assms show ?thesis by (auto intro!: jobs_ok_update)
next
  case (no_reply i nm)
  with assms show ?thesis by (auto intro!: jobs_ok_update)
next
  case (bad_reply i nm resp e)
  with assms show ?thesis by (auto intro!: jobs_ok_update jobs_ok_mono cache_ok_mono)
next
  case (good_reply i nm resp ips ttl)
  have "answered cfg ((nm, resp) # gw_history g) nm ips ttl"
    using good_reply(4) by (auto simp: answered_def)
  with good_reply assms show ?thesis by (auto intro!: jobs_ok_update intro: jobs_ok_mono cache_ok_mono)
next
  case (store i nm ips ttl c' ck')
  have "answered cfg (gw_history g) nm ips ttl"
    using jobs_ok_nth [OF assms(3) store(2)] store(3) by simp
  moreover have "cache_ok cfg (gw_history g) c'"
    using store(4) assms(2) calculation
    by (auto simp: cache_ok_def cache_set_def go_defs split: if_splits)
  ultimately show ?thesis using store assms by (auto intro!: jobs_ok_update intro: answered_allowed)
next
  case (allow i ip ips ttl r m' ck')
  have "job_ok cfg (gw_history g) (Allowing ips ttl)"
    using jobs_ok_nth [OF assms(3) allow(2)] allow(3) by simp
  with allow assms show ?thesis by (auto intro!: jobs_ok_update)
next
  case (reply i ttl)
  with assms show ?thesis by (auto intro!: jobs_ok_update)
next
  case (cache_tick order c' ck')
  have "c' nm = None \<or> c' nm = gw_cache g nm" for nm
    using cache_cleanup_subset [OF cache_tick(2)] .
  with cache_tick assms show ?thesis by (auto simp: cache_ok_def) (metis option.distinct(1))
next
  case (manager_tick order r m' ck')
  with assms show ?thesis by simp
qed

text \<open>
  The whitelist: every entry is an address that was answered, and it ends at the latest when
  the TTL of an answer, counted from now, is over.
\<close>

definition view_ok ::
  "gateway_config option \<Rightarrow> (string \<times> dns_resp) list \<Rightarrow> (ip \<Rightarrow> 'k) \<Rightarrow> ('k \<Rightarrow> time option) \<Rightarrow> clock \<Rightarrow> bool" where
  "view_ok cfg h key v ck \<longleftrightarrow>
     (\<forall>k e. v k = Some e \<longrightarrow> (\<exists>ip ttl. allowed_by cfg h ip ttl \<and> key ip = k \<and> e \<le> ck 0 + sint ttl))"

lemma view_ok_later:
  assumes "view_ok cfg h key v ck" "mono ck" "later ck ck'"
  shows "view_ok cfg h key v ck'"
  unfolding view_ok_def
proof (intro allI impI)
  fix k e
  assume "v k = Some e"
  with assms(1) obtain ip ttl where "allowed_by cfg h ip ttl" "key ip = k" "e \<le> ck 0 + sint ttl"
    unfolding view_ok_def by blast
  moreover have "ck 0 \<le> ck' 0" using mono_later_le [OF assms(2,3)] .
  ultimately show "\<exists>ip ttl. allowed_by cfg h ip ttl \<and> key ip = k \<and> e \<le> ck' 0 + sint ttl"
    by (intro exI [of _ ip] exI [of _ ttl]) simp
qed

lemma view_ok_mono: "view_ok cfg h key v ck \<Longrightarrow> view_ok cfg (x # h) key v ck"
  by (fastforce simp: view_ok_def intro: allowed_mono)

lemma gw_step_later:
  assumes "gw_step al cl cfg g g'"
    and "\<And>order. firewall al rm (cl order) view key fits"
  shows "later (gw_clock g) (gw_clock g')"
  using assms(1)
  by cases (auto dest: cache_get_later cache_set_later cache_cleanup_later
      firewall.allow_later [OF assms(2)] firewall.cleanup_later [OF assms(2)])

lemma gw_step_view:
  assumes "gw_step al cl cfg g g'" and fw: "\<And>order. firewall al rm (cl order) view key fits"
    and "jobs_ok cfg (gw_history g) (gw_jobs g)" and m: "mono (gw_clock g)"
    and fits: "\<And>ip ttl. allowed_by cfg (gw_history g) ip ttl \<Longrightarrow> fits (gw_clock g) ip ttl"
    and v: "view_ok cfg (gw_history g) key (view (gw_manager g)) (gw_clock g)"
  shows "view_ok cfg (gw_history g') key (view (gw_manager g')) (gw_clock g')"
proof -
  have l: "later (gw_clock g) (gw_clock g')" by (rule gw_step_later [OF assms(1,2)])
  have old: "view_ok cfg (gw_history g) key (view (gw_manager g)) (gw_clock g')"
    by (rule view_ok_later [OF v m l])
  from assms(1) show ?thesis
  proof (cases rule: gw_step.cases)
    case (allow i ip ips ttl r m' ck')
    have src: "allowed_by cfg (gw_history g) ip ttl"
      using jobs_ok_nth [OF assms(3) allow(2)] allow(3) by simp
    have "view m' k = view (gw_manager g) k" if "k \<noteq> key ip" for k
      using firewall.allow_other [OF fw fits [OF src] allow(4) that] .
    moreover have "view (gw_manager g) (key ip) = Some e \<or> e \<le> ck' 0 + sint ttl"
      if "view m' (key ip) = Some e" for e
      using firewall.allow_bound [OF fw m fits [OF src] allow(4) that] .
    ultimately have "view_ok cfg (gw_history g) key (view m') (gw_clock g')"
      using old src allow(1) unfolding view_ok_def by (metis gateway.select_convs(3)
          gateway.surjective gateway.update_convs(2,3,4))
    with allow(1) show ?thesis by simp
  next
    case (manager_tick order r m' ck')
    have "view (gw_manager g) k = Some e" if "view m' k = Some e" for k e
      using firewall.cleanup_only_removes [OF fw manager_tick(2) that] .
    with old manager_tick(1) show ?thesis by (auto simp: view_ok_def)
  qed (use old in \<open>auto intro: view_ok_mono\<close>)
qed

definition gw_inv ::
  "gateway_config option \<Rightarrow> (ip \<Rightarrow> 'k) \<Rightarrow> ('m \<Rightarrow> 'k \<Rightarrow> time option) \<Rightarrow> 'm gateway \<Rightarrow> bool" where
  "gw_inv cfg key view g \<longleftrightarrow>
     cache_ok cfg (gw_history g) (gw_cache g) \<and> jobs_ok cfg (gw_history g) (gw_jobs g) \<and>
     mono (gw_clock g) \<and> view_ok cfg (gw_history g) key (view (gw_manager g)) (gw_clock g)"

lemma gw_reachable_inv:
  assumes "gw_reachable al cl cfg (new_gateway m0 ck0) g"
    and fw: "\<And>order. firewall al rm (cl order) view key fits"
    and "mono ck0" "view m0 = Map.empty"
    and fits: "\<And>ip nm resp ips ttl. read_reply cfg nm resp = Inr (ips, ttl) \<Longrightarrow> fits ck0 ip ttl"
  shows "gw_inv cfg key view g \<and> later ck0 (gw_clock g)"
  using assms(1)
proof induction
  case start
  show ?case using assms(3,4)
    by (simp add: gw_inv_def new_gateway_def cache_ok_def new_domain_cache_def jobs_ok_def view_ok_def)
next
  case (step g g')
  have l: "later (gw_clock g) (gw_clock g')" by (rule gw_step_later [OF step(2) fw])
  have f: "fits (gw_clock g) ip ttl" if "allowed_by cfg (gw_history g) ip ttl" for ip ttl
    using firewall.fits_later [OF fw fits] step.IH that unfolding allowed_by_def answered_def by blast
  have "view_ok cfg (gw_history g') key (view (gw_manager g')) (gw_clock g')"
    using gw_step_view [OF step(2) fw] step.IH f by (auto simp: gw_inv_def)
  then show ?case
    using gw_step_answers [OF step(2)] step.IH l mono_later [OF _ l]
    by (auto simp: gw_inv_def intro: later_trans)
qed

section \<open>Properties\<close>

text \<open>
  C1. However the queries, the domain monitor and the cleanup loops interleave, the iptables
  manager allows only addresses that an upstream server has answered to a query of the gateway,
  each at most for the TTL of such an answer from now on, and the cache holds under a name
  only what was answered for that name.
\<close>

theorem gateway_allows_only_answers:
  assumes "gw_reachable (it_allow_ttl exec) (it_cleanup_expired exec) cfg (new_gateway (new_iptables k) ck0) g"
    and "mono ck0"
  shows "(\<forall>s e. it_view (gw_manager g) s = Some e \<longrightarrow>
      (\<exists>nm resp ips ttl ip. (nm, resp) \<in> set (gw_history g) \<and> read_reply cfg nm resp = Inr (ips, ttl) \<and>
        ip \<in> set ips \<and> ip_string ip = s \<and> e \<le> gw_clock g 0 + sint ttl)) \<and>
    (\<forall>nm r. gw_cache g nm = Some r \<longrightarrow>
      (\<exists>resp. (nm, resp) \<in> set (gw_history g) \<and>
        read_reply cfg nm resp = Inr (rec_ips r, rec_ttl r)))"
proof -
  have "it_view (new_iptables k) = Map.empty"
    by (simp add: it_view_def new_iptables_def expiry_view_def fun_eq_iff)
  then have "gw_inv cfg ip_string it_view g"
    using gw_reachable_inv [OF assms(1) iptables.firewall_axioms assms(2)] by simp
  then show ?thesis
    unfolding gw_inv_def view_ok_def cache_ok_def allowed_by_def answered_def by fastforce
qed

text \<open>
  C34. The same for the eBPF manager on the kernel's hash maps, for bounds on the TTL that are not
  negative and clocks before the year 2262, so that the expiry times fit into an entry.
\<close>

theorem gateway_allows_only_answers_ebpf:
  assumes "gw_reachable (em_allow_ttl (hash_api catalog ifaces)) (\<lambda>_. em_cleanup_expired) (Some cfg)
      (new_gateway m0 ck0) g"
    and "mono ck0" "em_view hash_look m0 = Map.empty" "\<And>n. 0 \<le> ck0 n \<and> ck0 n < 2 ^ 63"
    and "0 \<le> sint (gc_min_ttl cfg)" "sint (gc_min_ttl cfg) \<le> sint (gc_max_ttl cfg)"
    and "em_view hash_look (gw_manager g) k = Some e"
  shows "\<exists>nm resp ips ttl ip. (nm, resp) \<in> set (gw_history g) \<and>
    read_reply (Some cfg) nm resp = Inr (ips, ttl) \<and> ip \<in> set ips \<and> ebpf_key ip = k \<and>
    e \<le> gw_clock g 0 + sint ttl"
proof -
  have "ebpf_fits ck0 ip ttl" if rr: "read_reply (Some cfg) nm resp = Inr (ips, ttl)" for ip nm resp ips ttl
  proof -
    obtain t where "ttl = clamp (gc_min_ttl cfg) (gc_max_ttl cfg) t"
      using rr by (auto simp: read_reply_Inr clamp_ttl_def)
    then have "0 \<le> sint ttl" using clamp_lower [OF assms(6), of t] assms(5) by simp
    moreover have "sint ttl < 2 ^ 63" using sint_lt [of ttl] by simp
    ultimately have "0 \<le> ck0 n + sint ttl \<and> ck0 n + sint ttl < 2 ^ 64" for n
      using assms(4) [of n] by simp
    then show ?thesis by (simp add: ebpf_fits_def)
  qed
  then have "gw_inv (Some cfg) ebpf_key (em_view hash_look) g"
    using gw_reachable_inv [OF assms(1) hash.firewall_axioms assms(2,3)] by blast
  with assms(7) show ?thesis
    unfolding gw_inv_def view_ok_def allowed_by_def answered_def by fastforce
qed

text \<open>
  C39. A hit in the cache grants the whole TTL again, with the iptables manager as with the eBPF one: if a record was
  resolved at \<open>t0\<close>, so that it expires one TTL later, and is found in the cache at a query before that, then each of its
  addresses whose insertion was not logged as failed is on the whitelist beyond the expiry of the record, by
  at least the age of the record at the query: later than the record expires if any time has passed, and almost by the TTL
  again if the record was about to expire. For eBPF the expiry times have to fit into an entry.
\<close>

theorem cache_hit_grants_whole_ttl:
  assumes "qy_questions r = q # qs" "q_type q = type_a" "c (trim_suffix (q_name q) ''.'') = Some d"
    and "rec_expires d = t0 + sint (rec_ttl d)" "ck 0 \<le> rec_expires d" "mono ck" "ip \<in> set (rec_ips d)"
  shows "(\<forall>rp log c' m' ck'.
      handle_dns set_reply oor fqdn exchange (it_allow_ttl exec) rs r c m ck = (Written rp, log, c', m', ck') \<and>
        ip \<notin> fst ` set log \<longrightarrow>
      (\<exists>e. it_view m' (ip_string ip) = Some e \<and> rec_expires d + (ck 0 - t0) \<le> e)) \<and>
    (\<forall>rp log c' m' ck'.
      handle_dns set_reply oor fqdn exchange (em_allow_ttl (hash_api catalog ifaces)) rs r c n ck =
          (Written rp, log, c', m', ck') \<and>
        ip \<notin> fst ` set log \<and> (\<forall>k. 0 \<le> ck k + sint (rec_ttl d) \<and> ck k + sint (rec_ttl d) < 2 ^ 64) \<longrightarrow>
      (\<exists>e. em_view hash_look m' (ebpf_key ip) = Some e \<and> rec_expires d + (ck 0 - t0) \<le> e))"
proof (intro conjI allI impI; elim conjE)
  fix rp log c' m' ck'
  assume "handle_dns set_reply oor fqdn exchange (it_allow_ttl exec) rs r c m ck = (Written rp, log, c', m', ck')"
    "ip \<notin> fst ` set log"
  from iptables.cache_hit_grants [OF this(1) assms(1-3,5,6) _ assms(7) this(2)]
  show "\<exists>e. it_view m' (ip_string ip) = Some e \<and> rec_expires d + (ck 0 - t0) \<le> e"
    using assms(4) by fastforce
next
  fix rp log c' m' ck'
  assume h: "handle_dns set_reply oor fqdn exchange (em_allow_ttl (hash_api catalog ifaces)) rs r c n ck =
      (Written rp, log, c', m', ck')" "ip \<notin> fst ` set log"
    and "\<forall>k. 0 \<le> ck k + sint (rec_ttl d) \<and> ck k + sint (rec_ttl d) < 2 ^ 64"
  then have "\<forall>j \<in> set (rec_ips d). ebpf_fits ck j (rec_ttl d)" by (simp add: ebpf_fits_def)
  from firewall.cache_hit_grants [OF hash.firewall_axioms h(1) assms(1-3,5,6) this assms(7) h(2)]
  show "\<exists>e. em_view hash_look m' (ebpf_key ip) = Some e \<and> rec_expires d + (ck 0 - t0) \<le> e"
    using assms(4) by fastforce
qed

section \<open>Witnesses\<close>

text \<open>A run: a query arrives, misses the cache, is answered, stored and allowed.\<close>

lemma demo_run:
  assumes "al m0 (\<lambda>_. 0) demo_ip (300 * second) = (Nil_ret, m1, ck1)"
  shows "gw_reachable al cl (Some default_config) (new_gateway m0 (\<lambda>_. 0))
    \<lparr>gw_cache = [''example.com'' \<mapsto> demo_record], gw_manager = m1, gw_clock = ck1,
     gw_jobs = [Allowing [] (300 * second)], gw_history = [(''example.com'', demo_resp)]\<rparr>"
proof -
  let ?nm = "''example.com''"
  let ?g = "\<lambda>c m k js h. \<lparr>gw_cache = c, gw_manager = m, gw_clock = k, gw_jobs = js, gw_history = h\<rparr>"
  let ?z = "\<lambda>_ :: nat. 0 :: time"
  let ?c = "[?nm \<mapsto> demo_record]"
  let ?R = "gw_reachable al cl (Some default_config) (new_gateway m0 ?z)"
  note go = gw_reachable.step
  have "?R (?g Map.empty m0 ?z [] [])"
    using gw_reachable.start [of al cl _ "new_gateway m0 ?z"]
    by (simp add: new_gateway_def new_domain_cache_def)
  then have "?R (?g Map.empty m0 ?z [Lookup ?nm] [])"
    by (rule go) (use gw_step.arrive [of al cl _ "?g Map.empty m0 ?z [] []" ?nm] in simp)
  then have "?R (?g Map.empty m0 ?z [Querying ?nm] [])"
    by (rule go) (use gw_step.miss [of 0 "?g Map.empty m0 ?z [Lookup ?nm] []" ?nm ?z al cl] in
        \<open>simp add: cache_get_def\<close>)
  then have "?R (?g Map.empty m0 ?z [Storing ?nm [demo_ip] (300 * second)] [(?nm, demo_resp)])"
    by (rule go) (use gw_step.good_reply [of 0 "?g Map.empty m0 ?z [Querying ?nm] []" ?nm
          "Some default_config" demo_resp "[demo_ip]" "300 * second" al cl] demo_reply in simp)
  then have "?R (?g ?c m0 ?z [Allowing [demo_ip] (300 * second)] [(?nm, demo_resp)])"
    by (rule go) (use gw_step.store [of 0 "?g Map.empty m0 ?z [Storing ?nm [demo_ip] (300 * second)] [(?nm, demo_resp)]"
          ?nm "[demo_ip]" "300 * second" ?c ?z al cl] in
        \<open>simp add: cache_set_def go_defs demo_record_def second_def\<close>)
  then show ?thesis
    by (rule go) (use gw_step.allow [of 0 "?g ?c m0 ?z [Allowing [demo_ip] (300 * second)] [(?nm, demo_resp)]"
          demo_ip "[]" "300 * second" al Nil_ret m1 ck1] assms in simp)
qed

lemma gateway_allows_only_answers_witness:
  "\<exists>nm resp ips ttl. read_reply (Some default_config) nm resp = Inr (ips, ttl) \<and> demo_ip \<in> set ips"
proof -
  obtain m1 where al: "it_allow_ttl demo_exec (new_iptables []) (\<lambda>_. 0) demo_ip (300 * second) = (Nil_ret, m1, \<lambda>_. 0)"
    using demo_iptables_allow by blast
  note run = demo_run [where al = "it_allow_ttl demo_exec", OF al]
  have "mono (\<lambda>_ :: nat. 0 :: time)" by (simp add: mono_def)
  note conc = gateway_allows_only_answers [OF run this]
  have "answered (Some default_config) [(''example.com'', demo_resp)] ''example.com'' [demo_ip] (300 * second)"
    using conjunct2 [OF conc] by (auto simp: demo_record_def answered_def)
  then show ?thesis by (auto simp: answered_def) (metis list.set_intros(1))
qed

text \<open>A query at 299 seconds for a record of 300 seconds keeps its address allowed until 599 seconds.\<close>

lemma cache_hit_grants_whole_ttl_witness:
  "\<exists>m1 ck1 e. handle_dns (\<lambda>_. ()) (\<lambda>_. 0) id demo_exchange (it_allow_ttl demo_exec) (server_resolver default_config)
      demo_query [''example.com'' \<mapsto> demo_record] (new_iptables []) (\<lambda>_. 299 * 1000000000)
    = (Written demo_written, [], [''example.com'' \<mapsto> demo_record], m1, ck1) \<and>
    it_view m1 (ip_string demo_ip) = Some e \<and> rec_expires demo_record + 299 * 1000000000 \<le> e"
proof -
  let ?ck = "\<lambda>_ :: nat. 299 * 1000000000 :: time"
  have s: "sint (300 * second :: duration) = 300 * 1000000000" by (simp add: second_def)
  have hit: "resolve_with_ttl id demo_exchange (server_resolver default_config) [''example.com'' \<mapsto> demo_record]
      ''example.com'' ?ck = (Inr ([demo_ip], 300 * second), [''example.com'' \<mapsto> demo_record], ?ck)"
    by (simp add: resolve_with_ttl_def cache_get_def go_defs demo_record_def)
  obtain m1 where al: "it_allow_ttl demo_exec (new_iptables []) ?ck demo_ip (300 * second) = (Nil_ret, m1, ?ck)"
    using run_insert [of "''EGRESS_WHITELIST''" demo_exec demo_ip "[]"]
    by (simp add: it_allow_ttl_def new_iptables_def it_insert_store_def insert_argv_def demo_exec_def
        plain_word_def is_space_def go_defs Let_def)
  have h: "handle_dns (\<lambda>_. ()) (\<lambda>_. 0) id demo_exchange (it_allow_ttl demo_exec) (server_resolver default_config)
      demo_query [''example.com'' \<mapsto> demo_record] (new_iptables []) ?ck
    = (Written demo_written, [], [''example.com'' \<mapsto> demo_record], m1, ?ck)"
    using hit al
    by (simp add: handle_dns_def demo_query_def demo_name Let_def demo_written_def type_a_def rcode_success_def)
  have q: "qy_questions demo_query = \<lparr>q_name = ''example.com.'', q_type = 1\<rparr> # []" by (simp add: demo_query_def)
  have "rec_expires demo_record = 0 + sint (rec_ttl demo_record)" "?ck 0 \<le> rec_expires demo_record" "mono ?ck"
    "demo_ip \<in> set (rec_ips demo_record)"
    using s by (simp_all add: demo_record_def mono_def)
  from cache_hit_grants_whole_ttl [OF q _ _ this, of "[''example.com'' \<mapsto> demo_record]" "\<lambda>_. ()" "\<lambda>_. 0" id demo_exchange
      demo_exec "server_resolver default_config" "new_iptables []"]
  have "\<exists>e. it_view m1 (ip_string demo_ip) = Some e \<and> rec_expires demo_record + (299 * 1000000000 - 0) \<le> e"
    using h by (simp add: type_a_def demo_name)
  then show ?thesis using h unfolding diff_0_right by blast
qed

definition demo_ebpf :: "hash_kernel ebpf_manager" where
  "demo_ebpf = fresh_manager\<lparr>em_maps := [''ip_whitelist'' \<mapsto> 0],
     em_kernel := empty_kernel\<lparr>hk_maps := map snd declared_maps\<rparr>\<rparr>"

lemma gateway_allows_only_answers_ebpf_witness:
  "\<exists>nm resp ips ttl ip. read_reply (Some default_config) nm resp = Inr (ips, ttl) \<and> ip \<in> set ips \<and>
     ebpf_key ip = ebpf_key demo_ip"
proof -
  obtain r m1 ck1 where "em_allow_ttl demo_api demo_ebpf (\<lambda>_. 0) demo_ip (300 * second) = (r, m1, ck1)"
    by (rule prod_cases3)
  have k: "ip_key_of demo_ip = Some (0, 0x5DB8D822)" by code_simp
  have al: "em_allow_ttl demo_api demo_ebpf (\<lambda>_. 0) demo_ip (300 * second) =
    (Nil_ret, demo_ebpf\<lparr>em_kernel := empty_kernel\<lparr>hk_maps :=
        [\<lparr>hm_max = 65535, hm_entries = [((0, 0x5DB8D822), Entry_value (300 * second))]\<rparr>,
         \<lparr>hm_max = 10, hm_entries = []\<rparr>]\<rparr>\<rparr>, \<lambda>_. 0)"
    by (simp add: em_allow_ttl_def k demo_ebpf_def fresh_manager_def new_manager_def demo_api_def
        hash_api_def hash_put_def hash_update_def declared_maps_def empty_kernel_def now_def Let_def)
  note run = demo_run [where al = "em_allow_ttl demo_api", OF al, unfolded demo_api_def]
  have "sint (300 * second :: duration) = 300 * 1000000000" by (simp add: second_def)
  then have v: "em_view hash_look (gw_manager \<lparr>gw_cache = c, gw_manager = demo_ebpf\<lparr>em_kernel := empty_kernel\<lparr>hk_maps :=
        [\<lparr>hm_max = 65535, hm_entries = [((0, 0x5DB8D822), Entry_value (300 * second))]\<rparr>,
         \<lparr>hm_max = 10, hm_entries = []\<rparr>]\<rparr>\<rparr>, gw_clock = ck, gw_jobs = js, gw_history = h\<rparr>) (ebpf_key demo_ip)
      = Some (uint (300 * second :: duration))" for c ck js h
    by (simp add: em_view_def ebpf_key_def k demo_ebpf_def hash_look_def)
  have "em_view hash_look demo_ebpf = Map.empty"
    by (auto simp: em_view_def demo_ebpf_def hash_look_def declared_maps_def fun_eq_iff)
  moreover have "mono (\<lambda>_ :: nat. 0 :: time)" by (simp add: mono_def)
  ultimately show ?thesis
    using gateway_allows_only_answers_ebpf [OF run _ _ _ _ _ v]
    by (fastforce simp: default_config_def second_def)
qed

end
