(* ===== verification/Json_Text.thy ===== *)
theory Json_Text
  imports Go_Net
begin

text \<open>
  The JSON text in which the configuration database keeps lists of strings: \<open>jsonArray\<close> and
  \<open>jsonSlice\<close> of \<open>config-server/internal/db/database.go\<close>, with what \<open>encoding/json\<close> does for
  a \<open>[]string\<close>. The encoder escapes quotes, backslashes, control characters and the three
  characters of HTML. The decoder is exact on text the encoder has written, the only text the
  database holds; other text gives the empty list. Bytes from 128 on belong to UTF-8 sequences and
  pass through unchanged, as they do for valid UTF-8.
\<close>

definition hex_digit :: "nat \<Rightarrow> char" where
  "hex_digit n = (if n < 10 then char_of (48 + n) else char_of (87 + n))"

fun hex_value :: "char \<Rightarrow> nat option" where
  "hex_value c =
     (let n = of_char c :: nat
      in if 48 \<le> n \<and> n \<le> 57 then Some (n - 48)
         else if 97 \<le> n \<and> n \<le> 102 then Some (n - 87)
         else if 65 \<le> n \<and> n \<le> 70 then Some (n - 55)
         else None)"

definition json_escaped :: "char \<Rightarrow> bool" where
  "json_escaped c \<longleftrightarrow> (of_char c :: nat) < 32 \<or> c \<in> {CHR ''<'', CHR ''>'', CHR ''&''}"

definition json_char :: "char \<Rightarrow> string" where
  "json_char c =
     (if c = CHR 0x22 \<or> c = CHR 0x5C then [CHR 0x5C, c]
      else if c = CHR 0x08 then [CHR 0x5C, CHR ''b'']
      else if c = CHR 0x0C then [CHR 0x5C, CHR ''f'']
      else if c = CHR 0x0A then [CHR 0x5C, CHR ''n'']
      else if c = CHR 0x0D then [CHR 0x5C, CHR ''r'']
      else if c = CHR 0x09 then [CHR 0x5C, CHR ''t'']
      else if json_escaped c then
        [CHR 0x5C, CHR ''u'', CHR ''0'', CHR ''0'',
         hex_digit (of_char c div 16), hex_digit (of_char c mod 16)]
      else [c])"

definition json_string :: "string \<Rightarrow> string" where
  "json_string s = CHR 0x22 # concat (map json_char s) @ [CHR 0x22]"

definition json_array :: "string list \<Rightarrow> string" where
  "json_array ss =
     (if ss = [] then ''[]'' else CHR ''['' # join '','' (map json_string ss) @ [CHR '']''])"

text \<open>The body of a string literal up to its closing quote, and the text after it.\<close>

fun json_body :: "string \<Rightarrow> (string \<times> string) option" where
  "json_body [] = None"
| "json_body (c # cs) =
     (if c = CHR 0x22 then Some ([], cs)
      else if c = CHR 0x5C then
        (case cs of
           [] \<Rightarrow> None
         | e # rest \<Rightarrow>
             if e = CHR ''u'' then
               (case rest of
                  z1 # z2 # h # l # rest' \<Rightarrow>
                    (case (hex_value h, hex_value l) of
                       (Some a, Some b) \<Rightarrow>
                         if z1 = CHR ''0'' \<and> z2 = CHR ''0'' then
                           map_option (map_prod (Cons (char_of (16 * a + b))) id) (json_body rest')
                         else None
                     | _ \<Rightarrow> None)
                | _ \<Rightarrow> None)
             else
               (let d = (if e = CHR ''b'' then Some (CHR 0x08) else if e = CHR ''f'' then Some (CHR 0x0C)
                         else if e = CHR ''n'' then Some (CHR 0x0A) else if e = CHR ''r'' then Some (CHR 0x0D)
                         else if e = CHR ''t'' then Some (CHR 0x09)
                         else if e = CHR 0x22 \<or> e = CHR 0x5C \<or> e = CHR ''/'' then Some e else None)
                in case d of None \<Rightarrow> None | Some x \<Rightarrow> map_option (map_prod (Cons x) id) (json_body rest)))
      else map_option (map_prod (Cons c) id) (json_body cs))"

text \<open>The elements after the opening bracket; the fuel is the length of the text.\<close>

fun json_elems :: "nat \<Rightarrow> string \<Rightarrow> string list option" where
  "json_elems 0 s = None"
| "json_elems (Suc n) s =
     (case s of
        [] \<Rightarrow> None
      | q # cs \<Rightarrow>
          if q \<noteq> CHR 0x22 then None
          else (case json_body cs of
                  Some (x, d # rest) \<Rightarrow>
                    if d = CHR '','' then map_option (Cons x) (json_elems n rest)
                    else if d = CHR '']'' \<and> rest = [] then Some [x]
                    else None
                | _ \<Rightarrow> None))"

definition json_slice :: "string \<Rightarrow> string list" where
  "json_slice s =
     (if s = [] \<or> s = ''[]'' then []
      else if hd s = CHR ''['' then
        (case json_elems (length s) (tl s) of Some xs \<Rightarrow> xs | None \<Rightarrow> [])
      else [])"

section \<open>Round trip\<close>

lemma hex_value_digit: "n < 16 \<Longrightarrow> hex_value (hex_digit n) = Some n"
  by (auto simp: hex_digit_def Let_def)

lemma char_halves: "(of_char c :: nat) mod 16 < 16" "(of_char c :: nat) div 16 < 16"
  using nat_of_char_less_256 [of c] by linarith+

lemma json_body_char:
  "json_body (json_char c @ s) = map_option (map_prod (Cons c) id) (json_body s)"
  by (auto simp: json_char_def hex_value_digit char_halves simp del: hex_value.simps)

lemma json_body_string:
  "json_body (concat (map json_char s) @ CHR 0x22 # t) = Some (s, t)"
  by (induction s) (simp_all add: json_body_char del: json_body.simps(2), simp)

lemma json_elems_join:
  assumes "ss \<noteq> []" "length ss \<le> n"
  shows "json_elems n (join '','' (map json_string ss) @ [CHR '']'']) = Some ss"
  using assms
proof (induction ss arbitrary: n)
  case (Cons s ss)
  then obtain k where n: "n = Suc k" by (cases n) auto
  show ?case
  proof (cases ss)
    case Nil
    then show ?thesis using n json_body_string [of s "[CHR '']'']"] by (simp add: json_string_def)
  next
    case ts: (Cons t ts)
    let ?rest = "join '','' (map json_string ss) @ [CHR '']'']"
    have "json_elems k ?rest = Some ss" using Cons.IH [of k] Cons.prems n ts by simp
    moreover have "join '','' (map json_string (s # ss)) @ [CHR '']''] =
        CHR 0x22 # concat (map json_char s) @ CHR 0x22 # CHR '','' # ?rest"
      by (simp add: ts json_string_def)
    ultimately show ?thesis
      using n json_body_string [of s "CHR '','' # ?rest"] by (simp del: join.simps)
  qed
qed simp

lemma join_length: "length ss \<le> Suc (length (join '','' (map json_string ss)))"
proof (induction ss rule: induct_list012)
  case (3 x y zs)
  then show ?case by simp
qed (simp_all add: json_string_def)

lemma json_array_Cons:
  "ss \<noteq> [] \<Longrightarrow> json_array ss = CHR ''['' # join '','' (map json_string ss) @ [CHR '']'']"
  by (simp add: json_array_def)

lemma json_join_not_Nil: "ss \<noteq> [] \<Longrightarrow> join '','' (map json_string ss) \<noteq> []"
  by (cases ss; cases "tl ss") (auto simp: json_string_def)

lemma json_slice_array: "json_slice (json_array ss) = ss"
proof (cases "ss = []")
  case True
  then show ?thesis by (simp add: json_array_def json_slice_def)
next
  case False
  then have "json_elems (length (json_array ss)) (join '','' (map json_string ss) @ [CHR '']'']) = Some ss"
    using join_length [of ss] by (intro json_elems_join) (simp_all add: json_array_Cons)
  moreover have "json_array ss \<noteq> ''[]''"
    using False json_join_not_Nil [OF False] by (simp add: json_array_Cons)
  ultimately show ?thesis using False by (simp add: json_slice_def json_array_Cons)
qed

end
