(* ===== verification/Config_Models.thy ===== *)
theory Config_Models
  imports Json_Text
begin

text \<open>
  The data models of the configuration server (\<open>config-server/internal/models/models.go\<close>).
  Identifiers are Go \<open>uint\<close>s read as natural numbers, a nullable identifier (\<open>*uint\<close>) is an
  option, times are \<open>time\<close> values and the other integers Go \<open>int\<close>s.
\<close>

record configuration =
  cf_id :: nat
  cf_name :: string
  cf_dns_servers :: "string list"
  cf_whitelist :: "string list"
  cf_blacklist :: "string list"
  cf_default_ttl :: int
  cf_max_ttl :: int
  cf_min_ttl :: int
  cf_refresh_interval :: int
  cf_restrict :: bool
  cf_created :: time
  cf_updated :: time

record host =
  ho_id :: nat
  ho_hostname :: string
  ho_ip :: string
  ho_last_seen :: time
  ho_status :: string
  ho_fingerprint :: string
  ho_created :: time
  ho_config :: "nat option"

record host_group =
  hg_id :: nat
  hg_name :: string
  hg_config :: "nat option"
  hg_created :: time

record dynamic_group =
  dg_id :: nat
  dg_name :: string
  dg_pattern :: string
  dg_config :: "nat option"
  dg_created :: time

record egress_config =
  eg_dns_servers :: "string list"
  eg_whitelist :: "string list"
  eg_blacklist :: "string list"
  eg_default_ttl :: int
  eg_max_ttl :: int
  eg_min_ttl :: int
  eg_refresh_interval :: int
  eg_restrict :: bool
  eg_configuration_id :: nat

definition convert_to_egress_config :: "configuration \<Rightarrow> egress_config" where
  "convert_to_egress_config c =
     \<lparr>eg_dns_servers = cf_dns_servers c, eg_whitelist = cf_whitelist c, eg_blacklist = cf_blacklist c,
      eg_default_ttl = cf_default_ttl c, eg_max_ttl = cf_max_ttl c, eg_min_ttl = cf_min_ttl c,
      eg_refresh_interval = cf_refresh_interval c, eg_restrict = cf_restrict c,
      eg_configuration_id = cf_id c\<rparr>"

text \<open>\<open>APIResponse\<close>; the JSON omits the empty fields, so an empty text stands for none.\<close>

record 'd api_response =
  ar_success :: bool
  ar_message :: string
  ar_data :: "'d option"
  ar_error :: string

definition new_success_response :: "string \<Rightarrow> 'd option \<Rightarrow> 'd api_response" where
  "new_success_response msg d = \<lparr>ar_success = True, ar_message = msg, ar_data = d, ar_error = []\<rparr>"

definition new_error_response :: "string \<Rightarrow> string \<Rightarrow> 'd api_response" where
  "new_error_response msg e = \<lparr>ar_success = False, ar_message = msg, ar_data = None, ar_error = e\<rparr>"

end
