(* ===== verification/Config_Db.thy ===== *)
theory Config_Db
  imports Config_Models "HOL-Library.List_Lexorder" "HOL-Library.Char_ord"
begin

text \<open>
  The database of the configuration server (\<open>config-server/internal/db/database.go\<close>): the
  tables \<open>Initialize\<close> declares, each SQL statement of the repositories as a function on the
  tables, and the repositories' methods, which run one statement each and build their result.

  SQLite runs a statement atomically, on some connection of the pool of \<open>database/sql\<close>. What a
  connection contributes is a \<open>connection\<close>: an error that stops the statement, whether foreign
  keys are enforced on it (\<open>PRAGMA foreign_keys\<close> holds for one connection only, and
  \<open>NewDatabase\<close> sends it through the pool once), and after how many rows a query breaks off.
  The connections to come are a stream, as the readings of the clock are.
\<close>

section \<open>Tables\<close>

text \<open>A row of \<open>configurations\<close>: the lists are stored as JSON text, the flag as 0 or 1.\<close>

record config_row =
  cr_id :: nat
  cr_name :: string
  cr_dns_servers :: string
  cr_whitelist :: string
  cr_blacklist :: string
  cr_default_ttl :: int
  cr_max_ttl :: int
  cr_min_ttl :: int
  cr_refresh_interval :: int
  cr_restrict :: int
  cr_created :: time
  cr_updated :: time

text \<open>The tables in the order of their row ids, and the counters of \<open>AUTOINCREMENT\<close>.\<close>

record tables =
  tb_configs :: "config_row list"
  tb_config_seq :: nat
  tb_hosts :: "host list"
  tb_host_seq :: nat
  tb_groups :: "host_group list"
  tb_group_seq :: nat
  tb_dynamic :: "dynamic_group list"
  tb_dynamic_seq :: nat
  tb_members :: "(nat \<times> nat) list"

definition initialize :: tables where
  "initialize =
     \<lparr>tb_configs = [], tb_config_seq = 0, tb_hosts = [], tb_host_seq = 0, tb_groups = [],
      tb_group_seq = 0, tb_dynamic = [], tb_dynamic_seq = 0, tb_members = []\<rparr>"

datatype sql_error =
    Connection_error string
  | Unique_failed string
  | Foreign_key_failed
  | Full
  | Bad_argument

record connection =
  cn_error :: "string option"
  cn_foreign_keys :: bool
  cn_rows :: "nat option"

record database =
  db_tables :: tables
  db_conns :: "nat \<Rightarrow> connection"

type_synonym 'r stmt = "bool \<Rightarrow> tables \<Rightarrow> sql_error + 'r \<times> tables"

text \<open>\<open>DB.Exec\<close>: the statement on the next connection; a failing statement changes nothing.\<close>

definition exec_stmt :: "'r stmt \<Rightarrow> database \<Rightarrow> (sql_error + 'r) \<times> database" where
  "exec_stmt st db =
     (let cn = db_conns db 0; db1 = db\<lparr>db_conns := (\<lambda>n. db_conns db (Suc n))\<rparr>
      in case cn_error cn of
           Some e \<Rightarrow> (Inl (Connection_error e), db1)
         | None \<Rightarrow>
             (case st (cn_foreign_keys cn) (db_tables db) of
                Inl e \<Rightarrow> (Inl e, db1)
              | Inr (r, t) \<Rightarrow> (Inr r, db1\<lparr>db_tables := t\<rparr>)))"

text \<open>
  \<open>DB.Query\<close>: the rows in order. \<open>rows.Next\<close> stops at an error, which the code does not ask
  for, so a query that breaks off gives the rows read so far.
\<close>

definition query_rows :: "(tables \<Rightarrow> 'r list) \<Rightarrow> database \<Rightarrow> (sql_error + 'r list) \<times> database" where
  "query_rows q db =
     (let cn = db_conns db 0; db1 = db\<lparr>db_conns := (\<lambda>n. db_conns db (Suc n))\<rparr>
      in case cn_error cn of
           Some e \<Rightarrow> (Inl (Connection_error e), db1)
         | None \<Rightarrow>
             (Inr (case cn_rows cn of None \<Rightarrow> q (db_tables db) | Some n \<Rightarrow> take n (q (db_tables db))), db1))"

text \<open>
  \<open>QueryRow().Scan\<close>: the first row, or none. A query that breaks off before the first row is an
  error here, because \<open>Scan\<close> reports it.
\<close>

definition query_row :: "(tables \<Rightarrow> 'r list) \<Rightarrow> database \<Rightarrow> (sql_error + 'r option) \<times> database" where
  "query_row q db =
     (let cn = db_conns db 0; db1 = db\<lparr>db_conns := (\<lambda>n. db_conns db (Suc n))\<rparr>
      in case cn_error cn of
           Some e \<Rightarrow> (Inl (Connection_error e), db1)
         | None \<Rightarrow>
             if cn_rows cn = Some 0 then (Inl (Connection_error ''interrupted''), db1)
             else (Inr (case q (db_tables db) of [] \<Rightarrow> None | r # _ \<Rightarrow> Some r), db1))"

text \<open>
  \<open>database/sql\<close> refuses a \<open>uint\<close> with the high bit set as an argument, before the statement
  runs.
\<close>

definition arg_ok :: "nat \<Rightarrow> bool" where
  "arg_ok n \<longleftrightarrow> n < 2 ^ 63"

definition ref_arg_ok :: "nat option \<Rightarrow> bool" where
  "ref_arg_ok r \<longleftrightarrow> (case r of None \<Rightarrow> True | Some n \<Rightarrow> arg_ok n)"

definition ref_ok :: "bool \<Rightarrow> tables \<Rightarrow> nat option \<Rightarrow> bool" where
  "ref_ok fk t r \<longleftrightarrow> (fk \<longrightarrow> (case r of None \<Rightarrow> True | Some c \<Rightarrow> c \<in> cr_id ` set (tb_configs t)))"

definition max_rowid :: nat where
  "max_rowid = 2 ^ 63 - 1"

section \<open>Statements on configurations\<close>

definition sql_insert_config :: "config_row \<Rightarrow> nat stmt" where
  "sql_insert_config row fk t =
     (if cr_name row \<in> cr_name ` set (tb_configs t) then Inl (Unique_failed ''configurations.name'')
      else if max_rowid \<le> tb_config_seq t then Inl Full
      else let i = Suc (tb_config_seq t)
           in Inr (i, t\<lparr>tb_configs := tb_configs t @ [row\<lparr>cr_id := i\<rparr>], tb_config_seq := i\<rparr>))"

text \<open>The columns the \<open>UPDATE\<close> sets: all but \<open>id\<close> and \<open>created_at\<close>.\<close>

definition set_config_columns :: "config_row \<Rightarrow> config_row \<Rightarrow> config_row" where
  "set_config_columns new old = new\<lparr>cr_id := cr_id old, cr_created := cr_created old\<rparr>"

definition sql_update_config :: "config_row \<Rightarrow> unit stmt" where
  "sql_update_config row fk t =
     (if \<not> arg_ok (cr_id row) then Inl Bad_argument
      else if cr_id row \<in> cr_id ` set (tb_configs t) \<and>
         (\<exists>c \<in> set (tb_configs t). cr_id c \<noteq> cr_id row \<and> cr_name c = cr_name row)
      then Inl (Unique_failed ''configurations.name'')
      else Inr ((), t\<lparr>tb_configs :=
        map (\<lambda>c. if cr_id c = cr_id row then set_config_columns row c else c) (tb_configs t)\<rparr>))"

text \<open>\<open>ON DELETE SET NULL\<close>, where foreign keys are enforced.\<close>

definition drop_ref :: "bool \<Rightarrow> nat \<Rightarrow> nat option \<Rightarrow> nat option" where
  "drop_ref fk i r = (if fk \<and> r = Some i then None else r)"

definition sql_delete_config :: "nat \<Rightarrow> unit stmt" where
  "sql_delete_config i fk t =
     (if \<not> arg_ok i then Inl Bad_argument
      else Inr ((), t\<lparr>tb_configs := filter (\<lambda>c. cr_id c \<noteq> i) (tb_configs t),
        tb_hosts := map (\<lambda>h. h\<lparr>ho_config := drop_ref fk i (ho_config h)\<rparr>) (tb_hosts t),
        tb_groups := map (\<lambda>g. g\<lparr>hg_config := drop_ref fk i (hg_config g)\<rparr>) (tb_groups t),
        tb_dynamic := map (\<lambda>g. g\<lparr>dg_config := drop_ref fk i (dg_config g)\<rparr>) (tb_dynamic t)\<rparr>))"

section \<open>Statements on hosts\<close>

definition sql_insert_host :: "host \<Rightarrow> nat stmt" where
  "sql_insert_host h fk t =
     (if \<not> ref_arg_ok (ho_config h) then Inl Bad_argument
      else if ho_hostname h \<in> ho_hostname ` set (tb_hosts t) then Inl (Unique_failed ''hosts.hostname'')
      else if ho_fingerprint h \<in> ho_fingerprint ` set (tb_hosts t)
      then Inl (Unique_failed ''hosts.certificate_fingerprint'')
      else if max_rowid \<le> tb_host_seq t then Inl Full
      else if \<not> ref_ok fk t (ho_config h) then Inl Foreign_key_failed
      else let i = Suc (tb_host_seq t)
           in Inr (i, t\<lparr>tb_hosts := tb_hosts t @ [h\<lparr>ho_id := i\<rparr>], tb_host_seq := i\<rparr>))"

text \<open>The columns the \<open>UPDATE\<close> of a host sets.\<close>

definition set_host_columns :: "host \<Rightarrow> host \<Rightarrow> host" where
  "set_host_columns new old =
     old\<lparr>ho_ip := ho_ip new, ho_last_seen := ho_last_seen new, ho_status := ho_status new,
         ho_config := ho_config new\<rparr>"

definition sql_update_host :: "host \<Rightarrow> unit stmt" where
  "sql_update_host h fk t =
     (if \<not> arg_ok (ho_id h) \<or> \<not> ref_arg_ok (ho_config h) then Inl Bad_argument
      else if ho_id h \<in> ho_id ` set (tb_hosts t) \<and> \<not> ref_ok fk t (ho_config h) then Inl Foreign_key_failed
      else Inr ((), t\<lparr>tb_hosts :=
        map (\<lambda>o'. if ho_id o' = ho_id h then set_host_columns h o' else o') (tb_hosts t)\<rparr>))"

text \<open>\<open>ON DELETE CASCADE\<close> on the members of the static groups.\<close>

definition sql_delete_host :: "nat \<Rightarrow> unit stmt" where
  "sql_delete_host i fk t =
     (if \<not> arg_ok i then Inl Bad_argument
      else Inr ((), t\<lparr>tb_hosts := filter (\<lambda>h. ho_id h \<noteq> i) (tb_hosts t),
        tb_members := (if fk then filter (\<lambda>m. fst m \<noteq> i) (tb_members t) else tb_members t)\<rparr>))"

text \<open>
  The driver stores times as text with their offset from UTC and SQLite compares the texts; here the times are compared, which is
  the same for times written with one offset.
\<close>

definition sql_update_last_seen :: "time \<Rightarrow> unit stmt" where
  "sql_update_last_seen cutoff fk t =
     Inr ((), t\<lparr>tb_hosts :=
       map (\<lambda>h. if ho_last_seen h < cutoff then h\<lparr>ho_last_seen := cutoff\<rparr> else h) (tb_hosts t)\<rparr>)"

section \<open>Statements on groups\<close>

definition sql_insert_group :: "host_group \<Rightarrow> nat stmt" where
  "sql_insert_group g fk t =
     (if \<not> ref_arg_ok (hg_config g) then Inl Bad_argument
      else if hg_name g \<in> hg_name ` set (tb_groups t) then Inl (Unique_failed ''host_groups.name'')
      else if max_rowid \<le> tb_group_seq t then Inl Full
      else if \<not> ref_ok fk t (hg_config g) then Inl Foreign_key_failed
      else let i = Suc (tb_group_seq t)
           in Inr (i, t\<lparr>tb_groups := tb_groups t @ [g\<lparr>hg_id := i\<rparr>], tb_group_seq := i\<rparr>))"

definition sql_update_group :: "host_group \<Rightarrow> unit stmt" where
  "sql_update_group g fk t =
     (if \<not> arg_ok (hg_id g) \<or> \<not> ref_arg_ok (hg_config g) then Inl Bad_argument
      else if hg_id g \<in> hg_id ` set (tb_groups t) \<and>
         (\<exists>x \<in> set (tb_groups t). hg_id x \<noteq> hg_id g \<and> hg_name x = hg_name g)
      then Inl (Unique_failed ''host_groups.name'')
      else if hg_id g \<in> hg_id ` set (tb_groups t) \<and> \<not> ref_ok fk t (hg_config g) then Inl Foreign_key_failed
      else Inr ((), t\<lparr>tb_groups :=
        map (\<lambda>x. if hg_id x = hg_id g then x\<lparr>hg_name := hg_name g, hg_config := hg_config g\<rparr> else x)
          (tb_groups t)\<rparr>))"

definition sql_delete_group :: "nat \<Rightarrow> unit stmt" where
  "sql_delete_group i fk t =
     (if \<not> arg_ok i then Inl Bad_argument
      else Inr ((), t\<lparr>tb_groups := filter (\<lambda>g. hg_id g \<noteq> i) (tb_groups t),
        tb_members := (if fk then filter (\<lambda>m. snd m \<noteq> i) (tb_members t) else tb_members t)\<rparr>))"

definition sql_insert_dynamic :: "dynamic_group \<Rightarrow> nat stmt" where
  "sql_insert_dynamic g fk t =
     (if \<not> ref_arg_ok (dg_config g) then Inl Bad_argument
      else if dg_name g \<in> dg_name ` set (tb_dynamic t) then Inl (Unique_failed ''dynamic_host_groups.name'')
      else if max_rowid \<le> tb_dynamic_seq t then Inl Full
      else if \<not> ref_ok fk t (dg_config g) then Inl Foreign_key_failed
      else let i = Suc (tb_dynamic_seq t)
           in Inr (i, t\<lparr>tb_dynamic := tb_dynamic t @ [g\<lparr>dg_id := i\<rparr>], tb_dynamic_seq := i\<rparr>))"

definition sql_update_dynamic :: "dynamic_group \<Rightarrow> unit stmt" where
  "sql_update_dynamic g fk t =
     (if \<not> arg_ok (dg_id g) \<or> \<not> ref_arg_ok (dg_config g) then Inl Bad_argument
      else if dg_id g \<in> dg_id ` set (tb_dynamic t) \<and>
         (\<exists>x \<in> set (tb_dynamic t). dg_id x \<noteq> dg_id g \<and> dg_name x = dg_name g)
      then Inl (Unique_failed ''dynamic_host_groups.name'')
      else if dg_id g \<in> dg_id ` set (tb_dynamic t) \<and> \<not> ref_ok fk t (dg_config g) then Inl Foreign_key_failed
      else Inr ((), t\<lparr>tb_dynamic :=
        map (\<lambda>x. if dg_id x = dg_id g
                 then x\<lparr>dg_name := dg_name g, dg_pattern := dg_pattern g, dg_config := dg_config g\<rparr> else x)
          (tb_dynamic t)\<rparr>))"

definition sql_delete_dynamic :: "nat \<Rightarrow> unit stmt" where
  "sql_delete_dynamic i fk t =
     (if \<not> arg_ok i then Inl Bad_argument
      else Inr ((), t\<lparr>tb_dynamic := filter (\<lambda>g. dg_id g \<noteq> i) (tb_dynamic t)\<rparr>))"

section \<open>Repositories\<close>

text \<open>The error a method returns: its own message around the error of the statement.\<close>

datatype repo_error = Repo_error string sql_error

definition wrap_error :: "string \<Rightarrow> (sql_error + 'r) \<times> database \<Rightarrow> (repo_error + 'r) \<times> database" where
  "wrap_error msg res = (case res of (Inl e, db) \<Rightarrow> (Inl (Repo_error msg e), db) | (Inr r, db) \<Rightarrow> (Inr r, db))"

definition get_by_id :: "string \<Rightarrow> nat \<Rightarrow> (tables \<Rightarrow> 'r list) \<Rightarrow> database \<Rightarrow> (repo_error + 'r option) \<times> database" where
  "get_by_id msg i q db =
     (if \<not> arg_ok i then (Inl (Repo_error msg Bad_argument), db) else wrap_error msg (query_row q db))"

definition bool_to_int :: "bool \<Rightarrow> int" where
  "bool_to_int b = (if b then 1 else 0)"

definition config_row_of :: "configuration \<Rightarrow> config_row" where
  "config_row_of c =
     \<lparr>cr_id = cf_id c, cr_name = cf_name c, cr_dns_servers = json_array (cf_dns_servers c),
      cr_whitelist = json_array (cf_whitelist c), cr_blacklist = json_array (cf_blacklist c),
      cr_default_ttl = cf_default_ttl c, cr_max_ttl = cf_max_ttl c, cr_min_ttl = cf_min_ttl c,
      cr_refresh_interval = cf_refresh_interval c, cr_restrict = bool_to_int (cf_restrict c),
      cr_created = cf_created c, cr_updated = cf_updated c\<rparr>"

definition config_of_row :: "config_row \<Rightarrow> configuration" where
  "config_of_row r =
     \<lparr>cf_id = cr_id r, cf_name = cr_name r, cf_dns_servers = json_slice (cr_dns_servers r),
      cf_whitelist = json_slice (cr_whitelist r), cf_blacklist = json_slice (cr_blacklist r),
      cf_default_ttl = cr_default_ttl r, cf_max_ttl = cr_max_ttl r, cf_min_ttl = cr_min_ttl r,
      cf_refresh_interval = cr_refresh_interval r, cf_restrict = (cr_restrict r \<noteq> 0),
      cf_created = cr_created r, cf_updated = cr_updated r\<rparr>"

subsection \<open>Configurations\<close>

text \<open>\<open>Create\<close> writes its times and its id into the argument, which it therefore returns.\<close>

definition config_create ::
  "configuration \<Rightarrow> database \<Rightarrow> clock \<Rightarrow> repo_error option \<times> configuration \<times> database \<times> clock" where
  "config_create c db ck =
     (let (t1, ck1) = now ck; (t2, ck2) = now ck1;
          c1 = c\<lparr>cf_created := t1, cf_updated := t2\<rparr>
      in case wrap_error ''failed to create configuration'' (exec_stmt (sql_insert_config (config_row_of c1)) db) of
           (Inl e, db1) \<Rightarrow> (Some e, c1, db1, ck2)
         | (Inr i, db1) \<Rightarrow> (None, c1\<lparr>cf_id := i\<rparr>, db1, ck2))"

definition config_get_by_id :: "nat \<Rightarrow> database \<Rightarrow> (repo_error + configuration option) \<times> database" where
  "config_get_by_id i db =
     get_by_id ''failed to get configuration'' i
       (\<lambda>t. map config_of_row (filter (\<lambda>r. cr_id r = i) (tb_configs t))) db"

definition config_get_by_name :: "string \<Rightarrow> database \<Rightarrow> (repo_error + configuration option) \<times> database" where
  "config_get_by_name nm db =
     wrap_error ''failed to get configuration''
       (query_row (\<lambda>t. map config_of_row (filter (\<lambda>r. cr_name r = nm) (tb_configs t))) db)"

definition config_list :: "database \<Rightarrow> (repo_error + configuration list) \<times> database" where
  "config_list db =
     wrap_error ''failed to list configurations''
       (query_rows (\<lambda>t. map config_of_row (sort_key cr_name (tb_configs t))) db)"

definition config_update ::
  "configuration \<Rightarrow> database \<Rightarrow> clock \<Rightarrow> repo_error option \<times> configuration \<times> database \<times> clock" where
  "config_update c db ck =
     (let (t, ck1) = now ck; c1 = c\<lparr>cf_updated := t\<rparr>
      in case wrap_error ''failed to update configuration'' (exec_stmt (sql_update_config (config_row_of c1)) db) of
           (Inl e, db1) \<Rightarrow> (Some e, c1, db1, ck1)
         | (Inr _, db1) \<Rightarrow> (None, c1, db1, ck1))"

definition exec_only :: "string \<Rightarrow> unit stmt \<Rightarrow> database \<Rightarrow> repo_error option \<times> database" where
  "exec_only msg st db =
     (case wrap_error msg (exec_stmt st db) of (Inl e, db1) \<Rightarrow> (Some e, db1) | (Inr _, db1) \<Rightarrow> (None, db1))"

definition config_delete :: "nat \<Rightarrow> database \<Rightarrow> repo_error option \<times> database" where
  "config_delete i db = exec_only ''failed to delete configuration'' (sql_delete_config i) db"

subsection \<open>Hosts\<close>

definition host_create :: "host \<Rightarrow> database \<Rightarrow> clock \<Rightarrow> repo_error option \<times> host \<times> database \<times> clock" where
  "host_create h db ck =
     (let (t1, ck1) = now ck; (t2, ck2) = now ck1;
          h1 = h\<lparr>ho_created := t1, ho_last_seen := t2\<rparr>
      in case wrap_error ''failed to create host'' (exec_stmt (sql_insert_host h1) db) of
           (Inl e, db1) \<Rightarrow> (Some e, h1, db1, ck2)
         | (Inr i, db1) \<Rightarrow> (None, h1\<lparr>ho_id := i\<rparr>, db1, ck2))"

definition host_get_by_id :: "nat \<Rightarrow> database \<Rightarrow> (repo_error + host option) \<times> database" where
  "host_get_by_id i db =
     get_by_id ''failed to get host'' i (\<lambda>t. filter (\<lambda>h. ho_id h = i) (tb_hosts t)) db"

definition host_get_by_hostname :: "string \<Rightarrow> database \<Rightarrow> (repo_error + host option) \<times> database" where
  "host_get_by_hostname nm db =
     wrap_error ''failed to get host'' (query_row (\<lambda>t. filter (\<lambda>h. ho_hostname h = nm) (tb_hosts t)) db)"

definition host_get_by_fingerprint :: "string \<Rightarrow> database \<Rightarrow> (repo_error + host option) \<times> database" where
  "host_get_by_fingerprint fp db =
     wrap_error ''failed to get host'' (query_row (\<lambda>t. filter (\<lambda>h. ho_fingerprint h = fp) (tb_hosts t)) db)"

definition host_list :: "database \<Rightarrow> (repo_error + host list) \<times> database" where
  "host_list db =
     wrap_error ''failed to list hosts'' (query_rows (\<lambda>t. sort_key ho_hostname (tb_hosts t)) db)"

definition host_update :: "host \<Rightarrow> database \<Rightarrow> clock \<Rightarrow> repo_error option \<times> host \<times> database \<times> clock" where
  "host_update h db ck =
     (let (t, ck1) = now ck; h1 = h\<lparr>ho_last_seen := t\<rparr>;
          (e, db1) = exec_only ''failed to update host'' (sql_update_host h1) db
      in (e, h1, db1, ck1))"

definition host_delete :: "nat \<Rightarrow> database \<Rightarrow> repo_error option \<times> database" where
  "host_delete i db = exec_only ''failed to delete host'' (sql_delete_host i) db"

definition host_list_unconfigured :: "database \<Rightarrow> (repo_error + host list) \<times> database" where
  "host_list_unconfigured db =
     wrap_error ''failed to list unconfigured hosts''
       (query_rows (\<lambda>t. sort_key ho_hostname (filter (\<lambda>h. ho_status h = ''unconfigured'') (tb_hosts t))) db)"

definition host_update_last_seen :: "time \<Rightarrow> database \<Rightarrow> repo_error option \<times> database" where
  "host_update_last_seen cutoff db =
     exec_only ''failed to update last_seen_at'' (sql_update_last_seen cutoff) db"

subsection \<open>Static groups\<close>

definition group_create :: "host_group \<Rightarrow> database \<Rightarrow> clock \<Rightarrow> repo_error option \<times> host_group \<times> database \<times> clock" where
  "group_create g db ck =
     (let (t, ck1) = now ck; g1 = g\<lparr>hg_created := t\<rparr>
      in case wrap_error ''failed to create host group'' (exec_stmt (sql_insert_group g1) db) of
           (Inl e, db1) \<Rightarrow> (Some e, g1, db1, ck1)
         | (Inr i, db1) \<Rightarrow> (None, g1\<lparr>hg_id := i\<rparr>, db1, ck1))"

definition group_get_by_id :: "nat \<Rightarrow> database \<Rightarrow> (repo_error + host_group option) \<times> database" where
  "group_get_by_id i db =
     get_by_id ''failed to get host group'' i (\<lambda>t. filter (\<lambda>g. hg_id g = i) (tb_groups t)) db"

definition group_get_by_name :: "string \<Rightarrow> database \<Rightarrow> (repo_error + host_group option) \<times> database" where
  "group_get_by_name nm db =
     wrap_error ''failed to get host group'' (query_row (\<lambda>t. filter (\<lambda>g. hg_name g = nm) (tb_groups t)) db)"

definition group_list :: "database \<Rightarrow> (repo_error + host_group list) \<times> database" where
  "group_list db =
     wrap_error ''failed to list host groups'' (query_rows (\<lambda>t. sort_key hg_name (tb_groups t)) db)"

definition group_update :: "host_group \<Rightarrow> database \<Rightarrow> repo_error option \<times> database" where
  "group_update g db = exec_only ''failed to update host group'' (sql_update_group g) db"

definition group_delete :: "nat \<Rightarrow> database \<Rightarrow> repo_error option \<times> database" where
  "group_delete i db = exec_only ''failed to delete host group'' (sql_delete_group i) db"

subsection \<open>Dynamic groups\<close>

definition dynamic_create :: "dynamic_group \<Rightarrow> database \<Rightarrow> clock \<Rightarrow> repo_error option \<times> dynamic_group \<times> database \<times> clock" where
  "dynamic_create g db ck =
     (let (t, ck1) = now ck; g1 = g\<lparr>dg_created := t\<rparr>
      in case wrap_error ''failed to create dynamic host group'' (exec_stmt (sql_insert_dynamic g1) db) of
           (Inl e, db1) \<Rightarrow> (Some e, g1, db1, ck1)
         | (Inr i, db1) \<Rightarrow> (None, g1\<lparr>dg_id := i\<rparr>, db1, ck1))"

definition dynamic_get_by_id :: "nat \<Rightarrow> database \<Rightarrow> (repo_error + dynamic_group option) \<times> database" where
  "dynamic_get_by_id i db =
     get_by_id ''failed to get dynamic host group'' i (\<lambda>t. filter (\<lambda>g. dg_id g = i) (tb_dynamic t)) db"

definition dynamic_get_by_name :: "string \<Rightarrow> database \<Rightarrow> (repo_error + dynamic_group option) \<times> database" where
  "dynamic_get_by_name nm db =
     wrap_error ''failed to get dynamic host group''
       (query_row (\<lambda>t. filter (\<lambda>g. dg_name g = nm) (tb_dynamic t)) db)"

definition dynamic_list :: "database \<Rightarrow> (repo_error + dynamic_group list) \<times> database" where
  "dynamic_list db =
     wrap_error ''failed to list dynamic host groups'' (query_rows (\<lambda>t. sort_key dg_name (tb_dynamic t)) db)"

definition dynamic_update :: "dynamic_group \<Rightarrow> database \<Rightarrow> repo_error option \<times> database" where
  "dynamic_update g db = exec_only ''failed to update dynamic host group'' (sql_update_dynamic g) db"

definition dynamic_delete :: "nat \<Rightarrow> database \<Rightarrow> repo_error option \<times> database" where
  "dynamic_delete i db = exec_only ''failed to delete dynamic host group'' (sql_delete_dynamic i) db"

end
