(* ===== verification/Config_Db_Facts.thy ===== *)
theory Config_Db_Facts
  imports Config_Db
begin

text \<open>
  What the repositories guarantee. The locale \<open>id_table\<close> is the contract the four tables with
  an \<open>AUTOINCREMENT\<close> key share: inserting appends a row under a fresh id, updating changes rows
  in place, deleting removes the rows of an id. Its lemmas give the uniqueness of ids and what a
  lookup finds. \<open>tables_ok\<close> and \<open>refs_ok\<close> are the invariants of the whole database.
\<close>

section \<open>Tables with a row id\<close>

definition keyed :: "('r \<Rightarrow> nat) \<Rightarrow> nat \<Rightarrow> 'r list \<Rightarrow> bool" where
  "keyed idf sq rs \<longleftrightarrow> distinct (map idf rs) \<and> (\<forall>r \<in> set rs. 0 < idf r \<and> idf r \<le> sq)"

lemma keyed_snoc:
  "keyed idf sq rs \<Longrightarrow> idf r = Suc sq \<Longrightarrow> keyed idf (Suc sq) (rs @ [r])"
  by (force simp: keyed_def)

lemma keyed_map:
  assumes "keyed idf sq rs" "\<And>x. idf (f x) = idf x"
  shows "keyed idf sq (map f rs)"
  using assms by (simp add: keyed_def o_def)

lemma keyed_filter: "keyed idf sq rs \<Longrightarrow> keyed idf sq (filter P rs)"
  by (simp add: keyed_def distinct_map_filter)

lemma keyed_lookup:
  assumes "keyed idf sq rs" "r \<in> set rs"
  shows "filter (\<lambda>x. idf x = idf r) rs = [r]"
  using assms
proof (induction rs)
  case (Cons x xs)
  show ?case
  proof (cases "r = x")
    case True
    then have "filter (\<lambda>y. idf y = idf r) xs = []"
      using Cons.prems(1) by (simp add: keyed_def filter_empty_conv) (metis imageI)
    with True show ?thesis by simp
  next
    case False
    then have "r \<in> set xs" "idf x \<noteq> idf r" using Cons.prems by (force simp: keyed_def)+
    with Cons show ?thesis by (simp add: keyed_def)
  qed
qed simp

locale id_table =
  fixes rows :: "tables \<Rightarrow> 'r list"
    and sq :: "tables \<Rightarrow> nat"
    and idf :: "'r \<Rightarrow> nat"
    and with_id :: "nat \<Rightarrow> 'r \<Rightarrow> 'r"
    and ins :: "'r \<Rightarrow> nat stmt"
    and upd :: "'r \<Rightarrow> unit stmt"
    and del :: "nat \<Rightarrow> unit stmt"
  assumes ins_rows: "ins r fk t = Inr (i, t') \<Longrightarrow>
      i = Suc (sq t) \<and> sq t' = i \<and> rows t' = rows t @ [with_id i r]"
    and idf_with_id: "idf (with_id i r) = i"
    and upd_rows: "upd r fk t = Inr (u, t') \<Longrightarrow>
      sq t' = sq t \<and> (\<exists>f. rows t' = map f (rows t) \<and> (\<forall>x. idf (f x) = idf x) \<and> (\<forall>x. idf x \<noteq> idf r \<longrightarrow> f x = x))"
    and del_rows: "del i fk t = Inr (u, t') \<Longrightarrow> sq t' = sq t \<and> rows t' = filter (\<lambda>x. idf x \<noteq> i) (rows t)"
begin

lemma keyed_ins: "ins r fk t = Inr (i, t') \<Longrightarrow> keyed idf (sq t) (rows t) \<Longrightarrow> keyed idf (sq t') (rows t')"
  using ins_rows [of r fk t i t'] keyed_snoc [of idf "sq t" "rows t" "with_id i r"] idf_with_id by simp

lemma keyed_upd: "upd r fk t = Inr (u, t') \<Longrightarrow> keyed idf (sq t) (rows t) \<Longrightarrow> keyed idf (sq t') (rows t')"
  using upd_rows [of r fk t u t'] keyed_map [of idf "sq t" "rows t"] by auto

lemma keyed_del: "del i fk t = Inr (u, t') \<Longrightarrow> keyed idf (sq t) (rows t) \<Longrightarrow> keyed idf (sq t') (rows t')"
  using del_rows [of i fk t u t'] keyed_filter [of idf "sq t" "rows t"] by auto

text \<open>A fresh id was never given before, so the lookup of the new row finds it alone.\<close>

lemma lookup_inserted:
  assumes "ins r fk t = Inr (i, t')" "keyed idf (sq t) (rows t)"
  shows "filter (\<lambda>x. idf x = i) (rows t') = [with_id i r]"
  using keyed_lookup [OF keyed_ins [OF assms], of "with_id i r"] ins_rows [OF assms(1)] idf_with_id by simp

lemma lookup_other:
  assumes "ins r fk t = Inr (i, t')" "j \<noteq> i"
  shows "filter (\<lambda>x. idf x = j) (rows t') = filter (\<lambda>x. idf x = j) (rows t)"
  using ins_rows [OF assms(1)] assms(2) idf_with_id by simp

lemma lookup_deleted:
  assumes "del i fk t = Inr (u, t')"
  shows "filter (\<lambda>x. idf x = i) (rows t') = []"
  using del_rows [OF assms] by (simp add: filter_empty_conv)

end

interpretation configs: id_table tb_configs tb_config_seq cr_id "\<lambda>i r. r\<lparr>cr_id := i\<rparr>"
    sql_insert_config sql_update_config sql_delete_config
proof (unfold_locales, goal_cases)
  case (3 r fk t u t')
  then show ?case
    by (intro conjI exI [of _ "\<lambda>c. if cr_id c = cr_id r then set_config_columns r c else c"])
      (auto simp: sql_update_config_def set_config_columns_def split: if_splits)
qed (auto simp: sql_insert_config_def sql_delete_config_def Let_def split: if_splits)

interpretation hosts: id_table tb_hosts tb_host_seq ho_id "\<lambda>i h. h\<lparr>ho_id := i\<rparr>"
    sql_insert_host sql_update_host sql_delete_host
proof (unfold_locales, goal_cases)
  case (3 h fk t u t')
  then show ?case
    by (intro conjI exI [of _ "\<lambda>x. if ho_id x = ho_id h then set_host_columns h x else x"])
      (auto simp: sql_update_host_def set_host_columns_def split: if_splits)
qed (auto simp: sql_insert_host_def sql_delete_host_def Let_def split: if_splits)

interpretation groups: id_table tb_groups tb_group_seq hg_id "\<lambda>i g. g\<lparr>hg_id := i\<rparr>"
    sql_insert_group sql_update_group sql_delete_group
proof (unfold_locales, goal_cases)
  case (3 g fk t u t')
  then show ?case
    by (intro conjI exI [of _ "\<lambda>x. if hg_id x = hg_id g
        then x\<lparr>hg_name := hg_name g, hg_config := hg_config g\<rparr> else x"])
      (auto simp: sql_update_group_def split: if_splits)
qed (auto simp: sql_insert_group_def sql_delete_group_def Let_def split: if_splits)

interpretation dynamics: id_table tb_dynamic tb_dynamic_seq dg_id "\<lambda>i g. g\<lparr>dg_id := i\<rparr>"
    sql_insert_dynamic sql_update_dynamic sql_delete_dynamic
proof (unfold_locales, goal_cases)
  case (3 g fk t u t')
  then show ?case
    by (intro conjI exI [of _ "\<lambda>x. if dg_id x = dg_id g
        then x\<lparr>dg_name := dg_name g, dg_pattern := dg_pattern g, dg_config := dg_config g\<rparr> else x"])
      (auto simp: sql_update_dynamic_def split: if_splits)
qed (auto simp: sql_insert_dynamic_def sql_delete_dynamic_def Let_def split: if_splits)

section \<open>The invariants of the database\<close>

text \<open>Every table has unique, fresh ids and its \<open>UNIQUE\<close> columns; the lists are stored as \<open>jsonArray\<close> writes them.\<close>

definition row_text_ok :: "config_row \<Rightarrow> bool" where
  "row_text_ok r \<longleftrightarrow> (\<exists>c. r = config_row_of c)"

definition tables_ok :: "tables \<Rightarrow> bool" where
  "tables_ok t \<longleftrightarrow>
     keyed cr_id (tb_config_seq t) (tb_configs t) \<and> tb_config_seq t \<le> max_rowid \<and>
     distinct (map cr_name (tb_configs t)) \<and> keyed ho_id (tb_host_seq t) (tb_hosts t) \<and> distinct (map ho_hostname (tb_hosts t)) \<and>
     distinct (map ho_fingerprint (tb_hosts t)) \<and>
     keyed hg_id (tb_group_seq t) (tb_groups t) \<and> distinct (map hg_name (tb_groups t)) \<and>
     keyed dg_id (tb_dynamic_seq t) (tb_dynamic t) \<and> distinct (map dg_name (tb_dynamic t)) \<and>
     (\<forall>r \<in> set (tb_configs t). row_text_ok r)"

text \<open>Every reference to a configuration names one that exists.\<close>

definition refs_ok :: "tables \<Rightarrow> bool" where
  "refs_ok t \<longleftrightarrow>
     (\<forall>h \<in> set (tb_hosts t). ref_ok True t (ho_config h)) \<and>
     (\<forall>g \<in> set (tb_groups t). ref_ok True t (hg_config g)) \<and>
     (\<forall>g \<in> set (tb_dynamic t). ref_ok True t (dg_config g))"

text \<open>An update in place keeps a column unique if the new value is used by no other row.\<close>

lemma distinct_map_update:
  assumes "distinct (map f rs)" "distinct (map idf rs)"
    and "\<And>x. x \<in> set rs \<Longrightarrow> idf x \<noteq> i \<Longrightarrow> f (g x) = f x"
    and "\<And>x y. x \<in> set rs \<Longrightarrow> y \<in> set rs \<Longrightarrow> idf x = i \<Longrightarrow> idf y \<noteq> i \<Longrightarrow> f (g x) \<noteq> f y"
  shows "distinct (map (\<lambda>x. f (g x)) rs)"
  using assms
proof (induction rs)
  case (Cons x xs)
  have "f (g x) \<noteq> f (g y)" if "y \<in> set xs" for y
  proof -
    have ne: "idf x \<noteq> idf y" "f x \<noteq> f y" using Cons.prems(1,2) that by force+
    show ?thesis
    proof (cases "idf x = i")
      case True
      with ne that Cons.prems(3) [of y] Cons.prems(4) [of x y] show ?thesis by simp
    next
      case False
      with ne that Cons.prems(3) [of x] Cons.prems(3) [of y] Cons.prems(4) [of y x]
      show ?thesis by (cases "idf y = i") auto
    qed
  qed
  moreover have "distinct (map (\<lambda>x. f (g x)) xs)" by (rule Cons.IH) (use Cons.prems in auto)
  ultimately show ?case by auto
qed simp

lemma row_text_columns:
  "row_text_ok r \<Longrightarrow> row_text_ok (r\<lparr>cr_id := i\<rparr>)"
  "row_text_ok r \<Longrightarrow> row_text_ok old \<Longrightarrow> row_text_ok (set_config_columns r old)"
proof -
  show "row_text_ok (r\<lparr>cr_id := i\<rparr>)" if r: "row_text_ok r"
  proof -
    obtain c where "r = config_row_of c" using r by (auto simp: row_text_ok_def)
    then have "r\<lparr>cr_id := i\<rparr> = config_row_of (c\<lparr>cf_id := i\<rparr>)" by (simp add: config_row_of_def)
    then show ?thesis unfolding row_text_ok_def by blast
  qed
  show "row_text_ok (set_config_columns r old)" if r: "row_text_ok r" "row_text_ok old"
  proof -
    obtain c where "r = config_row_of c" using r(1) by (auto simp: row_text_ok_def)
    then have "set_config_columns r old = config_row_of (c\<lparr>cf_id := cr_id old, cf_created := cr_created old\<rparr>)"
      by (simp add: config_row_of_def set_config_columns_def)
    then show ?thesis unfolding row_text_ok_def by blast
  qed
qed

subsection \<open>Every statement keeps the tables well-formed\<close>

lemmas tables_frame = sql_insert_config_def sql_update_config_def sql_delete_config_def sql_insert_host_def
  sql_update_host_def sql_delete_host_def sql_insert_group_def sql_update_group_def sql_delete_group_def
  sql_insert_dynamic_def sql_update_dynamic_def sql_delete_dynamic_def sql_update_last_seen_def Let_def

lemma insert_config_ok:
  assumes "sql_insert_config r fk t = Inr (i, t')" "tables_ok t" "row_text_ok r"
  shows "tables_ok t'"
  using assms configs.keyed_ins [OF assms(1)] row_text_columns(1)
  by (auto simp: tables_ok_def sql_insert_config_def Let_def split: if_splits)

lemma update_config_ok:
  assumes "sql_update_config r fk t = Inr (u, t')" "tables_ok t" "row_text_ok r"
  shows "tables_ok t'"
proof -
  let ?f = "\<lambda>c. if cr_id c = cr_id r then set_config_columns r c else c"
  have t': "t' = t\<lparr>tb_configs := map ?f (tb_configs t)\<rparr>"
    and free: "cr_id r \<in> cr_id ` set (tb_configs t) \<Longrightarrow>
      \<forall>c \<in> set (tb_configs t). cr_id c \<noteq> cr_id r \<longrightarrow> cr_name c \<noteq> cr_name r"
    using assms(1) by (auto simp: sql_update_config_def split: if_splits)
  have "distinct (map (\<lambda>x. cr_name (?f x)) (tb_configs t))"
  proof (rule distinct_map_update [of _ _ cr_id "cr_id r"])
    show "cr_name (?f x) \<noteq> cr_name y"
      if "x \<in> set (tb_configs t)" "y \<in> set (tb_configs t)" "cr_id x = cr_id r" "cr_id y \<noteq> cr_id r" for x y
    proof -
      have "cr_id r \<in> cr_id ` set (tb_configs t)" using that(1,3) by (metis imageI)
      with free that(2,4) have "cr_name y \<noteq> cr_name r" by blast
      with that(3) show ?thesis by (simp add: set_config_columns_def)
    qed
  qed (use assms(2) in \<open>auto simp: tables_ok_def keyed_def\<close>)
  then show ?thesis
    using assms(2,3) t' configs.keyed_upd [OF assms(1)] row_text_columns(2) [OF assms(3)]
    by (auto simp: tables_ok_def o_def)
qed

lemma row_text_ok_row: "row_text_ok (config_row_of c)"
  by (auto simp: row_text_ok_def)

lemmas insert_row_ok = insert_config_ok [OF _ _ row_text_ok_row]
lemmas update_row_ok = update_config_ok [OF _ _ row_text_ok_row]

lemma delete_config_ok:
  assumes "sql_delete_config i fk t = Inr (u, t')" "tables_ok t"
  shows "tables_ok t'"
  using assms configs.keyed_del [OF assms(1)]
  by (auto simp: tables_ok_def sql_delete_config_def keyed_def o_def distinct_map_filter split: if_splits)

lemma insert_host_ok:
  assumes "sql_insert_host h fk t = Inr (i, t')" "tables_ok t"
  shows "tables_ok t'"
  using assms hosts.keyed_ins [OF assms(1)]
  by (auto simp: tables_ok_def sql_insert_host_def Let_def split: if_splits)

lemma update_host_ok:
  assumes "sql_update_host h fk t = Inr (u, t')" "tables_ok t"
  shows "tables_ok t'"
proof -
  let ?f = "\<lambda>x. if ho_id x = ho_id h then set_host_columns h x else x"
  have t': "t' = t\<lparr>tb_hosts := map ?f (tb_hosts t)\<rparr>"
    using assms(1) by (auto simp: sql_update_host_def split: if_splits)
  have same: "map ho_hostname (map ?f (tb_hosts t)) = map ho_hostname (tb_hosts t)"
    "map ho_fingerprint (map ?f (tb_hosts t)) = map ho_fingerprint (tb_hosts t)"
    by (simp_all add: set_host_columns_def)
  have "distinct (map ho_hostname (map ?f (tb_hosts t)))" "distinct (map ho_fingerprint (map ?f (tb_hosts t)))"
    unfolding same using assms(2) by (simp_all add: tables_ok_def)
  then show ?thesis
    using assms(2) t' hosts.keyed_upd [OF assms(1)] unfolding tables_ok_def by simp
qed

lemma delete_host_ok:
  assumes "sql_delete_host i fk t = Inr (u, t')" "tables_ok t"
  shows "tables_ok t'"
  using assms hosts.keyed_del [OF assms(1)]
  by (auto simp: tables_ok_def sql_delete_host_def distinct_map_filter split: if_splits)

lemma update_last_seen_ok:
  assumes "sql_update_last_seen c fk t = Inr (u, t')" "tables_ok t"
  shows "tables_ok t'"
proof -
  let ?f = "\<lambda>h. if ho_last_seen h < c then h\<lparr>ho_last_seen := c\<rparr> else h"
  have t': "t' = t\<lparr>tb_hosts := map ?f (tb_hosts t)\<rparr>"
    using assms(1) by (simp add: sql_update_last_seen_def)
  have same: "map ho_hostname (map ?f (tb_hosts t)) = map ho_hostname (tb_hosts t)"
    "map ho_fingerprint (map ?f (tb_hosts t)) = map ho_fingerprint (tb_hosts t)"
    by simp_all
  have "keyed ho_id (tb_host_seq t) (map ?f (tb_hosts t))"
    using keyed_map [of ho_id "tb_host_seq t" "tb_hosts t" ?f] assms(2) by (simp add: tables_ok_def)
  moreover have "distinct (map ho_hostname (map ?f (tb_hosts t)))" "distinct (map ho_fingerprint (map ?f (tb_hosts t)))"
    unfolding same using assms(2) by (simp_all add: tables_ok_def)
  ultimately show ?thesis using assms(2) t' unfolding tables_ok_def by simp
qed

lemma insert_group_ok:
  assumes "sql_insert_group g fk t = Inr (i, t')" "tables_ok t"
  shows "tables_ok t'"
  using assms groups.keyed_ins [OF assms(1)]
  by (auto simp: tables_ok_def sql_insert_group_def Let_def split: if_splits)

lemma update_group_ok:
  assumes "sql_update_group g fk t = Inr (u, t')" "tables_ok t"
  shows "tables_ok t'"
proof -
  let ?f = "\<lambda>x. if hg_id x = hg_id g then x\<lparr>hg_name := hg_name g, hg_config := hg_config g\<rparr> else x"
  have t': "t' = t\<lparr>tb_groups := map ?f (tb_groups t)\<rparr>"
    and free: "hg_id g \<in> hg_id ` set (tb_groups t) \<Longrightarrow>
      \<forall>x \<in> set (tb_groups t). hg_id x \<noteq> hg_id g \<longrightarrow> hg_name x \<noteq> hg_name g"
    using assms(1) by (auto simp: sql_update_group_def split: if_splits)
  have "distinct (map (\<lambda>x. hg_name (?f x)) (tb_groups t))"
  proof (rule distinct_map_update [of _ _ hg_id "hg_id g"])
    show "hg_name (?f x) \<noteq> hg_name y"
      if "x \<in> set (tb_groups t)" "y \<in> set (tb_groups t)" "hg_id x = hg_id g" "hg_id y \<noteq> hg_id g" for x y
    proof -
      have "hg_id g \<in> hg_id ` set (tb_groups t)" using that(1,3) by (metis imageI)
      with free that(2,4) have "hg_name y \<noteq> hg_name g" by blast
      with that(3) show ?thesis by simp
    qed
  qed (use assms(2) in \<open>auto simp: tables_ok_def keyed_def\<close>)
  then show ?thesis
    using assms(2) t' groups.keyed_upd [OF assms(1)] unfolding tables_ok_def by (simp add: o_def)
qed

lemma delete_group_ok:
  assumes "sql_delete_group i fk t = Inr (u, t')" "tables_ok t"
  shows "tables_ok t'"
  using assms groups.keyed_del [OF assms(1)]
  by (auto simp: tables_ok_def sql_delete_group_def distinct_map_filter split: if_splits)

lemma insert_dynamic_ok:
  assumes "sql_insert_dynamic g fk t = Inr (i, t')" "tables_ok t"
  shows "tables_ok t'"
  using assms dynamics.keyed_ins [OF assms(1)]
  by (auto simp: tables_ok_def sql_insert_dynamic_def Let_def split: if_splits)

lemma update_dynamic_ok:
  assumes "sql_update_dynamic g fk t = Inr (u, t')" "tables_ok t"
  shows "tables_ok t'"
proof -
  let ?f = "\<lambda>x. if dg_id x = dg_id g
    then x\<lparr>dg_name := dg_name g, dg_pattern := dg_pattern g, dg_config := dg_config g\<rparr> else x"
  have t': "t' = t\<lparr>tb_dynamic := map ?f (tb_dynamic t)\<rparr>"
    and free: "dg_id g \<in> dg_id ` set (tb_dynamic t) \<Longrightarrow>
      \<forall>x \<in> set (tb_dynamic t). dg_id x \<noteq> dg_id g \<longrightarrow> dg_name x \<noteq> dg_name g"
    using assms(1) by (auto simp: sql_update_dynamic_def split: if_splits)
  have "distinct (map (\<lambda>x. dg_name (?f x)) (tb_dynamic t))"
  proof (rule distinct_map_update [of _ _ dg_id "dg_id g"])
    show "dg_name (?f x) \<noteq> dg_name y"
      if "x \<in> set (tb_dynamic t)" "y \<in> set (tb_dynamic t)" "dg_id x = dg_id g" "dg_id y \<noteq> dg_id g" for x y
    proof -
      have "dg_id g \<in> dg_id ` set (tb_dynamic t)" using that(1,3) by (metis imageI)
      with free that(2,4) have "dg_name y \<noteq> dg_name g" by blast
      with that(3) show ?thesis by simp
    qed
  qed (use assms(2) in \<open>auto simp: tables_ok_def keyed_def\<close>)
  then show ?thesis
    using assms(2) t' dynamics.keyed_upd [OF assms(1)] unfolding tables_ok_def by (simp add: o_def)
qed

lemma delete_dynamic_ok:
  assumes "sql_delete_dynamic i fk t = Inr (u, t')" "tables_ok t"
  shows "tables_ok t'"
  using assms dynamics.keyed_del [OF assms(1)]
  by (auto simp: tables_ok_def sql_delete_dynamic_def distinct_map_filter split: if_splits)

subsection \<open>With foreign keys enforced, every statement keeps the references valid\<close>

lemma ref_ok_iff: "ref_ok fk t r \<longleftrightarrow> (fk \<longrightarrow> (\<forall>c. r = Some c \<longrightarrow> c \<in> cr_id ` set (tb_configs t)))"
  by (cases r) (auto simp: ref_ok_def)

lemma insert_config_refs: "sql_insert_config r fk t = Inr (i, t') \<Longrightarrow> refs_ok t \<Longrightarrow> refs_ok t'"
  by (auto simp: refs_ok_def ref_ok_iff sql_insert_config_def Let_def split: if_splits)

lemma update_config_refs: "sql_update_config r fk t = Inr (u, t') \<Longrightarrow> refs_ok t \<Longrightarrow> refs_ok t'"
proof -
  assume u: "sql_update_config r fk t = Inr (u, t')" and ok: "refs_ok t"
  have same: "cr_id ` set (tb_configs t') = cr_id ` set (tb_configs t)"
    using configs.upd_rows [OF u] by (auto simp: image_image)
  have "tb_hosts t' = tb_hosts t" "tb_groups t' = tb_groups t" "tb_dynamic t' = tb_dynamic t"
    using u by (auto simp: sql_update_config_def split: if_splits)
  with ok same show "refs_ok t'" unfolding refs_ok_def ref_ok_iff by simp
qed

lemma delete_config_refs: "sql_delete_config i True t = Inr (u, t') \<Longrightarrow> refs_ok t \<Longrightarrow> refs_ok t'"
proof -
  assume d: "sql_delete_config i True t = Inr (u, t')" and ok: "refs_ok t"
  have keep: "ref_ok True t' (drop_ref True i r)" if "ref_ok True t r" for r
    using that configs.del_rows [OF d] by (auto simp: ref_ok_iff drop_ref_def)
  show "refs_ok t'"
    using d ok keep by (auto simp: refs_ok_def sql_delete_config_def split: if_splits)
qed

lemma insert_host_refs: "sql_insert_host h True t = Inr (i, t') \<Longrightarrow> refs_ok t \<Longrightarrow> refs_ok t'"
  by (auto simp: refs_ok_def ref_ok_iff tables_frame split: if_splits)

lemma update_host_refs:
  assumes "sql_update_host h True t = Inr (u, t')" "refs_ok t"
  shows "refs_ok t'"
proof -
  let ?f = "\<lambda>x. if ho_id x = ho_id h then set_host_columns h x else x"
  have t': "t' = t\<lparr>tb_hosts := map ?f (tb_hosts t)\<rparr>"
    and r: "ho_id h \<in> ho_id ` set (tb_hosts t) \<Longrightarrow> ref_ok True t (ho_config h)"
    using assms(1) by (auto simp: sql_update_host_def split: if_splits)
  have "ref_ok True t (ho_config (?f x))" if "x \<in> set (tb_hosts t)" for x
    using that assms(2) r by (auto simp: refs_ok_def set_host_columns_def) (metis imageI)
  then have "\<forall>x \<in> set (map ?f (tb_hosts t)). ref_ok True t (ho_config x)"
    by (simp only: set_map) blast
  then show ?thesis using assms(2) t' by (simp add: refs_ok_def ref_ok_iff)
qed

lemma other_host_refs:
  "sql_delete_host j fk t = Inr (u, t') \<Longrightarrow> refs_ok t \<Longrightarrow> refs_ok t'"
  "sql_update_last_seen c fk t = Inr (u, t') \<Longrightarrow> refs_ok t \<Longrightarrow> refs_ok t'"
  by (auto simp: refs_ok_def ref_ok_iff tables_frame split: if_splits)

lemma insert_group_refs: "sql_insert_group g True t = Inr (i, t') \<Longrightarrow> refs_ok t \<Longrightarrow> refs_ok t'"
  by (auto simp: refs_ok_def ref_ok_iff tables_frame split: if_splits)

lemma update_group_refs:
  assumes "sql_update_group g True t = Inr (u, t')" "refs_ok t"
  shows "refs_ok t'"
proof -
  let ?f = "\<lambda>x. if hg_id x = hg_id g then x\<lparr>hg_name := hg_name g, hg_config := hg_config g\<rparr> else x"
  have t': "t' = t\<lparr>tb_groups := map ?f (tb_groups t)\<rparr>"
    and r: "hg_id g \<in> hg_id ` set (tb_groups t) \<Longrightarrow> ref_ok True t (hg_config g)"
    using assms(1) by (auto simp: sql_update_group_def split: if_splits)
  have "ref_ok True t (hg_config (?f x))" if "x \<in> set (tb_groups t)" for x
    using that assms(2) r by (auto simp: refs_ok_def) (metis imageI)
  then have "\<forall>x \<in> set (map ?f (tb_groups t)). ref_ok True t (hg_config x)"
    by (simp only: set_map) blast
  then show ?thesis using assms(2) t' by (simp add: refs_ok_def ref_ok_iff)
qed

lemma delete_group_refs: "sql_delete_group j fk t = Inr (u, t') \<Longrightarrow> refs_ok t \<Longrightarrow> refs_ok t'"
  by (auto simp: refs_ok_def ref_ok_iff tables_frame split: if_splits)

lemma insert_dynamic_refs: "sql_insert_dynamic g True t = Inr (i, t') \<Longrightarrow> refs_ok t \<Longrightarrow> refs_ok t'"
  by (auto simp: refs_ok_def ref_ok_iff tables_frame split: if_splits)

lemma update_dynamic_refs:
  assumes "sql_update_dynamic g True t = Inr (u, t')" "refs_ok t"
  shows "refs_ok t'"
proof -
  let ?f = "\<lambda>x. if dg_id x = dg_id g
    then x\<lparr>dg_name := dg_name g, dg_pattern := dg_pattern g, dg_config := dg_config g\<rparr> else x"
  have t': "t' = t\<lparr>tb_dynamic := map ?f (tb_dynamic t)\<rparr>"
    and r: "dg_id g \<in> dg_id ` set (tb_dynamic t) \<Longrightarrow> ref_ok True t (dg_config g)"
    using assms(1) by (auto simp: sql_update_dynamic_def split: if_splits)
  have "ref_ok True t (dg_config (?f x))" if "x \<in> set (tb_dynamic t)" for x
    using that assms(2) r by (auto simp: refs_ok_def) (metis imageI)
  then have "\<forall>x \<in> set (map ?f (tb_dynamic t)). ref_ok True t (dg_config x)"
    by (simp only: set_map) blast
  then show ?thesis using assms(2) t' by (simp add: refs_ok_def ref_ok_iff)
qed

lemma delete_dynamic_refs: "sql_delete_dynamic j fk t = Inr (u, t') \<Longrightarrow> refs_ok t \<Longrightarrow> refs_ok t'"
  by (auto simp: refs_ok_def ref_ok_iff tables_frame split: if_splits)

section \<open>The database as a state machine\<close>

text \<open>One call of a repository's writing method, or one query.\<close>

inductive db_step :: "database \<Rightarrow> database \<Rightarrow> bool" where
  create_config: "config_create c db ck = (e, c', db', ck') \<Longrightarrow> db_step db db'"
| update_config: "config_update c db ck = (e, c', db', ck') \<Longrightarrow> db_step db db'"
| delete_config: "config_delete i db = (e, db') \<Longrightarrow> db_step db db'"
| create_host: "host_create h db ck = (e, h', db', ck') \<Longrightarrow> db_step db db'"
| update_host: "host_update h db ck = (e, h', db', ck') \<Longrightarrow> db_step db db'"
| delete_host: "host_delete i db = (e, db') \<Longrightarrow> db_step db db'"
| update_seen: "host_update_last_seen cutoff db = (e, db') \<Longrightarrow> db_step db db'"
| create_group: "group_create g db ck = (e, g', db', ck') \<Longrightarrow> db_step db db'"
| update_group: "group_update g db = (e, db') \<Longrightarrow> db_step db db'"
| delete_group: "group_delete i db = (e, db') \<Longrightarrow> db_step db db'"
| create_dynamic: "dynamic_create d db ck = (e, d', db', ck') \<Longrightarrow> db_step db db'"
| update_dynamic: "dynamic_update d db = (e, db') \<Longrightarrow> db_step db db'"
| delete_dynamic: "dynamic_delete i db = (e, db') \<Longrightarrow> db_step db db'"
| query: "db_step db (db\<lparr>db_conns := (\<lambda>n. db_conns db (Suc n))\<rparr>)"

text \<open>What a statement's run does: a failure leaves the tables, a success applies the statement.\<close>

lemma exec_stmt_cases:
  assumes "exec_stmt st db = (r, db')"
  obtains (failed) e where "r = Inl e" "db_tables db' = db_tables db" "db_conns db' = (\<lambda>n. db_conns db (Suc n))"
    | (ok) x t where "r = Inr x" "st (cn_foreign_keys (db_conns db 0)) (db_tables db) = Inr (x, t)"
      "db' = \<lparr>db_tables = t, db_conns = (\<lambda>n. db_conns db (Suc n))\<rparr>"
proof (cases "cn_error (db_conns db 0)")
  case None
  show ?thesis
  proof (cases "st (cn_foreign_keys (db_conns db 0)) (db_tables db)")
    case (Inl e)
    with None assms failed show ?thesis by (auto simp: exec_stmt_def Let_def)
  next
    case (Inr p)
    obtain x t where "p = (x, t)" by (rule prod.exhaust)
    with Inr None assms ok show ?thesis by (auto simp: exec_stmt_def Let_def)
  qed
next
  case (Some e)
  with assms failed show ?thesis by (auto simp: exec_stmt_def Let_def)
qed

lemma exec_only_db: "exec_only msg st db = (e, db') \<Longrightarrow> \<exists>r. exec_stmt st db = (r, db')"
  by (auto simp: exec_only_def wrap_error_def split: prod.splits sum.splits)

lemma exec_stmt_keeps:
  assumes "exec_stmt st db = (r, db')" "P (db_tables db)"
    and "\<And>x t. st (cn_foreign_keys (db_conns db 0)) (db_tables db) = Inr (x, t) \<Longrightarrow> P t"
  shows "P (db_tables db') \<and> db_conns db' = (\<lambda>n. db_conns db (Suc n))"
  using assms(1) by (cases rule: exec_stmt_cases) (use assms(2,3) in auto)

text \<open>Every step runs at most one statement, one of the thirteen.\<close>

lemma db_step_stmt:
  assumes "db_step db db'"
  obtains (query) "db_tables db' = db_tables db" "db_conns db' = (\<lambda>n. db_conns db (Suc n))"
    | (insert) st r where "exec_stmt (st :: nat stmt) db = (r, db')"
      "(\<exists>c. st = sql_insert_config (config_row_of c)) \<or> (\<exists>h. st = sql_insert_host h) \<or>
       (\<exists>g. st = sql_insert_group g) \<or> (\<exists>g. st = sql_insert_dynamic g)"
    | (change) st r where "exec_stmt (st :: unit stmt) db = (r, db')"
      "(\<exists>c. st = sql_update_config (config_row_of c)) \<or> (\<exists>i. st = sql_delete_config i) \<or>
       (\<exists>h. st = sql_update_host h) \<or> (\<exists>i. st = sql_delete_host i) \<or> (\<exists>t. st = sql_update_last_seen t) \<or>
       (\<exists>g. st = sql_update_group g) \<or> (\<exists>i. st = sql_delete_group i) \<or>
       (\<exists>g. st = sql_update_dynamic g) \<or> (\<exists>i. st = sql_delete_dynamic i)"
  using assms
proof cases
  case (create_config c ck e c' ck')
  then obtain r c1 where "exec_stmt (sql_insert_config (config_row_of c1)) db = (r, db')"
    by (auto simp: config_create_def wrap_error_def Let_def split: prod.splits sum.splits)
  then show ?thesis using insert by blast
next
  case (update_config c ck e c' ck')
  then obtain r c1 where "exec_stmt (sql_update_config (config_row_of c1)) db = (r, db')"
    by (auto simp: config_update_def wrap_error_def Let_def split: prod.splits sum.splits)
  then show ?thesis using change by blast
next
  case (create_host h ck e h' ck')
  then obtain r h1 where "exec_stmt (sql_insert_host h1) db = (r, db')"
    by (auto simp: host_create_def wrap_error_def Let_def split: prod.splits sum.splits)
  then show ?thesis using insert by blast
next
  case (update_host h ck e h' ck')
  then obtain e1 h1 where "exec_only ''failed to update host'' (sql_update_host h1) db = (e1, db')"
    by (auto simp: host_update_def Let_def split: prod.splits)
  then show ?thesis using change exec_only_db by blast
next
  case (create_group g ck e g' ck')
  then obtain r g1 where "exec_stmt (sql_insert_group g1) db = (r, db')"
    by (auto simp: group_create_def wrap_error_def Let_def split: prod.splits sum.splits)
  then show ?thesis using insert by blast
next
  case (create_dynamic g ck e g' ck')
  then obtain r g1 where "exec_stmt (sql_insert_dynamic g1) db = (r, db')"
    by (auto simp: dynamic_create_def wrap_error_def Let_def split: prod.splits sum.splits)
  then show ?thesis using insert by blast
next
  case query
  then show ?thesis using \<open>\<lbrakk>db_tables db' = db_tables db; db_conns db' = (\<lambda>n. db_conns db (Suc n))\<rbrakk> \<Longrightarrow> thesis\<close> by simp
next
  case (delete_config i e)
  then show ?thesis using change exec_only_db unfolding config_delete_def by blast
next
  case (delete_host i e)
  then show ?thesis using change exec_only_db unfolding host_delete_def by blast
next
  case (update_seen cutoff e)
  then show ?thesis using change exec_only_db unfolding host_update_last_seen_def by blast
next
  case (update_group g e)
  then show ?thesis using change exec_only_db unfolding group_update_def by blast
next
  case (delete_group i e)
  then show ?thesis using change exec_only_db unfolding group_delete_def by blast
next
  case (update_dynamic d e)
  then show ?thesis using change exec_only_db unfolding dynamic_update_def by blast
next
  case (delete_dynamic i e)
  then show ?thesis using change exec_only_db unfolding dynamic_delete_def by blast
qed

lemma db_step_ok:
  assumes "db_step db db'" "tables_ok (db_tables db)"
  shows "tables_ok (db_tables db') \<and> db_conns db' = (\<lambda>n. db_conns db (Suc n))"
  using assms(1)
proof (cases rule: db_step_stmt)
  case query
  with assms(2) show ?thesis by simp
next
  case (insert st r)
  show ?thesis
    by (rule exec_stmt_keeps [OF insert(1), of tables_ok, OF assms(2)])
      (use insert(2) assms(2) in \<open>auto dest: insert_row_ok insert_host_ok insert_group_ok insert_dynamic_ok\<close>)
next
  case (change st r)
  show ?thesis
    by (rule exec_stmt_keeps [OF change(1), of tables_ok, OF assms(2)])
      (use change(2) assms(2) in \<open>auto dest: update_row_ok delete_config_ok update_host_ok delete_host_ok update_last_seen_ok
          update_group_ok delete_group_ok update_dynamic_ok delete_dynamic_ok\<close>)
qed

lemma db_step_refs:
  assumes "db_step db db'" "refs_ok (db_tables db)" "cn_foreign_keys (db_conns db 0)"
  shows "refs_ok (db_tables db')"
  using assms(1)
proof (cases rule: db_step_stmt)
  case query
  with assms(2) show ?thesis by simp
next
  case (insert st r)
  have "refs_ok t" if "st True (db_tables db) = Inr (x, t)" for x t
    using insert(2) that assms(2)
    by (auto dest: insert_config_refs insert_host_refs insert_group_refs insert_dynamic_refs)
  then show ?thesis
    using exec_stmt_keeps [OF insert(1), of refs_ok, OF assms(2)] assms(3) by simp
next
  case (change st r)
  have "refs_ok t" if "st True (db_tables db) = Inr (x, t)" for x t
    using change(2) that assms(2)
    by (auto dest: update_config_refs delete_config_refs update_host_refs other_host_refs
        update_group_refs delete_group_refs update_dynamic_refs delete_dynamic_refs)
  then show ?thesis
    using exec_stmt_keeps [OF change(1), of refs_ok, OF assms(2)] assms(3) by simp
qed

text \<open>
  A run on a fresh database with the ids the \<open>Create\<close> methods have returned, the newest first: a
  successful \<open>Create\<close> adds its id, and any other call adds none.
\<close>

datatype given_id = Config_id nat | Host_id nat | Group_id nat | Dynamic_id nat

inductive db_run :: "(nat \<Rightarrow> connection) \<Rightarrow> given_id list \<Rightarrow> database \<Rightarrow> bool" for cns where
  fresh: "db_run cns [] \<lparr>db_tables = initialize, db_conns = cns\<rparr>"
| config_created: "db_run cns ids db \<Longrightarrow> config_create c db ck = (None, c', db', ck') \<Longrightarrow>
    db_run cns (Config_id (cf_id c') # ids) db'"
| host_created: "db_run cns ids db \<Longrightarrow> host_create h db ck = (None, h', db', ck') \<Longrightarrow>
    db_run cns (Host_id (ho_id h') # ids) db'"
| group_created: "db_run cns ids db \<Longrightarrow> group_create g db ck = (None, g', db', ck') \<Longrightarrow>
    db_run cns (Group_id (hg_id g') # ids) db'"
| dynamic_created: "db_run cns ids db \<Longrightarrow> dynamic_create d db ck = (None, d', db', ck') \<Longrightarrow>
    db_run cns (Dynamic_id (dg_id d') # ids) db'"
| call: "db_run cns ids db \<Longrightarrow> db_step db db' \<Longrightarrow> db_run cns ids db'"

fun was_given :: "tables \<Rightarrow> given_id \<Rightarrow> bool" where
  "was_given t (Config_id i) \<longleftrightarrow> i \<le> tb_config_seq t"
| "was_given t (Host_id i) \<longleftrightarrow> i \<le> tb_host_seq t"
| "was_given t (Group_id i) \<longleftrightarrow> i \<le> tb_group_seq t"
| "was_given t (Dynamic_id i) \<longleftrightarrow> i \<le> tb_dynamic_seq t"

definition seqs_grow :: "tables \<Rightarrow> tables \<Rightarrow> bool" where
  "seqs_grow t t' \<longleftrightarrow> tb_config_seq t \<le> tb_config_seq t' \<and> tb_host_seq t \<le> tb_host_seq t' \<and>
     tb_group_seq t \<le> tb_group_seq t' \<and> tb_dynamic_seq t \<le> tb_dynamic_seq t'"

lemma was_given_later: "was_given t i \<Longrightarrow> seqs_grow t t' \<Longrightarrow> was_given t' i"
  by (cases i) (auto simp: seqs_grow_def)

lemma db_step_seqs:
  assumes "db_step db db'"
  shows "seqs_grow (db_tables db) (db_tables db')"
  using assms
proof (cases rule: db_step_stmt)
  case query
  then show ?thesis by (simp add: seqs_grow_def)
next
  case (insert st r)
  show ?thesis
    by (rule exec_stmt_keeps [OF insert(1), of "seqs_grow (db_tables db)", THEN conjunct1])
      (use insert(2) in \<open>auto simp: seqs_grow_def tables_frame split: if_splits\<close>)
next
  case (change st r)
  show ?thesis
    by (rule exec_stmt_keeps [OF change(1), of "seqs_grow (db_tables db)", THEN conjunct1])
      (use change(2) in \<open>auto simp: seqs_grow_def tables_frame split: if_splits\<close>)
qed

text \<open>A new id is the first after its table's counter, and is counted.\<close>

lemma created_id:
  "config_create c db ck = (None, c', db', ck') \<Longrightarrow>
     \<not> was_given (db_tables db) (Config_id (cf_id c')) \<and> was_given (db_tables db') (Config_id (cf_id c'))"
  "host_create h db ck = (None, h', db', ck') \<Longrightarrow>
     \<not> was_given (db_tables db) (Host_id (ho_id h')) \<and> was_given (db_tables db') (Host_id (ho_id h'))"
  "group_create g db ck = (None, g', db', ck') \<Longrightarrow>
     \<not> was_given (db_tables db) (Group_id (hg_id g')) \<and> was_given (db_tables db') (Group_id (hg_id g'))"
  "dynamic_create d db ck = (None, d', db', ck') \<Longrightarrow>
     \<not> was_given (db_tables db) (Dynamic_id (dg_id d')) \<and> was_given (db_tables db') (Dynamic_id (dg_id d'))"
  by (auto simp: config_create_def host_create_def group_create_def dynamic_create_def wrap_error_def exec_stmt_def Let_def
      dest!: configs.ins_rows hosts.ins_rows groups.ins_rows dynamics.ins_rows
      split: prod.splits sum.splits option.splits)

section \<open>Properties\<close>

text \<open>
  C14. The \<open>UNIQUE\<close> constraints and the row ids: whatever sequence of repository calls has run on
  a fresh database, whichever of them failed, no two \<open>Create\<close>s of a table have returned the same id,
  also where the row was deleted in between, the rows of a table have different ids, none above its counter, names, host names and
  fingerprints are unique, and every stored list is one \<open>jsonArray\<close> has written. If every
  connection enforces foreign keys, every reference to a configuration names an existing one.
\<close>

theorem database_invariant:
  assumes "db_run cns ids db"
  shows "distinct ids \<and> tables_ok (db_tables db) \<and> ((\<forall>n. cn_foreign_keys (cns n)) \<longrightarrow> refs_ok (db_tables db))"
proof -
  let ?inv = "\<lambda>db. tables_ok (db_tables db) \<and> (\<exists>k. db_conns db = (\<lambda>n. cns (k + n))) \<and>
      ((\<forall>n. cn_foreign_keys (cns n)) \<longrightarrow> refs_ok (db_tables db))"
  have step: "?inv db2" if inv: "?inv db1" and st: "db_step db1 db2" for db1 db2
  proof -
    obtain k where k: "db_conns db1 = (\<lambda>n. cns (k + n))" using inv by blast
    then have "db_conns db2 = (\<lambda>n. cns (Suc k + n))"
      using db_step_ok [OF st] inv by simp
    then have "\<exists>k. db_conns db2 = (\<lambda>n. cns (k + n))" by blast
    moreover have "refs_ok (db_tables db2)" if "\<forall>n. cn_foreign_keys (cns n)"
      using db_step_refs [OF st] inv k that by simp
    ultimately show ?thesis using db_step_ok [OF st] inv by blast
  qed
  have new: "distinct (i # ids) \<and> (\<forall>j \<in> set (i # ids). was_given t' j)"
    if "distinct ids" "\<forall>j \<in> set ids. was_given t j" "seqs_grow t t'" "\<not> was_given t i \<and> was_given t' i" for i ids t t'
    using that was_given_later by auto
  have "?inv db \<and> distinct ids \<and> (\<forall>i \<in> set ids. was_given (db_tables db) i)"
    using assms
  proof (induction rule: db_run.induct)
    case fresh
    show ?case
      by (auto simp: tables_ok_def refs_ok_def initialize_def keyed_def max_rowid_def intro: exI [of _ 0])
  next
    case (config_created ids db c ck c' db' ck')
    have st: "db_step db db'" using config_created(2) by (rule db_step.create_config)
    show ?case using step [OF _ st] new [OF _ _ db_step_seqs [OF st] created_id(1) [OF config_created(2)]] config_created(3) by blast
  next
    case (host_created ids db h ck h' db' ck')
    have st: "db_step db db'" using host_created(2) by (rule db_step.create_host)
    show ?case using step [OF _ st] new [OF _ _ db_step_seqs [OF st] created_id(2) [OF host_created(2)]] host_created(3) by blast
  next
    case (group_created ids db g ck g' db' ck')
    have st: "db_step db db'" using group_created(2) by (rule db_step.create_group)
    show ?case using step [OF _ st] new [OF _ _ db_step_seqs [OF st] created_id(3) [OF group_created(2)]] group_created(3) by blast
  next
    case (dynamic_created ids db d ck d' db' ck')
    have st: "db_step db db'" using dynamic_created(2) by (rule db_step.create_dynamic)
    show ?case using step [OF _ st] new [OF _ _ db_step_seqs [OF st] created_id(4) [OF dynamic_created(2)]] dynamic_created(3) by blast
  next
    case (call ids db db')
    then show ?case using step [OF _ call(2)] was_given_later [OF _ db_step_seqs [OF call(2)]] by blast
  qed
  then show ?thesis by blast
qed

lemma config_created_row:
  assumes "config_create c db ck = (None, c', db', ck')" "tables_ok (db_tables db)"
  obtains i t where
    "sql_insert_config (config_row_of (c\<lparr>cf_created := ck 0, cf_updated := ck 1\<rparr>)) (cn_foreign_keys (db_conns db 0)) (db_tables db) = Inr (i, t)"
    "c' = c\<lparr>cf_created := ck 0, cf_updated := ck 1, cf_id := i\<rparr>" "db_tables db' = t" "arg_ok i"
    "filter (\<lambda>r. cr_id r = i) (tb_configs t) = [(config_row_of c')]" "config_of_row (config_row_of c') = c'"
proof -
  let ?c1 = "c\<lparr>cf_created := ck 0, cf_updated := ck 1\<rparr>"
  obtain i t where st: "sql_insert_config (config_row_of ?c1) (cn_foreign_keys (db_conns db 0)) (db_tables db) = Inr (i, t)"
    and c': "c' = ?c1\<lparr>cf_id := i\<rparr>" and t: "db_tables db' = t"
    using assms(1)
    by (auto simp: config_create_def wrap_error_def exec_stmt_def now_def Let_def
        split: prod.splits sum.splits option.splits)
  have k: "keyed cr_id (tb_config_seq (db_tables db)) (tb_configs (db_tables db))"
    using assms(2) by (simp add: tables_ok_def)
  have row: "(config_row_of ?c1)\<lparr>cr_id := i\<rparr> = config_row_of c'"
    by (simp add: c' config_row_of_def)
  have "arg_ok i"
    using st by (auto simp: sql_insert_config_def max_rowid_def arg_ok_def Let_def split: if_splits)
  moreover have "config_of_row (config_row_of c') = c'"
    by (simp add: config_of_row_def config_row_of_def json_slice_array bool_to_int_def)
  ultimately show ?thesis
    using that [OF st] configs.lookup_inserted [OF st k] c' t unfolding row by simp
qed

text \<open>
  A configuration comes back as it was stored: after a successful \<open>Create\<close>, \<open>GetByID\<close> of the
  id it returned gives the configuration \<open>Create\<close> left in its argument, lists and flag included,
  and no other id finds anything different than before.
\<close>

theorem configuration_round_trip:
  assumes "config_create c db ck = (None, c', db', ck')" "tables_ok (db_tables db)"
    and "cn_error (db_conns db' 0) = None" "cn_rows (db_conns db' 0) = None"
  shows "fst (config_get_by_id (cf_id c') db') = Inr (Some c') \<and>
    (\<forall>j. j \<noteq> cf_id c' \<longrightarrow> filter (\<lambda>r. cr_id r = j) (tb_configs (db_tables db')) =
       filter (\<lambda>r. cr_id r = j) (tb_configs (db_tables db)))"
proof -
  obtain i t where st: "sql_insert_config (config_row_of (c\<lparr>cf_created := ck 0, cf_updated := ck 1\<rparr>))
      (cn_foreign_keys (db_conns db 0)) (db_tables db) = Inr (i, t)"
    and c': "c' = c\<lparr>cf_created := ck 0, cf_updated := ck 1, cf_id := i\<rparr>"
    and "db_tables db' = t" "arg_ok i" "filter (\<lambda>r. cr_id r = i) (tb_configs t) = [config_row_of c']"
    "config_of_row (config_row_of c') = c'"
    using config_created_row [OF assms(1,2)] by metis
  moreover have "cf_id c' = i" by (simp add: c')
  ultimately show ?thesis
    using configs.lookup_other [OF st] assms(3,4)
    by (simp add: config_get_by_id_def get_by_id_def wrap_error_def query_row_def Let_def)
qed

text \<open>
  \<open>Update\<close> of a host stores the address, the status, the configuration and a fresh
  \<open>last_seen_at\<close>; the host name, the certificate fingerprint and the creation time in the
  database stay what they were, whatever the host it is given says.
\<close>

theorem host_update_keeps_fingerprint:
  assumes "host_update h db ck = (None, h', db', ck')" "tables_ok (db_tables db)"
    and "old \<in> set (tb_hosts (db_tables db))" "ho_id old = ho_id h"
  shows "filter (\<lambda>x. ho_id x = ho_id h) (tb_hosts (db_tables db')) =
    [old\<lparr>ho_ip := ho_ip h, ho_last_seen := ck 0, ho_status := ho_status h, ho_config := ho_config h\<rparr>]"
proof -
  let ?h1 = "h\<lparr>ho_last_seen := ck 0\<rparr>"
  let ?f = "\<lambda>x. if ho_id x = ho_id ?h1 then set_host_columns ?h1 x else x"
  obtain t where st: "sql_update_host ?h1 (cn_foreign_keys (db_conns db 0)) (db_tables db) = Inr ((), t)"
    and t: "db_tables db' = t"
    using assms(1)
    by (auto simp: host_update_def exec_only_def wrap_error_def exec_stmt_def now_def Let_def
        split: prod.splits sum.splits option.splits)
  have rows: "tb_hosts t = map ?f (tb_hosts (db_tables db))"
    using st by (auto simp: sql_update_host_def split: if_splits)
  have "filter (\<lambda>x. ho_id x = ho_id h) (tb_hosts t) =
      map ?f (filter (\<lambda>x. ho_id x = ho_id h) (tb_hosts (db_tables db)))"
    unfolding rows filter_map
    by (rule arg_cong [of _ _ "map ?f"], rule filter_cong) (simp_all add: set_host_columns_def)
  also have "filter (\<lambda>x. ho_id x = ho_id h) (tb_hosts (db_tables db)) = [old]"
    using keyed_lookup [of ho_id "tb_host_seq (db_tables db)" "tb_hosts (db_tables db)" old] assms(2-4)
    by (simp add: tables_ok_def)
  finally show ?thesis using t assms(4) by (simp add: set_host_columns_def)
qed

text \<open>
  C37. Deleting a configuration on a connection that enforces foreign keys clears the direct
  assignment of every host that had it; on a connection that does not, as the pool may hand out,
  every host keeps pointing at the configuration that is gone.
\<close>

theorem delete_configuration_assignments:
  assumes "config_delete i db = (None, db')" "h \<in> set (tb_hosts (db_tables db))" "ho_config h = Some i"
  shows "if cn_foreign_keys (db_conns db 0)
    then h\<lparr>ho_config := None\<rparr> \<in> set (tb_hosts (db_tables db')) \<and>
      (\<forall>x \<in> set (tb_hosts (db_tables db')). ho_config x \<noteq> Some i)
    else h \<in> set (tb_hosts (db_tables db')) \<and> fst (config_get_by_id i db') \<noteq> Inr (Some c)"
proof -
  obtain t where st: "sql_delete_config i (cn_foreign_keys (db_conns db 0)) (db_tables db) = Inr ((), t)"
    and t: "db_tables db' = t"
    using assms(1)
    by (auto simp: config_delete_def exec_only_def wrap_error_def exec_stmt_def Let_def
        split: prod.splits sum.splits option.splits)
  have hosts: "tb_hosts t = map (\<lambda>h. h\<lparr>ho_config := drop_ref (cn_foreign_keys (db_conns db 0)) i (ho_config h)\<rparr>)
      (tb_hosts (db_tables db))"
    using st by (auto simp: sql_delete_config_def split: if_splits)
  have gone: "filter (\<lambda>r. cr_id r = i) (tb_configs t) = []"
    by (rule configs.lookup_deleted [OF st])
  show ?thesis
  proof (cases "cn_foreign_keys (db_conns db 0)")
    case True
    with hosts t assms(2,3) show ?thesis by (force simp: drop_ref_def)
  next
    case False
    then have "tb_hosts t = tb_hosts (db_tables db)" using hosts by (simp add: drop_ref_def)
    with False t gone assms(2) show ?thesis
      by (auto simp: config_get_by_id_def get_by_id_def wrap_error_def query_row_def Let_def
          split: option.splits if_splits)
  qed
qed

section \<open>Witnesses\<close>

definition good_conn :: connection where
  "good_conn = \<lparr>cn_error = None, cn_foreign_keys = True, cn_rows = None\<rparr>"

definition demo_config :: configuration where
  "demo_config =
     \<lparr>cf_id = 1, cf_name = ''base'', cf_dns_servers = [''9.9.9.9''], cf_whitelist = [''example.com''],
      cf_blacklist = [], cf_default_ttl = 300, cf_max_ttl = 86400, cf_min_ttl = 5,
      cf_refresh_interval = 300, cf_restrict = True, cf_created = 1, cf_updated = 1\<rparr>"

definition demo_host :: host where
  "demo_host =
     \<lparr>ho_id = 1, ho_hostname = ''web-01'', ho_ip = ''10.0.0.1'', ho_last_seen = 2, ho_status = ''configured'',
      ho_fingerprint = ''aa'', ho_created = 2, ho_config = None\<rparr>"

definition demo_group :: dynamic_group where
  "demo_group = \<lparr>dg_id = 1, dg_name = ''web'', dg_pattern = ''web-*'', dg_config = Some 1, dg_created = 3\<rparr>"

definition demo_tables :: tables where
  "demo_tables =
     \<lparr>tb_configs = [config_row_of demo_config], tb_config_seq = 1, tb_hosts = [demo_host], tb_host_seq = 1,
      tb_groups = [], tb_group_seq = 0, tb_dynamic = [demo_group], tb_dynamic_seq = 1, tb_members = []\<rparr>"

definition demo_db :: database where
  "demo_db = \<lparr>db_tables = demo_tables, db_conns = (\<lambda>_. good_conn)\<rparr>"

lemma demo_row_id: "cr_id (config_row_of c) = cf_id c"
  by (simp add: config_row_of_def)

lemma demo_tables_ok: "tables_ok (db_tables demo_db)"
  by (simp add: demo_db_def demo_tables_def tables_ok_def keyed_def demo_row_id demo_config_def demo_host_def
      demo_group_def max_rowid_def row_text_ok_row [unfolded demo_config_def])

lemma demo_refs_ok: "refs_ok (db_tables demo_db)"
  by (simp add: demo_db_def demo_tables_def refs_ok_def ref_ok_iff demo_row_id demo_config_def demo_host_def
      demo_group_def)

definition fresh_db :: database where
  "fresh_db = \<lparr>db_tables = initialize, db_conns = (\<lambda>_. good_conn)\<rparr>"

text \<open>Create, delete, create again: the second row gets a new id.\<close>

lemma database_invariant_witness:
  "\<exists>ids db. db_run (\<lambda>_. good_conn) ids db \<and> Config_id 1 \<in> set ids \<and> tb_configs (db_tables db) = [] \<and>
     (\<forall>c ck c' db' ck'. config_create c db ck = (None, c', db', ck') \<longrightarrow> cf_id c' \<noteq> 1)"
proof -
  let ?c = "demo_config\<lparr>cf_created := 7, cf_updated := 7\<rparr>"
  let ?db1 = "\<lparr>db_tables = initialize\<lparr>tb_configs := [(config_row_of ?c)\<lparr>cr_id := 1\<rparr>], tb_config_seq := 1\<rparr>,
    db_conns = (\<lambda>_. good_conn)\<rparr>"
  have c: "config_create demo_config fresh_db (\<lambda>_. 7) = (None, ?c\<lparr>cf_id := 1\<rparr>, ?db1, \<lambda>_. 7)"
    by (simp add: config_create_def now_def exec_stmt_def fresh_db_def good_conn_def sql_insert_config_def
      initialize_def max_rowid_def wrap_error_def Let_def)
  have "db_run (\<lambda>_. good_conn) [] fresh_db" unfolding fresh_db_def by (rule db_run.fresh)
  from db_run.config_created [OF this c] have r1: "db_run (\<lambda>_. good_conn) [Config_id 1] ?db1" by simp
  obtain e db2 where d: "config_delete 1 ?db1 = (e, db2)" by fastforce
  then have "tb_configs (db_tables db2) = []"
    by (auto simp: config_delete_def exec_only_def exec_stmt_def good_conn_def sql_delete_config_def
        arg_ok_def wrap_error_def Let_def)
  moreover have r2: "db_run (\<lambda>_. good_conn) [Config_id 1] db2" using db_run.call [OF r1 db_step.delete_config [OF d]] .
  moreover have "cf_id c' \<noteq> 1" if "config_create c db2 ck = (None, c', db', ck')" for c ck c' db' ck'
    using database_invariant [OF db_run.config_created [OF r2 that]] by auto
  ultimately show ?thesis by (intro exI [of _ "[Config_id 1]"] exI [of _ db2]) auto
qed

lemma demo_created:
  "\<exists>c' t. config_create (demo_config\<lparr>cf_name := ''second''\<rparr>) demo_db (\<lambda>_. 7) =
     (None, c', \<lparr>db_tables = t, db_conns = (\<lambda>_. good_conn)\<rparr>, \<lambda>_. 7) \<and> cf_id c' = 2"
  by (simp add: config_create_def now_def exec_stmt_def demo_db_def good_conn_def sql_insert_config_def
      demo_tables_def config_row_of_def demo_config_def max_rowid_def wrap_error_def Let_def)

lemma configuration_round_trip_witness:
  "let (e, c', db', ck') = config_create (demo_config\<lparr>cf_name := ''second''\<rparr>) demo_db (\<lambda>_. 7)
   in e = None \<and> fst (config_get_by_id 2 db') = Inr (Some c')"
proof -
  obtain c' t where c: "config_create (demo_config\<lparr>cf_name := ''second''\<rparr>) demo_db (\<lambda>_. 7) =
     (None, c', \<lparr>db_tables = t, db_conns = (\<lambda>_. good_conn)\<rparr>, \<lambda>_. 7)" "cf_id c' = 2"
    using demo_created by blast
  show ?thesis
    using configuration_round_trip [OF c(1) demo_tables_ok] c by (simp add: good_conn_def)
qed

lemma host_update_keeps_fingerprint_witness:
  "\<exists>h' db' ck'. host_update (demo_host\<lparr>ho_fingerprint := ''bb'', ho_ip := ''10.0.0.2''\<rparr>) demo_db (\<lambda>_. 9) = (None, h', db', ck') \<and>
     tb_hosts (db_tables db') = [demo_host\<lparr>ho_ip := ''10.0.0.2'', ho_last_seen := 9\<rparr>]"
proof -
  let ?h = "demo_host\<lparr>ho_fingerprint := ''bb'', ho_ip := ''10.0.0.2''\<rparr>"
  let ?rows = "[demo_host\<lparr>ho_ip := ''10.0.0.2'', ho_last_seen := 9\<rparr>]"
  let ?db = "\<lparr>db_tables = demo_tables\<lparr>tb_hosts := ?rows\<rparr>, db_conns = (\<lambda>_. good_conn)\<rparr>"
  have u: "host_update ?h demo_db (\<lambda>_. 9) = (None, ?h\<lparr>ho_last_seen := 9\<rparr>, ?db, \<lambda>_. 9)"
    by (simp add: host_update_def exec_only_def exec_stmt_def now_def demo_db_def good_conn_def sql_update_host_def
        demo_tables_def demo_host_def arg_ok_def ref_arg_ok_def ref_ok_def set_host_columns_def wrap_error_def Let_def)
  have "filter (\<lambda>x. ho_id x = ho_id ?h) (tb_hosts (db_tables ?db)) = ?rows"
    using host_update_keeps_fingerprint [OF u demo_tables_ok, of demo_host]
    by (simp add: demo_db_def demo_tables_def demo_host_def)
  with u show ?thesis by (simp add: demo_host_def)
qed

lemma delete_configuration_assignments_witness:
  "let db = demo_db\<lparr>db_tables := demo_tables\<lparr>tb_hosts := [demo_host\<lparr>ho_config := Some 1\<rparr>]\<rparr>\<rparr>
   in demo_host\<lparr>ho_config := None\<rparr> \<in> set (tb_hosts (db_tables (snd (config_delete 1 db))))"
proof -
  let ?db = "demo_db\<lparr>db_tables := demo_tables\<lparr>tb_hosts := [demo_host\<lparr>ho_config := Some 1\<rparr>]\<rparr>\<rparr>"
  have "fst (config_delete 1 ?db) = None"
    by (simp add: config_delete_def exec_only_def exec_stmt_def demo_db_def good_conn_def sql_delete_config_def
        arg_ok_def wrap_error_def Let_def)
  then have d: "config_delete 1 ?db = (None, snd (config_delete 1 ?db))" by (metis prod.collapse)
  show ?thesis
    using delete_configuration_assignments [OF d, of "demo_host\<lparr>ho_config := Some 1\<rparr>"]
    by (simp add: demo_db_def good_conn_def)
qed

end
