(* ===== verification/Http_Common.thy ===== *)
theory Http_Common
  imports Config_Db_Facts
begin

text \<open>
  What the request handlers of the configuration server share (\<open>config-server/internal/api\<close>): the
  responses \<open>writeJSON\<close> and \<open>writeError\<close> write, the scanning of an id from the path, the lookup
  of the row a path names, and the check of a configuration id from a request body. The data of a
  response is a type of each group of handlers, so the results are polymorphic in it.
\<close>

type_synonym 'd http_result = "nat \<times> 'd api_response"

text \<open>The text of an error of a repository, as \<open>writeError\<close> puts it into the response.\<close>

fun sql_text :: "sql_error \<Rightarrow> string" where
  "sql_text (Connection_error e) = e"
| "sql_text (Unique_failed col) = ''UNIQUE constraint failed: '' @ col"
| "sql_text Foreign_key_failed = ''FOREIGN KEY constraint failed''"
| "sql_text Full = ''database or disk is full''"
| "sql_text Bad_argument = ''sql: uint64 values with high bit set are not supported''"

fun repo_text :: "repo_error \<Rightarrow> string" where
  "repo_text (Repo_error msg e) = msg @ '': '' @ sql_text e"

definition write_error :: "nat \<Rightarrow> string \<Rightarrow> string \<Rightarrow> 'd http_result" where
  "write_error code msg e = (code, new_error_response msg e)"

definition write_ok :: "nat \<Rightarrow> string \<Rightarrow> 'd option \<Rightarrow> 'd http_result" where
  "write_ok code msg d = (code, new_success_response msg d)"

section \<open>Reading the request\<close>

text \<open>
  \<open>fmt.Sscanf(s, "%d", &id)\<close> for a \<open>uint\<close>: blanks but no line break, then decimal digits; what
  follows them is ignored, a value of more than 64 bits is an error. The scanner has several
  wordings for a failure; the model keeps one.
\<close>

definition is_dec_digit :: "char \<Rightarrow> bool" where
  "is_dec_digit c \<longleftrightarrow> (48::nat) \<le> of_char c \<and> (of_char c :: nat) \<le> 57"

fun skip_blanks :: "string \<Rightarrow> string option" where
  "skip_blanks [] = Some []"
| "skip_blanks (c # cs) =
     (if c = CHR 0x0D \<and> (case cs of d # _ \<Rightarrow> d = CHR 0x0A | [] \<Rightarrow> False) then skip_blanks cs
      else if c = CHR 0x0A then None
      else if is_space c then skip_blanks cs
      else Some (c # cs))"

definition digits_value :: "string \<Rightarrow> nat" where
  "digits_value ds = foldl (\<lambda>n d. 10 * n + (of_char d - 48)) 0 ds"

definition sscan_uint :: "string \<Rightarrow> nat option" where
  "sscan_uint s =
     (case skip_blanks s of
        None \<Rightarrow> None
      | Some t \<Rightarrow>
          (let ds = takeWhile is_dec_digit t
           in if ds = [] \<or> 2 ^ 64 \<le> digits_value ds then None else Some (digits_value ds)))"

text \<open>\<open>strconv.ParseUint(s, 10, 32)\<close>; the wording of its errors is not modelled.\<close>

definition parse_uint32 :: "string \<Rightarrow> nat option" where
  "parse_uint32 s =
     (if s \<noteq> [] \<and> list_all is_dec_digit s \<and> digits_value s < 2 ^ 32 then Some (digits_value s) else None)"

section \<open>Rows named by a path\<close>

text \<open>The common start of the handlers of one row: scan the id, load the row, answer 404 without one.\<close>

definition with_row ::
  "string \<Rightarrow> string \<Rightarrow> string \<Rightarrow> (nat \<Rightarrow> database \<Rightarrow> (repo_error + 'r option) \<times> database) \<Rightarrow>
   string \<Rightarrow> database \<Rightarrow> ('d http_result + nat \<times> 'r) \<times> database" where
  "with_row bad failed missing get idstr db =
     (case sscan_uint idstr of
        None \<Rightarrow> (Inl (write_error 400 bad ''expected integer''), db)
      | Some i \<Rightarrow>
          (case get i db of
             (Inl e, db1) \<Rightarrow> (Inl (write_error 500 failed (repo_text e)), db1)
           | (Inr None, db1) \<Rightarrow> (Inl (write_error 404 missing []), db1)
           | (Inr (Some h), db1) \<Rightarrow> (Inr (i, h), db1)))"

text \<open>The check of a configuration id in a request body; 0 passes unchecked.\<close>

definition check_config :: "nat option \<Rightarrow> database \<Rightarrow> 'd http_result option \<times> database" where
  "check_config c db =
     (case c of
        None \<Rightarrow> (None, db)
      | Some i \<Rightarrow>
          if i = 0 then (None, db)
          else (case config_get_by_id i db of
                  (Inl e, db1) \<Rightarrow> (Some (write_error 500 ''Failed to validate config'' (repo_text e)), db1)
                | (Inr None, db1) \<Rightarrow> (Some (write_error 400 ''Config not found'' []), db1)
                | (Inr (Some _), db1) \<Rightarrow> (None, db1)))"

text \<open>A lookup whose failure the code passes over: the configuration, if there is one.\<close>

definition assigned_config :: "nat option \<Rightarrow> database \<Rightarrow> configuration option \<times> database" where
  "assigned_config r db =
     (case r of
        None \<Rightarrow> (None, db)
      | Some c \<Rightarrow>
          (case config_get_by_id c db of
             (Inr (Some cfg), db1) \<Rightarrow> (Some cfg, db1)
           | (_, db1) \<Rightarrow> (None, db1)))"

end
