(* ===== verification/Hostname_Pattern.thy ===== *)
theory Hostname_Pattern
  imports Go_Strings
begin

text \<open>
  \<open>matchHostnamePattern\<close> of \<open>config-server/internal/api/hosts.go\<close>. The code builds a regular
  expression as text: \<open>regexp.QuoteMeta\<close>, then \<open>strings.ReplaceAll\<close> of an escaped star by \<open>.*\<close>,
  then anchors. \<open>quote_meta\<close> and \<open>replace_all\<close> are those functions, and \<open>re_items\<close> reads the
  resulting text as \<open>regexp\<close> does: an escaped character and an ordinary one stand for
  themselves, \<open>.*\<close> for any characters but newlines. \<open>glob\<close> is what a pattern means.
\<close>

definition meta_chars :: "char list" where
  "meta_chars = [CHR 0x5C, CHR ''.'', CHR ''+'', CHR ''*'', CHR ''?'', CHR ''('', CHR '')'', CHR ''|'',
     CHR ''['', CHR '']'', CHR ''{'', CHR ''}'', CHR ''^'', CHR ''$'']"

definition quote_meta :: "string \<Rightarrow> string" where
  "quote_meta s = concat (map (\<lambda>c. if c \<in> set meta_chars then [CHR 0x5C, c] else [c]) s)"

text \<open>\<open>strings.ReplaceAll\<close> with a non-empty old text; \<open>n\<close> characters are still to be skipped.\<close>

fun replace_from :: "nat \<Rightarrow> string \<Rightarrow> string \<Rightarrow> string \<Rightarrow> string" where
  "replace_from n old new [] = []"
| "replace_from (Suc n) old new (c # cs) = replace_from n old new cs"
| "replace_from 0 old new (c # cs) =
     (if has_prefix (c # cs) old then new @ replace_from (length old - 1) old new cs
      else c # replace_from 0 old new cs)"

definition replace_all :: "string \<Rightarrow> string \<Rightarrow> string \<Rightarrow> string" where
  "replace_all s old new = replace_from 0 old new s"

datatype re_item = Lit char | Any_star

fun re_items :: "string \<Rightarrow> re_item list" where
  "re_items [] = []"
| "re_items (c # cs) =
     (if c = CHR 0x5C then (case cs of [] \<Rightarrow> [] | d # ds \<Rightarrow> Lit d # re_items ds)
      else if c = CHR ''.'' then (case cs of [] \<Rightarrow> [] | d # ds \<Rightarrow> Any_star # re_items ds)
      else Lit c # re_items cs)"

text \<open>An anchored match of the whole text.\<close>

fun re_match :: "re_item list \<Rightarrow> string \<Rightarrow> bool" where
  "re_match [] s = (s = [])"
| "re_match (Lit c # rs) [] = False"
| "re_match (Lit c # rs) (x # xs) = (x = c \<and> re_match rs xs)"
| "re_match (Any_star # rs) [] = re_match rs []"
| "re_match (Any_star # rs) (x # xs) =
     (re_match rs (x # xs) \<or> (x \<noteq> CHR 0x0A \<and> re_match (Any_star # rs) xs))"

definition match_hostname_pattern :: "string \<Rightarrow> string \<Rightarrow> bool" where
  "match_hostname_pattern hostname pattern =
     (if hostname = pattern then True
      else if re_match (re_items (replace_all (quote_meta pattern) [CHR 0x5C, CHR ''*''] ''.*'')) hostname
      then True
      else if has_suffix pattern ''*'' \<and> has_prefix hostname (trim_suffix pattern ''*'') then True
      else if has_prefix pattern ''*'' \<and> has_suffix hostname (trim_prefix pattern ''*'') then True
      else False)"

section \<open>The meaning of a pattern\<close>

fun glob :: "string \<Rightarrow> string \<Rightarrow> bool" where
  "glob [] s = (s = [])"
| "glob (p # ps) [] = (p = CHR ''*'' \<and> glob ps [])"
| "glob (p # ps) (x # xs) =
     (if p = CHR ''*'' then glob ps (x # xs) \<or> glob (p # ps) xs
      else x = p \<and> glob ps xs)"

definition token :: "char \<Rightarrow> re_item" where
  "token c = (if c = CHR ''*'' then Any_star else Lit c)"

lemma in_meta [simp]:
  "CHR ''*'' \<in> set meta_chars" "CHR 0x5C \<in> set meta_chars" "CHR ''.'' \<in> set meta_chars"
  by (simp_all add: meta_chars_def)

lemma quote_meta_simps:
  "quote_meta [] = []"
  "quote_meta (c # cs) = (if c \<in> set meta_chars then [CHR 0x5C, c] else [c]) @ quote_meta cs"
  by (simp_all add: quote_meta_def)

lemma quote_meta_head: "quote_meta s = CHR ''*'' # t \<Longrightarrow> False"
  by (cases s) (auto simp: quote_meta_simps split: if_splits)

text \<open>The built expression is the pattern, character by character.\<close>

definition star_text :: string where "star_text = [CHR 0x5C, CHR ''*'']"

lemma star_prefix: "has_prefix (d # s) star_text \<longleftrightarrow> d = CHR 0x5C \<and> (\<exists>t. s = CHR ''*'' # t)"
  by (cases s) (auto simp: has_prefix_def star_text_def)

lemma replace_star: "replace_from 0 star_text new (CHR 0x5C # CHR ''*'' # s) = new @ replace_from 0 star_text new s"
  by (simp add: star_text_def has_prefix_def)

lemma replace_skip:
  "\<not> has_prefix (c # s) star_text \<Longrightarrow> replace_from 0 star_text new (c # s) = c # replace_from 0 star_text new s"
  by simp

lemma no_star_prefix: "\<not> has_prefix (d # quote_meta p) star_text"
  unfolding star_prefix by (metis quote_meta_head)

lemma re_items_pattern:
  "re_items (replace_all (quote_meta p) [CHR 0x5C, CHR ''*''] ''.*'') = map token p"
proof -
  have "re_items (replace_from 0 star_text ''.*'' (quote_meta p)) = map token p"
  proof (induction p)
    case Nil
    show ?case by (simp add: quote_meta_simps)
  next
    case (Cons c p)
    consider "c = CHR ''*''" | "c \<in> set meta_chars" "c \<noteq> CHR ''*''" | "c \<notin> set meta_chars" by blast
    then show ?case
    proof cases
      case 1
      then have "quote_meta (c # p) = CHR 0x5C # CHR ''*'' # quote_meta p"
        by (simp add: quote_meta_simps)
      with 1 Cons.IH show ?thesis by (simp add: replace_star token_def del: replace_from.simps)
    next
      case 2
      then have q: "quote_meta (c # p) = CHR 0x5C # c # quote_meta p" by (simp add: quote_meta_simps)
      have "\<not> has_prefix (CHR 0x5C # c # quote_meta p) star_text" using 2(2) by (simp add: star_prefix)
      then have "replace_from 0 star_text ''.*'' (quote_meta (c # p)) =
          CHR 0x5C # c # replace_from 0 star_text ''.*'' (quote_meta p)"
        unfolding q using no_star_prefix by (metis replace_skip)
      with 2(2) Cons.IH show ?thesis by (simp add: token_def del: replace_from.simps)
    next
      case 3
      then have q: "quote_meta (c # p) = c # quote_meta p" by (simp add: quote_meta_simps)
      have "replace_from 0 star_text ''.*'' (quote_meta (c # p)) = c # replace_from 0 star_text ''.*'' (quote_meta p)"
        unfolding q using no_star_prefix by (rule replace_skip)
      moreover have "c \<noteq> CHR 0x5C" "c \<noteq> CHR ''.''" "c \<noteq> CHR ''*''" using 3 by auto
      ultimately show ?thesis using Cons.IH by (simp add: token_def del: replace_from.simps)
    qed
  qed
  then show ?thesis by (simp add: replace_all_def star_text_def)
qed

lemma re_match_glob: "CHR 0x0A \<notin> set s \<Longrightarrow> re_match (map token p) s = glob p s"
  by (induction p s rule: glob.induct) (auto simp: token_def)

lemma glob_refl: "glob p p"
proof (induction p)
  case (Cons c p)
  have "glob p xs \<Longrightarrow> glob (CHR ''*'' # p) xs" for xs by (cases xs) auto
  with Cons show ?case by auto
qed simp

lemma glob_star: "glob ps s \<Longrightarrow> glob (CHR ''*'' # ps) (r @ s)"
  by (induction r) (cases s, auto)

lemma glob_star_all: "glob ''*'' s"
  by (induction s) auto

lemma glob_append: "glob (p @ ''*'') (p @ s)"
proof (induction p)
  case (Cons c p)
  then show ?case
  proof (cases "c = CHR ''*''")
    case True
    then show ?thesis using glob_star [OF Cons.IH, of "[c]"] by simp
  qed simp
qed (simp add: glob_star_all)

lemma pattern_glob:
  assumes "CHR 0x0A \<notin> set hostname"
  shows "match_hostname_pattern hostname pattern \<longleftrightarrow> glob pattern hostname"
proof -
  have pre: "glob pattern hostname"
    if s: "has_suffix pattern ''*''" "has_prefix hostname (trim_suffix pattern ''*'')"
  proof -
    obtain p where p: "pattern = p @ ''*''" using s(1) by (auto simp: has_suffix_iff)
    obtain r where "hostname = p @ r" using s(2) unfolding p trim_suffix_append has_prefix_iff by blast
    then show ?thesis using p glob_append by simp
  qed
  have suf: "glob pattern hostname"
    if s: "has_prefix pattern ''*''" "has_suffix hostname (trim_prefix pattern ''*'')"
  proof -
    obtain p where p: "pattern = ''*'' @ p" using s(1) by (auto simp: has_prefix_iff)
    obtain r where "hostname = r @ p" using s(2) unfolding p trim_prefix_append has_suffix_iff by blast
    then show ?thesis using p glob_star [OF glob_refl] by simp
  qed
  show ?thesis
    unfolding match_hostname_pattern_def re_items_pattern re_match_glob [OF assms]
    using glob_refl pre suf by (cases "hostname = pattern") auto
qed

text \<open>
  C25. A host name without line breaks matches a pattern exactly if the pattern, with every \<open>*\<close>
  read as any text, is the host name; the regular expression the code assembles and the simpler
  tests it tries after it add nothing and miss nothing.
\<close>

theorem hostname_pattern_is_glob:
  assumes "CHR 0x0A \<notin> set hostname"
  shows "match_hostname_pattern hostname pattern \<longleftrightarrow> glob pattern hostname"
  by (rule pattern_glob [OF assms])

lemma hostname_pattern_is_glob_witness:
  "match_hostname_pattern ''web-01'' ''web-*'' \<and> \<not> match_hostname_pattern ''db.local'' ''*.example.com''"
  using hostname_pattern_is_glob [of "''web-01''" "''web-*''"]
    hostname_pattern_is_glob [of "''db.local''" "''*.example.com''"] by simp

end
