(* ===== verification/Host_Api.thy ===== *)
theory Host_Api
  imports Http_Common Hostname_Pattern
begin

text \<open>
  The host handlers of the configuration server (\<open>config-server/internal/api/hosts.go\<close>) and
  the resolution of a host's effective configuration. A handler is a function of the decoded
  request, the database and the clock; it gives the status code and the response written, and the
  messages handed to the WebSocket hub. What \<open>json.Decode\<close> made of the body is an argument: an
  error text or the request.
\<close>

datatype hub_event = Config_update nat nat | Send_config nat egress_config

record host_row =
  hr_host :: host
  hr_config_name :: "string option"
  hr_effective :: "(nat \<times> string) option"

datatype host_data =
    Host_data host
  | Hosts_data "host_row list" nat
  | Host_and_config host "configuration option"
  | Unconfigured_data nat
  | Configured_data nat string egress_config

record request_headers =
  rh_forwarded_for :: string
  rh_real_ip :: string
  rh_remote_addr :: string

text \<open>\<open>strings.LastIndex\<close> for one byte: the text before the last occurrence.\<close>

definition before_last :: "char \<Rightarrow> string \<Rightarrow> string option" where
  "before_last c s = (if c \<in> set s then Some (rev (tl (dropWhile (\<lambda>x. x \<noteq> c) (rev s)))) else None)"

definition get_client_ip :: "request_headers \<Rightarrow> string" where
  "get_client_ip rq =
     (if rh_forwarded_for rq \<noteq> [] then trim_space (hd (split_on CHR '','' (rh_forwarded_for rq)))
      else if rh_real_ip rq \<noteq> [] then rh_real_ip rq
      else case before_last CHR '':'' (rh_remote_addr rq) of
             Some a \<Rightarrow> a
           | None \<Rightarrow> rh_remote_addr rq)"

definition known_status :: "string \<Rightarrow> bool" where
  "known_status s \<longleftrightarrow> s = ''unconfigured'' \<or> s = ''configured'' \<or> s = ''error''"

section \<open>Registration\<close>

record register_request =
  rr_hostname :: string
  rr_ip :: string
  rr_fingerprint :: string
  rr_status :: string

text \<open>
  The check of the address: \<open>filepath.Match\<close> gives an error only for a malformed pattern, and
  the pattern is a well-formed constant.
\<close>

definition match_reports_error :: "string \<Rightarrow> bool" where
  "match_reports_error ip = False"

definition register_host ::
  "request_headers \<Rightarrow> string + register_request \<Rightarrow> database \<Rightarrow> clock \<Rightarrow> host_data http_result \<times> database \<times> clock" where
  "register_host hdr body db ck =
     (case body of
        Inl e \<Rightarrow> (write_error 400 ''Invalid request body'' e, db, ck)
      | Inr rq \<Rightarrow>
          if rr_hostname rq = [] then (write_error 400 ''hostname is required'' [], db, ck)
          else if 255 < length (rr_hostname rq) then
            (write_error 400 ''hostname too long (max 255 chars)'' [], db, ck)
          else
            (let status = (if rr_status rq = [] then ''unconfigured'' else rr_status rq)
             in if status \<noteq> [] \<and> \<not> known_status status then (write_error 400 ''invalid status'' [], db, ck)
                else if rr_ip rq \<noteq> [] \<and> match_reports_error (rr_ip rq) \<and>
                  \<not> contains_str (rr_ip rq) '':'' \<and> \<not> contains_str (rr_ip rq) ''.'' then
                  (write_error 400 ''invalid IP address'' [], db, ck)
                else
                  (let ip = (if rr_ip rq \<noteq> [] then rr_ip rq else get_client_ip hdr);
                       fp = (if rr_fingerprint rq = [] then ''placeholder-'' @ rr_hostname rq
                             else rr_fingerprint rq)
                   in case host_get_by_hostname (rr_hostname rq) db of
                        (Inl e, db1) \<Rightarrow> (write_error 500 ''Failed to check existing host'' (repo_text e), db1, ck)
                      | (Inr (Some old), db1) \<Rightarrow>
                          (let (t, ck1) = now ck;
                               h = old\<lparr>ho_ip := ip, ho_last_seen := t, ho_status := status,
                                       ho_fingerprint := (if fp \<noteq> [] then fp else ho_fingerprint old)\<rparr>
                           in case host_update h db1 ck1 of
                                (Some e, _, db2, ck2) \<Rightarrow>
                                  (write_error 500 ''Failed to update existing host'' (repo_text e), db2, ck2)
                              | (None, h', db2, ck2) \<Rightarrow>
                                  (write_ok 200 ''Host already registered'' (Some (Host_data h')), db2, ck2))
                      | (Inr None, db1) \<Rightarrow>
                          (let (t, ck1) = now ck;
                               h = \<lparr>ho_id = 0, ho_hostname = rr_hostname rq, ho_ip = ip, ho_last_seen = t,
                                    ho_status = status, ho_fingerprint = fp, ho_created = 0, ho_config = None\<rparr>
                           in case host_create h db1 ck1 of
                                (Some e, _, db2, ck2) \<Rightarrow>
                                  (write_error 500 ''Failed to register host'' (repo_text e), db2, ck2)
                              | (None, h', db2, ck2) \<Rightarrow>
                                  (write_ok 201 ''Host registered successfully'' (Some (Host_data h')), db2, ck2)))))"

section \<open>The effective configuration\<close>

definition config_from_static_groups :: "host \<Rightarrow> database \<Rightarrow> (repo_error + configuration option) \<times> database" where
  "config_from_static_groups h db = (Inr None, db)"

fun first_matching_group :: "string \<Rightarrow> dynamic_group list \<Rightarrow> nat option" where
  "first_matching_group nm [] = None"
| "first_matching_group nm (g # gs) =
     (case dg_config g of
        None \<Rightarrow> first_matching_group nm gs
      | Some c \<Rightarrow> if match_hostname_pattern nm (dg_pattern g) then Some c else first_matching_group nm gs)"

definition config_from_dynamic_groups :: "host \<Rightarrow> database \<Rightarrow> (repo_error + configuration option) \<times> database" where
  "config_from_dynamic_groups h db =
     (case dynamic_list db of
        (Inl e, db1) \<Rightarrow> (Inl e, db1)
      | (Inr gs, db1) \<Rightarrow>
          (case first_matching_group (ho_hostname h) gs of
             Some c \<Rightarrow> config_get_by_id c db1
           | None \<Rightarrow> (Inr None, db1)))"

definition host_effective_config :: "host \<Rightarrow> database \<Rightarrow> (repo_error + configuration option) \<times> database" where
  "host_effective_config h db =
     (case ho_config h of
        Some c \<Rightarrow> config_get_by_id c db
      | None \<Rightarrow>
          (case config_from_static_groups h db of
             (Inl e, db1) \<Rightarrow> (Inl e, db1)
           | (Inr (Some c), db1) \<Rightarrow> (Inr (Some c), db1)
           | (Inr None, db1) \<Rightarrow>
               (case config_from_dynamic_groups h db1 of
                  (Inl e, db2) \<Rightarrow> (Inl e, db2)
                | (Inr (Some c), db2) \<Rightarrow> (Inr (Some c), db2)
                | (Inr None, db2) \<Rightarrow> (Inr None, db2))))"

section \<open>Listing and reading hosts\<close>

fun host_rows :: "host list \<Rightarrow> database \<Rightarrow> host_row list \<times> database" where
  "host_rows [] db = ([], db)"
| "host_rows (h # hs) db =
     (let (nm, db1) =
            (case ho_config h of
               None \<Rightarrow> (None, db)
             | Some c \<Rightarrow>
                 (case config_get_by_id c db of
                    (Inr (Some cfg), db1) \<Rightarrow> (Some (cf_name cfg), db1)
                  | (_, db1) \<Rightarrow> (None, db1)));
          (eff, db2) =
            (case host_effective_config h db1 of
               (Inr (Some cfg), db2) \<Rightarrow> (Some (cf_id cfg, cf_name cfg), db2)
             | (_, db2) \<Rightarrow> (None, db2));
          (rest, db3) = host_rows hs db2
      in (\<lparr>hr_host = h, hr_config_name = nm, hr_effective = eff\<rparr> # rest, db3))"

definition host_filter :: "string \<Rightarrow> string \<Rightarrow> host \<Rightarrow> bool" where
  "host_filter status nm h \<longleftrightarrow>
     \<not> (status \<noteq> [] \<and> ho_status h \<noteq> status) \<and> \<not> (nm \<noteq> [] \<and> \<not> contains_str (ho_hostname h) nm)"

definition list_hosts :: "string \<Rightarrow> string \<Rightarrow> database \<Rightarrow> host_data http_result \<times> database" where
  "list_hosts status nm db =
     (case host_list db of
        (Inl e, db1) \<Rightarrow> (write_error 500 ''Failed to list hosts'' (repo_text e), db1)
      | (Inr hs, db1) \<Rightarrow>
          (let fs = filter (host_filter status nm) hs; (rows, db2) = host_rows fs db1
           in (write_ok 200 ''Hosts listed successfully'' (Some (Hosts_data rows (length fs))), db2)))"

text \<open>The common start of the handlers of one host: scan the id, load the host.\<close>

definition with_host ::
  "string \<Rightarrow> database \<Rightarrow> (host_data http_result + nat \<times> host) \<times> database" where
  "with_host =
     with_row ''Invalid host ID'' ''Failed to get host'' ''Host not found'' host_get_by_id"

definition get_host :: "string \<Rightarrow> database \<Rightarrow> host_data http_result \<times> database" where
  "get_host idstr db =
     (case with_host idstr db of
        (Inl r, db1) \<Rightarrow> (r, db1)
      | (Inr (i, h), db1) \<Rightarrow>
          (let (res, db2) = host_effective_config h db1;
               cfg = (case res of Inr c \<Rightarrow> c | Inl _ \<Rightarrow> None)
           in (write_ok 200 ''Host retrieved successfully'' (Some (Host_and_config h cfg)), db2)))"

definition get_host_configuration :: "string \<Rightarrow> database \<Rightarrow> host_data http_result \<times> database" where
  "get_host_configuration idstr db =
     (case with_host idstr db of
        (Inl r, db1) \<Rightarrow> (r, db1)
      | (Inr (i, h), db1) \<Rightarrow>
          (case host_effective_config h db1 of
             (Inl e, db2) \<Rightarrow> (write_error 500 ''Failed to get host configuration'' (repo_text e), db2)
           | (Inr None, db2) \<Rightarrow>
               (write_ok 200 ''Host has no configuration'' (Some (Unconfigured_data (ho_id h))), db2)
           | (Inr (Some c), db2) \<Rightarrow>
               (write_ok 200 ''Host configuration retrieved''
                  (Some (Configured_data (ho_id h) (ho_hostname h) (convert_to_egress_config c))), db2)))"

definition delete_host_handler :: "string \<Rightarrow> database \<Rightarrow> host_data http_result \<times> database" where
  "delete_host_handler idstr db =
     (case with_host idstr db of
        (Inl r, db1) \<Rightarrow> (r, db1)
      | (Inr (i, h), db1) \<Rightarrow>
          (case host_delete i db1 of
             (Some e, db2) \<Rightarrow> (write_error 500 ''Failed to delete host'' (repo_text e), db2)
           | (None, db2) \<Rightarrow> (write_ok 200 ''Host deleted successfully'' None, db2)))"

section \<open>Updating a host\<close>

record update_request =
  uq_ip :: "string option"
  uq_status :: "string option"
  uq_fingerprint :: "string option"
  uq_config :: "nat option"

text \<open>The assignments from the request up to the check of the configuration.\<close>

definition apply_update :: "update_request \<Rightarrow> host \<Rightarrow> host" where
  "apply_update rq h =
     h\<lparr>ho_ip := (case uq_ip rq of Some v \<Rightarrow> v | None \<Rightarrow> ho_ip h),
       ho_status := (case uq_status rq of Some v \<Rightarrow> v | None \<Rightarrow> ho_status h),
       ho_fingerprint := (case uq_fingerprint rq of Some v \<Rightarrow> v | None \<Rightarrow> ho_fingerprint h)\<rparr>"

text \<open>The messages to the hub after a successful update.\<close>

definition notify_host :: "nat \<Rightarrow> host \<Rightarrow> database \<Rightarrow> hub_event list \<times> database" where
  "notify_host i h db =
     (case ho_config h of
        None \<Rightarrow> ([], db)
      | Some c \<Rightarrow>
          (case config_get_by_id c db of
             (Inr (Some cfg), db1) \<Rightarrow>
               ([Config_update i c, Send_config i (convert_to_egress_config cfg)], db1)
           | (_, db1) \<Rightarrow> ([Config_update i c], db1)))"

definition update_host_handler ::
  "string \<Rightarrow> string + update_request \<Rightarrow> database \<Rightarrow> clock \<Rightarrow> host_data http_result \<times> hub_event list \<times> database \<times> clock" where
  "update_host_handler idstr body db ck =
     (case with_host idstr db of
        (Inl r, db1) \<Rightarrow> (r, [], db1, ck)
      | (Inr (i, h), db1) \<Rightarrow>
          (case body of
             Inl e \<Rightarrow> (write_error 400 ''Invalid request body'' e, [], db1, ck)
           | Inr rq \<Rightarrow>
               if (case uq_status rq of Some s \<Rightarrow> s \<noteq> [] \<and> \<not> known_status s | None \<Rightarrow> False)
               then (write_error 400 ''invalid status'' [], [], db1, ck)
               else
                 (case check_config (uq_config rq) db1 of
                    (Some r, db2) \<Rightarrow> (r, [], db2, ck)
                  | (None, db2) \<Rightarrow>
                      (let h1 = apply_update rq h;
                           h2 = (case uq_config rq of Some c \<Rightarrow> h1\<lparr>ho_config := Some c\<rparr> | None \<Rightarrow> h1)
                       in case host_update h2 db2 ck of
                            (Some e, _, db3, ck1) \<Rightarrow>
                              (write_error 500 ''Failed to update host'' (repo_text e), [], db3, ck1)
                          | (None, h3, db3, ck1) \<Rightarrow>
                              (let (evs, db4) = notify_host i h3 db3
                               in (write_ok 200 ''Host updated successfully'' (Some (Host_data h3)), evs, db4, ck1))))))"

end
