(* ===== verification/Host_Api_Facts.thy ===== *)
theory Host_Api_Facts
  imports Host_Api
begin

text \<open>
  What the host handlers guarantee: which configuration is effective for a host, what a
  registration and an update store and answer, and that an error response has changed nothing.
\<close>

section \<open>Queries on a healthy database\<close>

text \<open>No connection fails and no query breaks off.\<close>

definition healthy :: "database \<Rightarrow> bool" where
  "healthy db \<longleftrightarrow> (\<forall>n. cn_error (db_conns db n) = None \<and> cn_rows (db_conns db n) = None)"

definition find_config :: "tables \<Rightarrow> nat \<Rightarrow> configuration option" where
  "find_config t i =
     (case filter (\<lambda>r. cr_id r = i) (tb_configs t) of [] \<Rightarrow> None | r # _ \<Rightarrow> Some (config_of_row r))"

lemma healthy_query_row:
  assumes "healthy db"
  shows "fst (query_row q db) = Inr (case q (db_tables db) of [] \<Rightarrow> None | r # _ \<Rightarrow> Some r)"
    "db_tables (snd (query_row q db)) = db_tables db" "healthy (snd (query_row q db))"
  using assms by (auto simp: query_row_def healthy_def Let_def)

lemma healthy_query_rows:
  assumes "healthy db"
  shows "fst (query_rows q db) = Inr (q (db_tables db))"
    "db_tables (snd (query_rows q db)) = db_tables db" "healthy (snd (query_rows q db))"
  using assms by (auto simp: query_rows_def healthy_def Let_def)

lemma query_row_snd: "db_tables (snd (query_row q db)) = db_tables db"
  by (auto simp: query_row_def Let_def split: option.splits)

lemma wrap_tables: "wrap_error msg res = (r, db') \<Longrightarrow> db' = snd res"
  by (auto simp: wrap_error_def split: prod.splits sum.splits)

lemma query_tables:
  "host_get_by_id i db = (r, db') \<Longrightarrow> db_tables db' = db_tables db"
  "host_get_by_hostname nm db = (r', db') \<Longrightarrow> db_tables db' = db_tables db"
  "config_get_by_id i db = (r'', db') \<Longrightarrow> db_tables db' = db_tables db"
  by (auto simp: host_get_by_id_def host_get_by_hostname_def config_get_by_id_def get_by_id_def
      query_row_snd dest!: wrap_tables split: if_splits)

lemma healthy_config:
  assumes "healthy db" "arg_ok i"
  shows "fst (config_get_by_id i db) = Inr (find_config (db_tables db) i)"
  using healthy_query_row(1) [OF assms(1), of "\<lambda>t. map config_of_row (filter (\<lambda>r. cr_id r = i) (tb_configs t))"] assms(2)
  by (cases "query_row (\<lambda>t. map config_of_row (filter (\<lambda>r. cr_id r = i) (tb_configs t))) db")
    (auto simp: config_get_by_id_def get_by_id_def wrap_error_def find_config_def split: list.splits sum.splits)

lemma first_matching_find:
  "first_matching_group nm gs =
     (case find (\<lambda>g. dg_config g \<noteq> None \<and> match_hostname_pattern nm (dg_pattern g)) gs of
        None \<Rightarrow> None
      | Some g \<Rightarrow> dg_config g)"
  by (induction gs) (auto split: option.splits)

lemma find_in_set: "find P xs = Some x \<Longrightarrow> x \<in> set xs \<and> P x"
  by (induction xs) (auto split: if_splits)

lemma ref_arg:
  assumes "tables_ok t" "ref_ok True t (Some c)"
  shows "arg_ok c"
proof -
  obtain r where "r \<in> set (tb_configs t)" "cr_id r = c" using assms(2) by (auto simp: ref_ok_iff)
  then show ?thesis using assms(1) by (force simp: tables_ok_def keyed_def arg_ok_def max_rowid_def)
qed

text \<open>
  C16. The effective configuration of a host whose name has no line break, on a database whose connections all answer: the one assigned
  directly, whether or not a group matches; else the one of the matching dynamic group with the
  least name among those that have a configuration, a pattern matching as a glob; else none.
\<close>

theorem effective_configuration_priority:
  assumes "healthy db" "tables_ok (db_tables db)" "refs_ok (db_tables db)"
    and "h \<in> set (tb_hosts (db_tables db))" "CHR 0x0A \<notin> set (ho_hostname h)"
  shows "fst (host_effective_config h db) =
    Inr (case ho_config h of
           Some c \<Rightarrow> find_config (db_tables db) c
         | None \<Rightarrow>
             (case find (\<lambda>g. dg_config g \<noteq> None \<and> glob (dg_pattern g) (ho_hostname h))
                     (sort_key dg_name (tb_dynamic (db_tables db))) of
                None \<Rightarrow> None
              | Some g \<Rightarrow> find_config (db_tables db) (the (dg_config g))))"
proof (cases "ho_config h")
  case (Some c)
  then have "arg_ok c" using assms(2-4) ref_arg by (auto simp: refs_ok_def)
  with Some assms(1) show ?thesis by (simp add: host_effective_config_def healthy_config)
next
  case None
  let ?gs = "sort_key dg_name (tb_dynamic (db_tables db))"
  obtain res db1 where q: "query_rows (\<lambda>t. sort_key dg_name (tb_dynamic t)) db = (res, db1)"
    by (rule prod.exhaust)
  have q1: "res = Inr ?gs" "db_tables db1 = db_tables db" "healthy db1"
    using healthy_query_rows [OF assms(1), of "\<lambda>t. sort_key dg_name (tb_dynamic t)"] q by simp_all
  have list: "dynamic_list db = (Inr ?gs, db1)" using q q1 by (simp add: dynamic_list_def wrap_error_def)
  have pat: "match_hostname_pattern (ho_hostname h) p = glob p (ho_hostname h)" for p
    by (rule pattern_glob [OF assms(5)])
  show ?thesis
  proof (cases "find (\<lambda>g. dg_config g \<noteq> None \<and> glob (dg_pattern g) (ho_hostname h)) ?gs")
    case None
    with \<open>ho_config h = None\<close> list show ?thesis
      by (simp add: host_effective_config_def config_from_static_groups_def config_from_dynamic_groups_def
          first_matching_find pat)
  next
    case (Some g)
    then obtain c where g: "g \<in> set (tb_dynamic (db_tables db))" "dg_config g = Some c"
      using find_in_set [OF Some] by auto
    then have "arg_ok c" using assms(2,3) ref_arg by (auto simp: refs_ok_def)
    then have c: "fst (config_get_by_id c db1) = Inr (find_config (db_tables db) c)"
      using healthy_config [OF q1(3)] q1(2) by simp
    obtain r db2 where r: "config_get_by_id c db1 = (r, db2)" by (rule prod.exhaust)
    with Some g c \<open>ho_config h = None\<close> list show ?thesis
      by (auto simp: host_effective_config_def config_from_static_groups_def config_from_dynamic_groups_def
          first_matching_find pat split: option.splits)
  qed
qed

section \<open>Writes\<close>

lemma exec_only_failed: "exec_only msg st db = (Some e, db') \<Longrightarrow> db_tables db' = db_tables db"
  by (auto simp: exec_only_def wrap_error_def exec_stmt_def Let_def split: prod.splits sum.splits option.splits)

lemma write_failed:
  "host_update h db ck = (Some e, h', db', ck') \<Longrightarrow> db_tables db' = db_tables db"
  "host_delete i db = (Some e, db') \<Longrightarrow> db_tables db' = db_tables db"
  "host_create h db ck = (Some e, h', db', ck') \<Longrightarrow> db_tables db' = db_tables db"
  by (auto simp: host_update_def host_delete_def host_create_def exec_stmt_def wrap_error_def Let_def
      dest: exec_only_failed split: prod.splits sum.splits option.splits)

lemma with_host_tables: "with_host idstr db = (r, db') \<Longrightarrow> db_tables db' = db_tables db"
  by (auto simp: with_host_def with_row_def dest: query_tables split: option.splits prod.splits sum.splits)

lemma filter_head: "filter P xs = x # ys \<Longrightarrow> x \<in> set xs \<and> P x"
  by (auto simp: filter_eq_Cons_iff)

lemma with_host_found:
  assumes "with_host idstr db = (Inr (i, h), db')"
  shows "h \<in> set (tb_hosts (db_tables db)) \<and> ho_id h = i"
proof -
  have "host_get_by_id i db = (Inr (Some h), db')"
    using assms by (auto simp: with_host_def with_row_def split: option.splits prod.splits sum.splits)
  then have "query_row (\<lambda>t. filter (\<lambda>h. ho_id h = i) (tb_hosts t)) db = (Inr (Some h), db')"
    by (auto simp: host_get_by_id_def get_by_id_def wrap_error_def split: prod.splits sum.splits if_splits)
  then have "\<exists>xs. filter (\<lambda>h. ho_id h = i) (tb_hosts (db_tables db)) = h # xs"
    by (auto simp: query_row_def Let_def split: option.splits if_splits list.splits)
  then show ?thesis using filter_head by fast
qed

lemma with_host_conns:
  assumes "with_host idstr db = (Inr (i, h), db')"
  shows "db_conns db' = (\<lambda>n. db_conns db (Suc n))"
  using assms
  by (auto simp: with_host_def with_row_def host_get_by_id_def get_by_id_def wrap_error_def query_row_def Let_def
      split: option.splits prod.splits sum.splits if_splits)

lemma check_config_tables: "check_config c db = (r, db') \<Longrightarrow> db_tables db' = db_tables db"
  by (auto simp: check_config_def dest: query_tables split: option.splits prod.splits sum.splits if_splits)

lemma notify_tables: "notify_host i h db = (evs, db') \<Longrightarrow> db_tables db' = db_tables db"
  by (auto simp: notify_host_def dest: query_tables split: option.splits prod.splits sum.splits)

lemma host_create_ok:
  assumes "host_create h db ck = (None, h', db', ck')"
  obtains i t where "sql_insert_host (h\<lparr>ho_created := ck 0, ho_last_seen := ck 1\<rparr>) (cn_foreign_keys (db_conns db 0)) (db_tables db) = Inr (i, t)"
    "h' = h\<lparr>ho_created := ck 0, ho_last_seen := ck 1, ho_id := i\<rparr>" "db_tables db' = t"
  using assms
  by (auto simp: host_create_def wrap_error_def exec_stmt_def now_def Let_def
      split: prod.splits sum.splits option.splits)

lemma host_update_ok:
  assumes "host_update h db ck = (None, h', db', ck')"
  obtains t where "sql_update_host (h\<lparr>ho_last_seen := ck 0\<rparr>) (cn_foreign_keys (db_conns db 0)) (db_tables db) = Inr ((), t)"
    "h' = h\<lparr>ho_last_seen := ck 0\<rparr>" "db_tables db' = t"
proof -
  let ?h1 = "h\<lparr>ho_last_seen := ck 0\<rparr>"
  obtain r db1 where x: "exec_stmt (sql_update_host ?h1) db = (r, db1)" by (rule prod.exhaust)
  have e: "h' = ?h1" "db' = db1" "\<exists>u. r = Inr u"
    using assms x by (auto simp: host_update_def exec_only_def wrap_error_def now_def split: sum.splits)
  from x show ?thesis by (cases rule: exec_stmt_cases) (use that e in auto)
qed

text \<open>What a lookup by host name finds.\<close>

lemma hostname_found:
  assumes "host_get_by_hostname nm db = (Inr (Some h), db')"
  shows "h \<in> set (tb_hosts (db_tables db)) \<and> ho_hostname h = nm"
proof -
  have "query_row (\<lambda>t. filter (\<lambda>h. ho_hostname h = nm) (tb_hosts t)) db = (Inr (Some h), db')"
    using assms by (auto simp: host_get_by_hostname_def wrap_error_def split: prod.splits sum.splits)
  then have "\<exists>xs. filter (\<lambda>h. ho_hostname h = nm) (tb_hosts (db_tables db)) = h # xs"
    by (auto simp: query_row_def Let_def split: option.splits if_splits list.splits)
  then show ?thesis using filter_head by fast
qed

lemma hostname_missing:
  assumes "host_get_by_hostname nm db = (Inr None, db')"
  shows "nm \<notin> ho_hostname ` set (tb_hosts (db_tables db))"
proof -
  have "query_row (\<lambda>t. filter (\<lambda>h. ho_hostname h = nm) (tb_hosts t)) db = (Inr None, db')"
    using assms by (auto simp: host_get_by_hostname_def wrap_error_def split: prod.splits sum.splits)
  then have "filter (\<lambda>h. ho_hostname h = nm) (tb_hosts (db_tables db)) = []"
    by (auto simp: query_row_def Let_def split: option.splits if_splits list.splits)
  then show ?thesis by (auto simp: filter_empty_conv)
qed

section \<open>Properties\<close>

text \<open>
  An error response has changed nothing: whenever registering, updating or deleting a host
  answers with a status of 400 or more, the tables are what they were.
\<close>

theorem host_errors_change_nothing:
  "(register_host hdr body db ck = ((code, resp), db', ck') \<longrightarrow> 400 \<le> code \<longrightarrow> db_tables db' = db_tables db) \<and>
   (update_host_handler idstr ubody db ck = ((code, resp), evs, db', ck') \<longrightarrow> 400 \<le> code \<longrightarrow>
      db_tables db' = db_tables db \<and> evs = []) \<and>
   (delete_host_handler idstr db = ((code, resp), db') \<longrightarrow> 400 \<le> code \<longrightarrow> db_tables db' = db_tables db)"
proof (intro conjI impI)
  assume "register_host hdr body db ck = ((code, resp), db', ck')" "400 \<le> code"
  then show "db_tables db' = db_tables db"
    by (auto simp: register_host_def write_error_def write_ok_def Let_def dest!: write_failed dest: query_tables
        split: sum.splits if_splits prod.splits option.splits)
next
  assume u: "update_host_handler idstr ubody db ck = ((code, resp), evs, db', ck')" "400 \<le> code"
  then show "db_tables db' = db_tables db"
    by (auto simp: update_host_handler_def write_error_def write_ok_def Let_def
        dest!: write_failed with_host_tables check_config_tables
        split: sum.splits if_splits prod.splits option.splits)
  from u show "evs = []"
    by (auto simp: update_host_handler_def write_error_def write_ok_def Let_def
        split: sum.splits if_splits prod.splits option.splits)
next
  assume "delete_host_handler idstr db = ((code, resp), db')" "400 \<le> code"
  then show "db_tables db' = db_tables db"
    by (auto simp: delete_host_handler_def write_error_def write_ok_def
        dest!: write_failed with_host_tables split: sum.splits prod.splits option.splits)
qed

text \<open>
  A registration answered with 201 has added exactly one row: a host of the requested name,
  with a status the server knows and without a direct configuration, under an id no host had, and
  the response shows that row. The name was not registered before.
\<close>

theorem registration_adds_host:
  assumes "register_host hdr (Inr rq) db ck = ((201, resp), db', ck')" "tables_ok (db_tables db)"
  shows "\<exists>h. ar_data resp = Some (Host_data h) \<and> tb_hosts (db_tables db') = tb_hosts (db_tables db) @ [h] \<and>
    ho_hostname h = rr_hostname rq \<and> known_status (ho_status h) \<and> ho_config h = None \<and>
    ho_id h \<notin> ho_id ` set (tb_hosts (db_tables db)) \<and>
    rr_hostname rq \<notin> ho_hostname ` set (tb_hosts (db_tables db))"
proof -
  obtain h ck1 db1 db2 h' where new: "host_get_by_hostname (rr_hostname rq) db = (Inr None, db1)"
    and cr: "host_create h db1 ck1 = (None, h', db2, ck')" and d: "db2 = db'"
    and h: "ho_hostname h = rr_hostname rq" "known_status (ho_status h)" "ho_config h = None"
    and r: "ar_data resp = Some (Host_data h')"
    using assms(1)
    by (auto simp: register_host_def write_error_def write_ok_def new_success_response_def Let_def known_status_def
        split: if_splits prod.splits sum.splits option.splits)
  obtain i t where ins: "sql_insert_host (h\<lparr>ho_created := ck1 0, ho_last_seen := ck1 1\<rparr>)
        (cn_foreign_keys (db_conns db1 0)) (db_tables db1) = Inr (i, t)"
    and h': "h' = h\<lparr>ho_created := ck1 0, ho_last_seen := ck1 1, ho_id := i\<rparr>" and t: "db_tables db2 = t"
    by (rule host_create_ok [OF cr])
  have same: "db_tables db1 = db_tables db" using query_tables(2) [OF new] .
  note rows = hosts.ins_rows [OF ins]
  have "ho_id h' \<notin> ho_id ` set (tb_hosts (db_tables db))"
    using rows assms(2) same h' by (fastforce simp: tables_ok_def keyed_def)
  then show ?thesis
    using rows h h' r t d same hostname_missing [OF new] by (intro exI [of _ h']) simp
qed

text \<open>
  Registering a name again with another certificate fingerprint is answered with 200 and a
  host that carries the new fingerprint, but the database keeps the old one.
\<close>

theorem reregistration_fingerprint_not_stored:
  assumes "register_host hdr (Inr rq) db ck = ((200, resp), db', ck')" "tables_ok (db_tables db)"
    and "rr_fingerprint rq \<noteq> []"
  shows "\<exists>h old. ar_data resp = Some (Host_data h) \<and> ho_fingerprint h = rr_fingerprint rq \<and>
    old \<in> set (tb_hosts (db_tables db)) \<and> ho_hostname old = rr_hostname rq \<and>
    (\<forall>x \<in> set (tb_hosts (db_tables db')). ho_id x = ho_id h \<longrightarrow> ho_fingerprint x = ho_fingerprint old)"
proof -
  obtain old h ck1 db1 h' where found: "host_get_by_hostname (rr_hostname rq) db = (Inr (Some old), db1)"
    and up: "host_update h db1 ck1 = (None, h', db', ck')"
    and h: "ho_id h = ho_id old" "ho_fingerprint h = rr_fingerprint rq"
    and r: "ar_data resp = Some (Host_data h')"
    using assms(1,3)
    by (auto simp: register_host_def write_error_def write_ok_def new_success_response_def Let_def
        split: if_splits prod.splits sum.splits option.splits)
  obtain t where upd: "sql_update_host (h\<lparr>ho_last_seen := ck1 0\<rparr>) (cn_foreign_keys (db_conns db1 0)) (db_tables db1) = Inr ((), t)"
    and h': "h' = h\<lparr>ho_last_seen := ck1 0\<rparr>" and t: "db_tables db' = t"
    by (rule host_update_ok [OF up])
  have same: "db_tables db1 = db_tables db" using query_tables(2) [OF found] .
  have old: "old \<in> set (tb_hosts (db_tables db))" "ho_hostname old = rr_hostname rq"
    using hostname_found [OF found] by simp_all
  have uniq: "y = old" if "y \<in> set (tb_hosts (db_tables db))" "ho_id y = ho_id old" for y
    using that old(1) assms(2) by (auto simp: tables_ok_def keyed_def distinct_map inj_on_def)
  have "ho_fingerprint x = ho_fingerprint old" if "x \<in> set (tb_hosts t)" "ho_id x = ho_id old" for x
  proof -
    let ?f = "\<lambda>y. if ho_id y = ho_id old then set_host_columns (h\<lparr>ho_last_seen := ck1 0\<rparr>) y else y"
    have "tb_hosts t = map ?f (tb_hosts (db_tables db))"
      using upd same h(1) by (auto simp: sql_update_host_def split: if_splits)
    then obtain y where y: "y \<in> set (tb_hosts (db_tables db))" "x = ?f y"
      using \<open>x \<in> set (tb_hosts t)\<close> by (auto simp only: set_map)
    then have "ho_id y = ho_id old" using \<open>ho_id x = ho_id old\<close> by (auto simp: set_host_columns_def split: if_splits)
    then have "y = old" using uniq y(1) by blast
    then show ?thesis using y(2) by (simp add: set_host_columns_def)
  qed
  then show ?thesis using r h h' old t by (intro exI [of _ h'] exI [of _ old]) auto
qed

text \<open>
  Clearing a direct assignment by \<open>config_id: 0\<close> passes the check of the handler and then
  fails in the database, where no configuration has the id 0: on a connection that enforces
  foreign keys the answer is always an error 500.
\<close>

theorem update_config_zero_fails:
  assumes "update_host_handler idstr (Inr rq) db ck = ((code, resp), evs, db', ck')" "uq_config rq = Some 0"
    and "tables_ok (db_tables db)" "\<forall>n. cn_foreign_keys (db_conns db n)"
    and "with_host idstr db = (Inr (i, h), db1)" "uq_status rq = None"
  shows "code = 500 \<and> db_tables db' = db_tables db"
proof -
  let ?h = "(apply_update rq h)\<lparr>ho_config := Some 0\<rparr>"
  obtain e h2 db2 ck2 where up: "host_update ?h db1 ck = (e, h2, db2, ck2)" by (rule prod_cases4)
  have same: "db_tables db1 = db_tables db" using with_host_tables [OF assms(5)] .
  have hin: "h \<in> set (tb_hosts (db_tables db))"
    using with_host_found [OF assms(5)] by simp
  have "e \<noteq> None"
  proof
    assume "e = None"
    then obtain t where "sql_update_host (?h\<lparr>ho_last_seen := ck 0\<rparr>) (cn_foreign_keys (db_conns db1 0)) (db_tables db1) = Inr ((), t)"
      using up host_update_ok by blast
    moreover have "0 \<notin> cr_id ` set (tb_configs (db_tables db))"
      using assms(3) by (force simp: tables_ok_def keyed_def)
    moreover have "cn_foreign_keys (db_conns db1 0)" using assms(4) with_host_conns [OF assms(5)] by simp
    ultimately show False
      using hin same by (auto simp: sql_update_host_def apply_update_def ref_ok_iff split: if_splits)
  qed
  then obtain x where x: "e = Some x" by blast
  have "update_host_handler idstr (Inr rq) db ck =
      (write_error 500 ''Failed to update host'' (repo_text x), [], db2, ck2)"
    using up x by (simp add: update_host_handler_def assms(2,5,6) check_config_def)
  moreover have "db_tables db2 = db_tables db1" using write_failed(1) up x by blast
  ultimately show ?thesis using assms(1) same by (simp add: write_error_def)
qed

section \<open>Witnesses\<close>

lemma demo_healthy: "healthy demo_db"
  by (simp add: healthy_def demo_db_def good_conn_def)

lemma effective_configuration_priority_witness:
  "fst (host_effective_config demo_host demo_db) = Inr (Some demo_config)"
proof -
  have "fst (host_effective_config demo_host demo_db) = Inr (find_config (db_tables demo_db) 1)"
    using effective_configuration_priority [OF demo_healthy demo_tables_ok demo_refs_ok, of demo_host]
    by (simp add: demo_db_def demo_tables_def demo_host_def demo_group_def)
  then show ?thesis
    by (simp add: find_config_def demo_db_def demo_tables_def demo_row_id demo_config_def config_of_row_def
        config_row_of_def json_slice_array bool_to_int_def)
qed

lemma reply_cases: obtains code resp st ck where "(x :: (nat \<times> 'r) \<times> 'd \<times> 'c) = ((code, resp), st, ck)"
  by (cases x) auto

lemma reply_events_cases:
  obtains code resp evs st ck where "(x :: (nat \<times> 'r) \<times> 'e \<times> 'd \<times> 'c) = ((code, resp), evs, st, ck)"
  by (cases x) auto

definition demo_headers :: request_headers where
  "demo_headers = \<lparr>rh_forwarded_for = [], rh_real_ip = [], rh_remote_addr = ''10.0.0.7:5''\<rparr>"

definition demo_request :: register_request where
  "demo_request = \<lparr>rr_hostname = ''db-01'', rr_ip = ''10.0.0.9'', rr_fingerprint = ''cc'', rr_status = []\<rparr>"

lemmas demo_simps = register_host_def demo_request_def known_status_def match_reports_error_def
  host_get_by_hostname_def query_row_def wrap_error_def demo_db_def good_conn_def demo_tables_def demo_host_def
  now_def write_ok_def write_error_def new_success_response_def new_error_response_def Let_def

lemma demo_registered:
  "\<exists>resp db' ck'. register_host demo_headers (Inr demo_request) demo_db (\<lambda>_. 9) = ((201, resp), db', ck')"
  by (simp add: demo_simps host_create_def exec_stmt_def sql_insert_host_def ref_arg_ok_def ref_ok_def
      max_rowid_def)

lemma registration_adds_host_witness:
  "let ((code, resp), db', ck') = register_host demo_headers (Inr demo_request) demo_db (\<lambda>_. 9)
   in code = 201 \<and> length (tb_hosts (db_tables db')) = 2"
proof -
  obtain resp db' ck' where r: "register_host demo_headers (Inr demo_request) demo_db (\<lambda>_. 9) = ((201, resp), db', ck')"
    using demo_registered by blast
  show ?thesis
    using registration_adds_host [OF r demo_tables_ok] r by (auto simp: demo_db_def demo_tables_def)
qed

lemma demo_reregistered:
  "\<exists>resp db' ck'. register_host demo_headers (Inr (demo_request\<lparr>rr_hostname := ''web-01''\<rparr>)) demo_db (\<lambda>_. 9)
     = ((200, resp), db', ck')"
  by (simp add: demo_simps host_update_def exec_only_def exec_stmt_def sql_update_host_def arg_ok_def
      ref_arg_ok_def ref_ok_def)

lemma reregistration_fingerprint_not_stored_witness:
  "\<exists>h resp db' ck'. register_host demo_headers (Inr (demo_request\<lparr>rr_hostname := ''web-01''\<rparr>)) demo_db (\<lambda>_. 9)
     = ((200, resp), db', ck') \<and> ar_data resp = Some (Host_data h) \<and> ho_fingerprint h = ''cc''"
proof -
  obtain resp db' ck' where r: "register_host demo_headers (Inr (demo_request\<lparr>rr_hostname := ''web-01''\<rparr>))
      demo_db (\<lambda>_. 9) = ((200, resp), db', ck')"
    using demo_reregistered by blast
  show ?thesis
    using reregistration_fingerprint_not_stored [OF r demo_tables_ok] r by (auto simp: demo_request_def)
qed

lemma host_errors_change_nothing_witness:
  "let ((code, resp), db', ck') =
     register_host demo_headers (Inr (demo_request\<lparr>rr_status := ''up''\<rparr>)) demo_db (\<lambda>_. 9)
   in code = 400 \<and> db_tables db' = db_tables demo_db"
proof -
  obtain code resp db' ck' where r: "register_host demo_headers (Inr (demo_request\<lparr>rr_status := ''up''\<rparr>))
      demo_db (\<lambda>_. 9) = ((code, resp), db', ck')"
    by (rule reply_cases)
  then have "code = 400"
    by (auto simp: register_host_def demo_request_def known_status_def write_error_def Let_def)
  then show ?thesis
    using host_errors_change_nothing [of demo_headers "Inr (demo_request\<lparr>rr_status := ''up''\<rparr>)" demo_db
        "\<lambda>_. 9" code resp db' ck'] r
    by simp
qed

definition zero_request :: update_request where
  "zero_request = \<lparr>uq_ip = None, uq_status = None, uq_fingerprint = None, uq_config = Some 0\<rparr>"

lemma update_config_zero_fails_witness:
  "fst (fst (update_host_handler ''1'' (Inr zero_request) demo_db (\<lambda>_. 9))) = 500"
proof -
  have "sscan_uint ''1'' = Some 1"
    by (simp add: sscan_uint_def is_space_def is_dec_digit_def digits_value_def Let_def)
  then have w: "with_host ''1'' demo_db = (Inr (1, demo_host), \<lparr>db_tables = demo_tables, db_conns = (\<lambda>_. good_conn)\<rparr>)"
    by (simp add: with_host_def with_row_def host_get_by_id_def get_by_id_def wrap_error_def query_row_def arg_ok_def demo_db_def
        demo_tables_def demo_host_def good_conn_def Let_def)
  obtain code resp evs db' ck' where u: "update_host_handler ''1'' (Inr zero_request) demo_db (\<lambda>_. 9)
      = ((code, resp), evs, db', ck')"
    by (rule reply_events_cases)
  show ?thesis
    using update_config_zero_fails [OF u _ demo_tables_ok _ w] u
    by (simp add: zero_request_def demo_db_def good_conn_def)
qed

end
