(* ===== verification/Group_Api.thy ===== *)
theory Group_Api
  imports Http_Common Hostname_Pattern
begin

text \<open>
  The handlers of static and dynamic host groups (\<open>config-server/internal/api/groups.go\<close>), each a
  function of the decoded request, the database and, where a row is created, the clock. The code
  repeats the handlers for the two kinds of group; so does the model.
\<close>

datatype group_data =
    Group_data host_group
  | Groups_data "(host_group \<times> string option) list" nat
  | Group_and_config host_group "configuration option"
  | Dynamic_data dynamic_group
  | Dynamics_data "(dynamic_group \<times> string option \<times> nat option) list" nat
  | Dynamic_details dynamic_group "configuration option" "host list option"

type_synonym group_result = "group_data http_result"

section \<open>Static groups\<close>

record group_request =
  gq_name :: string
  gq_config :: "nat option"

definition create_host_group ::
  "string + group_request \<Rightarrow> database \<Rightarrow> clock \<Rightarrow> group_result \<times> database \<times> clock" where
  "create_host_group body db ck =
     (case body of
        Inl e \<Rightarrow> (write_error 400 ''Invalid request body'' e, db, ck)
      | Inr rq \<Rightarrow>
          if gq_name rq = [] then (write_error 400 ''name is required'' [], db, ck)
          else
            (case group_get_by_name (gq_name rq) db of
               (Inl e, db1) \<Rightarrow> (write_error 500 ''Failed to check existing group'' (repo_text e), db1, ck)
             | (Inr (Some _), db1) \<Rightarrow>
                 (write_error 409 ''Host group with this name already exists'' [], db1, ck)
             | (Inr None, db1) \<Rightarrow>
                 (case check_config (gq_config rq) db1 of
                    (Some r, db2) \<Rightarrow> (r, db2, ck)
                  | (None, db2) \<Rightarrow>
                      (case group_create
                              \<lparr>hg_id = 0, hg_name = gq_name rq, hg_config = gq_config rq, hg_created = 0\<rparr> db2 ck of
                         (Some e, _, db3, ck1) \<Rightarrow>
                           (write_error 500 ''Failed to create host group'' (repo_text e), db3, ck1)
                       | (None, g, db3, ck1) \<Rightarrow>
                           (write_ok 201 ''Host group created successfully'' (Some (Group_data g)), db3, ck1)))))"

fun group_rows :: "host_group list \<Rightarrow> database \<Rightarrow> (host_group \<times> string option) list \<times> database" where
  "group_rows [] db = ([], db)"
| "group_rows (g # gs) db =
     (let (c, db1) = assigned_config (hg_config g) db; (rest, db2) = group_rows gs db1
      in ((g, map_option cf_name c) # rest, db2))"

definition list_host_groups :: "database \<Rightarrow> group_result \<times> database" where
  "list_host_groups db =
     (case group_list db of
        (Inl e, db1) \<Rightarrow> (write_error 500 ''Failed to list host groups'' (repo_text e), db1)
      | (Inr gs, db1) \<Rightarrow>
          (let (rows, db2) = group_rows gs db1
           in (write_ok 200 ''Host groups listed successfully'' (Some (Groups_data rows (length gs))), db2)))"

definition with_group :: "string \<Rightarrow> database \<Rightarrow> (group_result + nat \<times> host_group) \<times> database" where
  "with_group =
     with_row ''Invalid group ID'' ''Failed to get host group'' ''Host group not found'' group_get_by_id"

definition get_host_group :: "string \<Rightarrow> database \<Rightarrow> group_result \<times> database" where
  "get_host_group idstr db =
     (case with_group idstr db of
        (Inl r, db1) \<Rightarrow> (r, db1)
      | (Inr (i, g), db1) \<Rightarrow>
          (let (c, db2) = assigned_config (hg_config g) db1
           in (write_ok 200 ''Host group retrieved successfully'' (Some (Group_and_config g c)), db2)))"

record group_update_request =
  gu_name :: "string option"
  gu_config :: "nat option"

text \<open>
  The check of a new name: an answer if it is taken by a group. A failing lookup is passed over.
\<close>

definition name_conflict ::
  "(string \<Rightarrow> database \<Rightarrow> (repo_error + 'g option) \<times> database) \<Rightarrow> string \<Rightarrow> string option \<Rightarrow> string \<Rightarrow>
   database \<Rightarrow> 'd http_result option \<times> database" where
  "name_conflict get msg new old db =
     (case new of
        None \<Rightarrow> (None, db)
      | Some nm \<Rightarrow>
          if nm = old then (None, db)
          else (case get nm db of
                  (Inr (Some _), db1) \<Rightarrow> (Some (write_error 409 msg []), db1)
                | (_, db1) \<Rightarrow> (None, db1)))"

definition update_host_group ::
  "string \<Rightarrow> string + group_update_request \<Rightarrow> database \<Rightarrow> group_result \<times> database" where
  "update_host_group idstr body db =
     (case with_group idstr db of
        (Inl r, db1) \<Rightarrow> (r, db1)
      | (Inr (i, g), db1) \<Rightarrow>
          (case body of
             Inl e \<Rightarrow> (write_error 400 ''Invalid request body'' e, db1)
           | Inr rq \<Rightarrow>
               (case name_conflict group_get_by_name ''Host group with this name already exists''
                       (gu_name rq) (hg_name g) db1 of
                  (Some r, db2) \<Rightarrow> (r, db2)
                | (None, db2) \<Rightarrow>
                    (let g1 = (case gu_name rq of Some nm \<Rightarrow> g\<lparr>hg_name := nm\<rparr> | None \<Rightarrow> g)
                     in case check_config (gu_config rq) db2 of
                          (Some r, db3) \<Rightarrow> (r, db3)
                        | (None, db3) \<Rightarrow>
                            (let g2 = (case gu_config rq of Some c \<Rightarrow> g1\<lparr>hg_config := Some c\<rparr> | None \<Rightarrow> g1)
                             in case group_update g2 db3 of
                                  (Some e, db4) \<Rightarrow>
                                    (write_error 500 ''Failed to update host group'' (repo_text e), db4)
                                | (None, db4) \<Rightarrow>
                                    (write_ok 200 ''Host group updated successfully'' (Some (Group_data g2)), db4))))))"

definition delete_host_group :: "string \<Rightarrow> database \<Rightarrow> group_result \<times> database" where
  "delete_host_group idstr db =
     (case with_group idstr db of
        (Inl r, db1) \<Rightarrow> (r, db1)
      | (Inr (i, g), db1) \<Rightarrow>
          (case group_delete i db1 of
             (Some e, db2) \<Rightarrow> (write_error 500 ''Failed to delete host group'' (repo_text e), db2)
           | (None, db2) \<Rightarrow> (write_ok 200 ''Host group deleted successfully'' None, db2)))"

section \<open>Dynamic groups\<close>

record dynamic_request =
  dq_name :: string
  dq_pattern :: string
  dq_config :: "nat option"

definition create_dynamic_group ::
  "string + dynamic_request \<Rightarrow> database \<Rightarrow> clock \<Rightarrow> group_result \<times> database \<times> clock" where
  "create_dynamic_group body db ck =
     (case body of
        Inl e \<Rightarrow> (write_error 400 ''Invalid request body'' e, db, ck)
      | Inr rq \<Rightarrow>
          if dq_name rq = [] then (write_error 400 ''name is required'' [], db, ck)
          else if dq_pattern rq = [] then (write_error 400 ''pattern is required'' [], db, ck)
          else
            (case dynamic_get_by_name (dq_name rq) db of
               (Inl e, db1) \<Rightarrow> (write_error 500 ''Failed to check existing group'' (repo_text e), db1, ck)
             | (Inr (Some _), db1) \<Rightarrow>
                 (write_error 409 ''Dynamic host group with this name already exists'' [], db1, ck)
             | (Inr None, db1) \<Rightarrow>
                 (case check_config (dq_config rq) db1 of
                    (Some r, db2) \<Rightarrow> (r, db2, ck)
                  | (None, db2) \<Rightarrow>
                      (case dynamic_create
                              \<lparr>dg_id = 0, dg_name = dq_name rq, dg_pattern = dq_pattern rq,
                               dg_config = dq_config rq, dg_created = 0\<rparr> db2 ck of
                         (Some e, _, db3, ck1) \<Rightarrow>
                           (write_error 500 ''Failed to create dynamic host group'' (repo_text e), db3, ck1)
                       | (None, g, db3, ck1) \<Rightarrow>
                           (write_ok 201 ''Dynamic host group created successfully'' (Some (Dynamic_data g)),
                            db3, ck1)))))"

text \<open>The hosts a pattern matches; \<open>None\<close> when the hosts cannot be listed.\<close>

definition matching_hosts :: "string \<Rightarrow> database \<Rightarrow> host list option \<times> database" where
  "matching_hosts pattern db =
     (case host_list db of
        (Inl _, db1) \<Rightarrow> (None, db1)
      | (Inr hs, db1) \<Rightarrow> (Some (filter (\<lambda>h. match_hostname_pattern (ho_hostname h) pattern) hs), db1))"

fun dynamic_rows ::
  "dynamic_group list \<Rightarrow> database \<Rightarrow> (dynamic_group \<times> string option \<times> nat option) list \<times> database" where
  "dynamic_rows [] db = ([], db)"
| "dynamic_rows (g # gs) db =
     (let (c, db1) = assigned_config (dg_config g) db;
          (hs, db2) = matching_hosts (dg_pattern g) db1;
          (rest, db3) = dynamic_rows gs db2
      in ((g, map_option cf_name c, map_option length hs) # rest, db3))"

definition list_dynamic_groups :: "database \<Rightarrow> group_result \<times> database" where
  "list_dynamic_groups db =
     (case dynamic_list db of
        (Inl e, db1) \<Rightarrow> (write_error 500 ''Failed to list dynamic host groups'' (repo_text e), db1)
      | (Inr gs, db1) \<Rightarrow>
          (let (rows, db2) = dynamic_rows gs db1
           in (write_ok 200 ''Dynamic host groups listed successfully'' (Some (Dynamics_data rows (length gs))),
               db2)))"

definition with_dynamic :: "string \<Rightarrow> database \<Rightarrow> (group_result + nat \<times> dynamic_group) \<times> database" where
  "with_dynamic =
     with_row ''Invalid group ID'' ''Failed to get dynamic host group'' ''Dynamic host group not found''
       dynamic_get_by_id"

definition get_dynamic_group :: "string \<Rightarrow> database \<Rightarrow> group_result \<times> database" where
  "get_dynamic_group idstr db =
     (case with_dynamic idstr db of
        (Inl r, db1) \<Rightarrow> (r, db1)
      | (Inr (i, g), db1) \<Rightarrow>
          (let (c, db2) = assigned_config (dg_config g) db1;
               (hs, db3) = matching_hosts (dg_pattern g) db2
           in (write_ok 200 ''Dynamic host group retrieved successfully'' (Some (Dynamic_details g c hs)), db3)))"

record dynamic_update_request =
  du_name :: "string option"
  du_pattern :: "string option"
  du_config :: "nat option"

definition update_dynamic_group ::
  "string \<Rightarrow> string + dynamic_update_request \<Rightarrow> database \<Rightarrow> group_result \<times> database" where
  "update_dynamic_group idstr body db =
     (case with_dynamic idstr db of
        (Inl r, db1) \<Rightarrow> (r, db1)
      | (Inr (i, g), db1) \<Rightarrow>
          (case body of
             Inl e \<Rightarrow> (write_error 400 ''Invalid request body'' e, db1)
           | Inr rq \<Rightarrow>
               (case name_conflict dynamic_get_by_name ''Dynamic host group with this name already exists''
                       (du_name rq) (dg_name g) db1 of
                  (Some r, db2) \<Rightarrow> (r, db2)
                | (None, db2) \<Rightarrow>
                    (let g1 = (case du_name rq of Some nm \<Rightarrow> g\<lparr>dg_name := nm\<rparr> | None \<Rightarrow> g);
                         g2 = (case du_pattern rq of Some p \<Rightarrow> g1\<lparr>dg_pattern := p\<rparr> | None \<Rightarrow> g1)
                     in case check_config (du_config rq) db2 of
                          (Some r, db3) \<Rightarrow> (r, db3)
                        | (None, db3) \<Rightarrow>
                            (let g3 = (case du_config rq of Some c \<Rightarrow> g2\<lparr>dg_config := Some c\<rparr> | None \<Rightarrow> g2)
                             in case dynamic_update g3 db3 of
                                  (Some e, db4) \<Rightarrow>
                                    (write_error 500 ''Failed to update dynamic host group'' (repo_text e), db4)
                                | (None, db4) \<Rightarrow>
                                    (write_ok 200 ''Dynamic host group updated successfully''
                                       (Some (Dynamic_data g3)), db4))))))"

definition delete_dynamic_group :: "string \<Rightarrow> database \<Rightarrow> group_result \<times> database" where
  "delete_dynamic_group idstr db =
     (case with_dynamic idstr db of
        (Inl r, db1) \<Rightarrow> (r, db1)
      | (Inr (i, g), db1) \<Rightarrow>
          (case dynamic_delete i db1 of
             (Some e, db2) \<Rightarrow> (write_error 500 ''Failed to delete dynamic host group'' (repo_text e), db2)
           | (None, db2) \<Rightarrow> (write_ok 200 ''Dynamic host group deleted successfully'' None, db2)))"

end
