(* ===== verification/Assignment_Api.thy ===== *)
theory Assignment_Api
  imports Host_Api Group_Api
begin

text \<open>
  The assignment handlers (\<open>config-server/internal/api/assignments.go\<close>): assigning a host to a
  configuration or to a group writes the configuration into the host's row and sends it to the
  host through the hub; assigning to a dynamic group only checks that the pattern matches.
\<close>

datatype assignment_data =
    Assigned_config nat nat host configuration
  | Assigned_group nat nat host host_group
  | Matches_dynamic nat nat string "nat option" "configuration option"
  | Assignments host "configuration option" "host_group list" "dynamic_group list" "configuration option"

type_synonym assignment_result = "assignment_data http_result"

record assign_request =
  aq_host :: nat
  aq_target :: nat

text \<open>The two required ids of the request.\<close>

definition ids_missing :: "string \<Rightarrow> assign_request \<Rightarrow> assignment_result option" where
  "ids_missing target rq =
     (if aq_host rq = 0 then Some (write_error 400 ''host_id is required'' [])
      else if aq_target rq = 0 then Some (write_error 400 (target @ '' is required'') [])
      else None)"

text \<open>The lookup of a row a request names, with the status and the text for a missing one.\<close>

definition named_row ::
  "string \<Rightarrow> nat \<Rightarrow> string \<Rightarrow> (repo_error + 'r option) \<times> database \<Rightarrow> (assignment_result + 'r) \<times> database" where
  "named_row failed code missing res =
     (case res of
        (Inl e, db) \<Rightarrow> (Inl (write_error 500 failed (repo_text e)), db)
      | (Inr None, db) \<Rightarrow> (Inl (write_error code missing []), db)
      | (Inr (Some r), db) \<Rightarrow> (Inr r, db))"

definition assign_host_to_config ::
  "string + assign_request \<Rightarrow> database \<Rightarrow> clock \<Rightarrow> assignment_result \<times> hub_event list \<times> database \<times> clock" where
  "assign_host_to_config body db ck =
     (case body of
        Inl e \<Rightarrow> (write_error 400 ''Invalid request body'' e, [], db, ck)
      | Inr rq \<Rightarrow>
          (case ids_missing ''config_id'' rq of
             Some r \<Rightarrow> (r, [], db, ck)
           | None \<Rightarrow>
               (case named_row ''Failed to validate host'' 404 ''Host not found'' (host_get_by_id (aq_host rq) db) of
                  (Inl r, db1) \<Rightarrow> (r, [], db1, ck)
                | (Inr h, db1) \<Rightarrow>
                    (case named_row ''Failed to validate config'' 400 ''Config not found''
                            (config_get_by_id (aq_target rq) db1) of
                       (Inl r, db2) \<Rightarrow> (r, [], db2, ck)
                     | (Inr c, db2) \<Rightarrow>
                         (case host_update (h\<lparr>ho_config := Some (aq_target rq), ho_status := ''configured''\<rparr>) db2 ck of
                            (Some e, _, db3, ck1) \<Rightarrow>
                              (write_error 500 ''Failed to assign config to host'' (repo_text e), [], db3, ck1)
                          | (None, h1, db3, ck1) \<Rightarrow>
                              (write_ok 200 ''Host assigned to configuration successfully''
                                 (Some (Assigned_config (aq_host rq) (aq_target rq) h1 c)),
                               [Config_update (aq_host rq) (aq_target rq),
                                Send_config (aq_host rq) (convert_to_egress_config c)], db3, ck1))))))"

text \<open>The host's configuration and status, taken over from the group.\<close>

definition group_assigned :: "host_group \<Rightarrow> host \<Rightarrow> host" where
  "group_assigned g h =
     (case hg_config g of
        None \<Rightarrow> h\<lparr>ho_config := None, ho_status := ''unconfigured''\<rparr>
      | Some c \<Rightarrow> h\<lparr>ho_config := Some c, ho_status := ''configured''\<rparr>)"

definition assign_host_to_group ::
  "string + assign_request \<Rightarrow> database \<Rightarrow> clock \<Rightarrow> assignment_result \<times> hub_event list \<times> database \<times> clock" where
  "assign_host_to_group body db ck =
     (case body of
        Inl e \<Rightarrow> (write_error 400 ''Invalid request body'' e, [], db, ck)
      | Inr rq \<Rightarrow>
          (case ids_missing ''group_id'' rq of
             Some r \<Rightarrow> (r, [], db, ck)
           | None \<Rightarrow>
               (case named_row ''Failed to validate host'' 404 ''Host not found'' (host_get_by_id (aq_host rq) db) of
                  (Inl r, db1) \<Rightarrow> (r, [], db1, ck)
                | (Inr h, db1) \<Rightarrow>
                    (case named_row ''Failed to validate group'' 400 ''Group not found''
                            (group_get_by_id (aq_target rq) db1) of
                       (Inl r, db2) \<Rightarrow> (r, [], db2, ck)
                     | (Inr g, db2) \<Rightarrow>
                         (case host_update (group_assigned g h) db2 ck of
                            (Some e, _, db3, ck1) \<Rightarrow>
                              (write_error 500 ''Failed to assign host to group'' (repo_text e), [], db3, ck1)
                          | (None, h2, db3, ck1) \<Rightarrow>
                              (let (evs, db4) = notify_host (aq_host rq) h2 db3
                               in (write_ok 200 ''Host assigned to group successfully''
                                     (Some (Assigned_group (aq_host rq) (aq_target rq) h2 g)),
                                   evs, db4, ck1)))))))"

definition assign_host_to_dynamic_group ::
  "string + assign_request \<Rightarrow> database \<Rightarrow> assignment_result \<times> database" where
  "assign_host_to_dynamic_group body db =
     (case body of
        Inl e \<Rightarrow> (write_error 400 ''Invalid request body'' e, db)
      | Inr rq \<Rightarrow>
          (case ids_missing ''dynamic_group_id'' rq of
             Some r \<Rightarrow> (r, db)
           | None \<Rightarrow>
               (case named_row ''Failed to validate host'' 404 ''Host not found'' (host_get_by_id (aq_host rq) db) of
                  (Inl r, db1) \<Rightarrow> (r, db1)
                | (Inr h, db1) \<Rightarrow>
                    (case named_row ''Failed to validate dynamic group'' 400 ''Dynamic group not found''
                            (dynamic_get_by_id (aq_target rq) db1) of
                       (Inl r, db2) \<Rightarrow> (r, db2)
                     | (Inr g, db2) \<Rightarrow>
                         if \<not> match_hostname_pattern (ho_hostname h) (dg_pattern g) then
                           (write_error 400 (''Hostname '' @ [CHR 0x27] @ ho_hostname h @ [CHR 0x27] @
                              '' does not match pattern '' @ [CHR 0x27] @ dg_pattern g @ [CHR 0x27]) [], db2)
                         else
                           (case (case dg_config g of
                                    None \<Rightarrow> (Inr None, db2)
                                  | Some c \<Rightarrow> config_get_by_id c db2) of
                              (Inl e, db3) \<Rightarrow> (write_error 500 ''Failed to get group config'' (repo_text e), db3)
                            | (Inr cfg, db3) \<Rightarrow>
                                (write_ok 200 ''Host matches dynamic group''
                                   (Some (Matches_dynamic (aq_host rq) (aq_target rq) (dg_pattern g)
                                     (dg_config g) cfg)), db3))))))"

text \<open>
  The assignments of a host. A static group counts as the host's when both have the same
  configuration; a list that cannot be read counts as empty.
\<close>

definition get_host_assignments :: "string \<Rightarrow> database \<Rightarrow> assignment_result \<times> database" where
  "get_host_assignments idstr db =
     (case with_row ''Invalid host ID'' ''Failed to get host'' ''Host not found'' host_get_by_id idstr db of
        (Inl r, db1) \<Rightarrow> (r, db1)
      | (Inr (i, h), db1) \<Rightarrow>
          (let (direct, db2) = assigned_config (ho_config h) db1;
               (gs, db3) = group_list db2;
               statics = (case gs of
                            Inl _ \<Rightarrow> []
                          | Inr l \<Rightarrow> filter (\<lambda>g. hg_config g \<noteq> None \<and> hg_config g = ho_config h) l);
               (ds, db4) = dynamic_list db3;
               dynamics = (case ds of
                             Inl _ \<Rightarrow> []
                           | Inr l \<Rightarrow> filter (\<lambda>g. match_hostname_pattern (ho_hostname h) (dg_pattern g)) l);
               (eff, db5) = host_effective_config h db4;
               effective = (case eff of Inl _ \<Rightarrow> None | Inr c \<Rightarrow> c)
           in (write_ok 200 ''Host assignments retrieved''
                 (Some (Assignments h direct statics dynamics effective)), db5)))"

end
