(* ===== verification/Config_Api.thy ===== *)
theory Config_Api
  imports Http_Common
begin

text \<open>
  The handlers of configurations (\<open>config-server/internal/api/configurations.go\<close>). A decoded body
  is a \<open>models.Configuration\<close> in which a list that the body leaves out is a nil slice, here \<open>None\<close>,
  and every other field it leaves out is the zero value. Where the code does not ask for nil, a nil
  slice is the empty list: the database stores both as \<open>[]\<close>, and only the JSON of the response to
  \<open>createConfiguration\<close> tells them apart.
\<close>

datatype config_data = Config_data configuration | Configs_data "configuration list"

type_synonym config_result = "config_data http_result"

record config_body =
  cb_id :: nat
  cb_name :: string
  cb_dns_servers :: "string list option"
  cb_whitelist :: "string list option"
  cb_blacklist :: "string list option"
  cb_default_ttl :: int
  cb_max_ttl :: int
  cb_min_ttl :: int
  cb_refresh_interval :: int
  cb_restrict :: bool
  cb_created :: time
  cb_updated :: time

definition list_configurations :: "database \<Rightarrow> config_result \<times> database" where
  "list_configurations db =
     (case config_list db of
        (Inl e, db1) \<Rightarrow> (write_error 500 ''Failed to list configurations'' (repo_text e), db1)
      | (Inr cs, db1) \<Rightarrow> (write_ok 200 ''Configurations listed successfully'' (Some (Configs_data cs)), db1))"

definition slice :: "string list option \<Rightarrow> string list" where
  "slice l = (case l of None \<Rightarrow> [] | Some xs \<Rightarrow> xs)"

text \<open>The default for a number the request leaves out.\<close>

definition default_int :: "int \<Rightarrow> int \<Rightarrow> int" where
  "default_int d v = (if v = 0 then d else v)"

text \<open>The decoded configuration after its defaults are set.\<close>

definition new_configuration :: "config_body \<Rightarrow> configuration" where
  "new_configuration b =
     \<lparr>cf_id = cb_id b, cf_name = cb_name b, cf_dns_servers = slice (cb_dns_servers b),
      cf_whitelist = slice (cb_whitelist b), cf_blacklist = slice (cb_blacklist b),
      cf_default_ttl = default_int 300 (cb_default_ttl b), cf_max_ttl = default_int 86400 (cb_max_ttl b),
      cf_min_ttl = default_int 5 (cb_min_ttl b),
      cf_refresh_interval = default_int 300 (cb_refresh_interval b), cf_restrict = cb_restrict b,
      cf_created = cb_created b, cf_updated = cb_updated b\<rparr>"

definition create_configuration ::
  "string + config_body \<Rightarrow> database \<Rightarrow> clock \<Rightarrow> config_result \<times> database \<times> clock" where
  "create_configuration body db ck =
     (case body of
        Inl e \<Rightarrow> (write_error 400 ''Invalid request body'' e, db, ck)
      | Inr b \<Rightarrow>
          if cb_name b = [] then (write_error 400 ''Configuration name is required'' [], db, ck)
          else
            (case config_create (new_configuration b) db ck of
               (Some e, _, db1, ck1) \<Rightarrow>
                 (write_error 500 ''Failed to create configuration'' (repo_text e), db1, ck1)
             | (None, c, db1, ck1) \<Rightarrow>
                 (write_ok 201 ''Configuration created successfully'' (Some (Config_data c)), db1, ck1)))"

text \<open>The common start of the handlers of one configuration.\<close>

definition with_configuration ::
  "string \<Rightarrow> database \<Rightarrow> (config_result + nat \<times> configuration) \<times> database" where
  "with_configuration idstr db =
     (case parse_uint32 idstr of
        None \<Rightarrow> (Inl (write_error 400 ''Invalid configuration ID'' ''strconv.ParseUint''), db)
      | Some i \<Rightarrow>
          (case config_get_by_id i db of
             (Inl e, db1) \<Rightarrow> (Inl (write_error 500 ''Failed to get configuration'' (repo_text e)), db1)
           | (Inr None, db1) \<Rightarrow> (Inl (write_error 404 ''Configuration not found'' []), db1)
           | (Inr (Some c), db1) \<Rightarrow> (Inr (i, c), db1)))"

definition get_configuration :: "string \<Rightarrow> database \<Rightarrow> config_result \<times> database" where
  "get_configuration idstr db =
     (case with_configuration idstr db of
        (Inl r, db1) \<Rightarrow> (r, db1)
      | (Inr (i, c), db1) \<Rightarrow>
          (write_ok 200 ''Configuration retrieved successfully'' (Some (Config_data c)), db1))"

definition keep_list :: "string list option \<Rightarrow> string list \<Rightarrow> string list" where
  "keep_list new old = (case new of None \<Rightarrow> old | Some xs \<Rightarrow> xs)"

definition keep_int :: "int \<Rightarrow> int \<Rightarrow> int" where
  "keep_int new old = (if new \<noteq> 0 then new else old)"

text \<open>The fields of the request that are set replace those of the row; the flag always does.\<close>

definition merge_configuration :: "config_body \<Rightarrow> configuration \<Rightarrow> configuration" where
  "merge_configuration b c =
     c\<lparr>cf_name := (if cb_name b \<noteq> [] then cb_name b else cf_name c),
       cf_dns_servers := keep_list (cb_dns_servers b) (cf_dns_servers c),
       cf_whitelist := keep_list (cb_whitelist b) (cf_whitelist c),
       cf_blacklist := keep_list (cb_blacklist b) (cf_blacklist c),
       cf_default_ttl := keep_int (cb_default_ttl b) (cf_default_ttl c),
       cf_max_ttl := keep_int (cb_max_ttl b) (cf_max_ttl c),
       cf_min_ttl := keep_int (cb_min_ttl b) (cf_min_ttl c),
       cf_refresh_interval := keep_int (cb_refresh_interval b) (cf_refresh_interval c),
       cf_restrict := cb_restrict b\<rparr>"

definition update_configuration ::
  "string \<Rightarrow> string + config_body \<Rightarrow> database \<Rightarrow> clock \<Rightarrow> config_result \<times> database \<times> clock" where
  "update_configuration idstr body db ck =
     (case with_configuration idstr db of
        (Inl r, db1) \<Rightarrow> (r, db1, ck)
      | (Inr (i, c), db1) \<Rightarrow>
          (case body of
             Inl e \<Rightarrow> (write_error 400 ''Invalid request body'' e, db1, ck)
           | Inr b \<Rightarrow>
               (case config_update (merge_configuration b c) db1 ck of
                  (Some e, _, db2, ck1) \<Rightarrow>
                    (write_error 500 ''Failed to update configuration'' (repo_text e), db2, ck1)
                | (None, c1, db2, ck1) \<Rightarrow>
                    (write_ok 200 ''Configuration updated successfully'' (Some (Config_data c1)), db2, ck1))))"

definition delete_configuration :: "string \<Rightarrow> database \<Rightarrow> config_result \<times> database" where
  "delete_configuration idstr db =
     (case parse_uint32 idstr of
        None \<Rightarrow> (write_error 400 ''Invalid configuration ID'' ''strconv.ParseUint'', db)
      | Some i \<Rightarrow>
          (case config_delete i db of
             (Some e, db1) \<Rightarrow> (write_error 500 ''Failed to delete configuration'' (repo_text e), db1)
           | (None, db1) \<Rightarrow> (write_ok 200 ''Configuration deleted successfully'' None, db1)))"

end
