(* ===== verification/Api_Facts.thy ===== *)
theory Api_Facts
  imports Host_Api_Facts Assignment_Api Config_Api
begin

text \<open>
  All handlers of the REST interface as one relation, and what holds of every request: the
  response is well-formed, an error has changed no table, and whatever holds of the database under
  the repositories' operations holds under the handlers. The last is the locale \<open>db_property\<close>: a
  predicate kept by \<open>db_step\<close> is kept by every handler.
\<close>

section \<open>The handlers as a relation\<close>

text \<open>\<open>api_call db code ok db'\<close>: a request is answered with status \<open>code\<close> and success flag \<open>ok\<close>.\<close>

inductive api_call :: "database \<Rightarrow> nat \<Rightarrow> bool \<Rightarrow> database \<Rightarrow> bool" where
  register_host: "register_host hdr hb db ck = ((code, resp), db', ck') \<Longrightarrow> api_call db code (ar_success resp) db'"
| list_hosts: "list_hosts status nm db = ((code, resp), db') \<Longrightarrow> api_call db code (ar_success resp) db'"
| get_host: "get_host idstr db = ((code, resp), db') \<Longrightarrow> api_call db code (ar_success resp) db'"
| update_host: "update_host_handler idstr ub db ck = ((code, resp), evs, db', ck') \<Longrightarrow> api_call db code (ar_success resp) db'"
| delete_host: "delete_host_handler idstr db = ((code, resp), db') \<Longrightarrow> api_call db code (ar_success resp) db'"
| host_config: "get_host_configuration idstr db = ((code, resp), db') \<Longrightarrow> api_call db code (ar_success resp) db'"
| create_group: "create_host_group gb db ck = ((code, gresp), db', ck') \<Longrightarrow> api_call db code (ar_success gresp) db'"
| list_groups: "list_host_groups db = ((code, gresp), db') \<Longrightarrow> api_call db code (ar_success gresp) db'"
| get_group: "get_host_group idstr db = ((code, gresp), db') \<Longrightarrow> api_call db code (ar_success gresp) db'"
| update_group: "update_host_group idstr gub db = ((code, gresp), db') \<Longrightarrow> api_call db code (ar_success gresp) db'"
| delete_group: "delete_host_group idstr db = ((code, gresp), db') \<Longrightarrow> api_call db code (ar_success gresp) db'"
| create_dynamic: "create_dynamic_group dqb db ck = ((code, gresp), db', ck') \<Longrightarrow> api_call db code (ar_success gresp) db'"
| list_dynamics: "list_dynamic_groups db = ((code, gresp), db') \<Longrightarrow> api_call db code (ar_success gresp) db'"
| get_dynamic: "get_dynamic_group idstr db = ((code, gresp), db') \<Longrightarrow> api_call db code (ar_success gresp) db'"
| update_dynamic: "update_dynamic_group idstr dub db = ((code, gresp), db') \<Longrightarrow> api_call db code (ar_success gresp) db'"
| delete_dynamic: "delete_dynamic_group idstr db = ((code, gresp), db') \<Longrightarrow> api_call db code (ar_success gresp) db'"
| assign_config: "assign_host_to_config ab db ck = ((code, aresp), evs, db', ck') \<Longrightarrow> api_call db code (ar_success aresp) db'"
| assign_group: "assign_host_to_group ab db ck = ((code, aresp), evs, db', ck') \<Longrightarrow> api_call db code (ar_success aresp) db'"
| assign_dynamic: "assign_host_to_dynamic_group ab db = ((code, aresp), db') \<Longrightarrow> api_call db code (ar_success aresp) db'"
| assignments: "get_host_assignments idstr db = ((code, aresp), db') \<Longrightarrow> api_call db code (ar_success aresp) db'"
| list_configs: "list_configurations db = ((code, cresp), db') \<Longrightarrow> api_call db code (ar_success cresp) db'"
| create_config: "create_configuration cb db ck = ((code, cresp), db', ck') \<Longrightarrow> api_call db code (ar_success cresp) db'"
| get_config: "get_configuration idstr db = ((code, cresp), db') \<Longrightarrow> api_call db code (ar_success cresp) db'"
| update_config: "update_configuration idstr cb db ck = ((code, cresp), db', ck') \<Longrightarrow> api_call db code (ar_success cresp) db'"
| delete_config: "delete_configuration idstr db = ((code, cresp), db') \<Longrightarrow> api_call db code (ar_success cresp) db'"

lemmas handler_defs = register_host_def list_hosts_def get_host_def update_host_handler_def
  delete_host_handler_def get_host_configuration_def create_host_group_def list_host_groups_def
  get_host_group_def update_host_group_def delete_host_group_def create_dynamic_group_def
  list_dynamic_groups_def get_dynamic_group_def update_dynamic_group_def delete_dynamic_group_def
  assign_host_to_config_def assign_host_to_group_def assign_host_to_dynamic_group_def
  get_host_assignments_def list_configurations_def create_configuration_def get_configuration_def
  update_configuration_def delete_configuration_def

lemmas lookup_defs = with_host_def with_group_def with_dynamic_def with_configuration_def with_row_def

lemmas result_splits = sum.splits prod.splits option.splits if_splits

section \<open>Well-formed responses\<close>

text \<open>A result whose success flag says what its status says.\<close>

definition reply_ok :: "'d http_result \<Rightarrow> bool" where
  "reply_ok r \<longleftrightarrow> (ar_success (snd r) \<longleftrightarrow> fst r < 400) \<and> fst r \<in> {200, 201, 400, 404, 409, 500}"

named_theorems reply_intros "parts of handlers that give well-formed responses"

lemma reply_write [reply_intros]:
  "code \<in> {400, 404, 409, 500} \<Longrightarrow> reply_ok (write_error code msg e)"
  "code \<in> {200, 201} \<Longrightarrow> reply_ok (write_ok code msg d)"
  by (auto simp: reply_ok_def write_error_def write_ok_def new_error_response_def new_success_response_def)

lemma reply_parts [reply_intros]:
  "with_row bad failed missing get idstr db = (Inl r, db') \<Longrightarrow> reply_ok r"
  "with_configuration idstr db = (Inl cr, db') \<Longrightarrow> reply_ok cr"
  "check_config c db = (Some r, db') \<Longrightarrow> reply_ok r"
  "name_conflict gbn msg new old db = (Some r, db') \<Longrightarrow> reply_ok r"
  "ids_missing target rq = Some ar \<Longrightarrow> reply_ok ar"
  "named_row failed code missing res = (Inl ar, db') \<Longrightarrow> code \<in> {400, 404} \<Longrightarrow> reply_ok ar"
  by (auto simp: lookup_defs check_config_def name_conflict_def ids_missing_def named_row_def
      split: result_splits intro: reply_write)

lemma reply_host_handlers:
  "ensures (\<lambda>r. reply_ok (fst r)) (register_host hdr hb db ck)"
  "ensures (\<lambda>r. reply_ok (fst r)) (list_hosts status nm db)"
  "ensures (\<lambda>r. reply_ok (fst r)) (get_host idstr db)"
  "ensures (\<lambda>r. reply_ok (fst r)) (update_host_handler idstr ub db ck)"
  "ensures (\<lambda>r. reply_ok (fst r)) (delete_host_handler idstr db)"
  "ensures (\<lambda>r. reply_ok (fst r)) (get_host_configuration idstr db)"
  unfolding handler_defs with_host_def with_group_def with_dynamic_def
  by (intro ensures_tree; auto simp: ensures_def intro: reply_intros)+

lemma reply_group_handlers:
  "ensures (\<lambda>r. reply_ok (fst r)) (create_host_group gb db ck)"
  "ensures (\<lambda>r. reply_ok (fst r)) (list_host_groups db)"
  "ensures (\<lambda>r. reply_ok (fst r)) (get_host_group idstr db)"
  "ensures (\<lambda>r. reply_ok (fst r)) (update_host_group idstr gub db)"
  "ensures (\<lambda>r. reply_ok (fst r)) (delete_host_group idstr db)"
  unfolding handler_defs with_host_def with_group_def with_dynamic_def
  by (intro ensures_tree; auto simp: ensures_def intro: reply_intros)+

lemma reply_dynamic_handlers:
  "ensures (\<lambda>r. reply_ok (fst r)) (create_dynamic_group dqb db ck)"
  "ensures (\<lambda>r. reply_ok (fst r)) (list_dynamic_groups db)"
  "ensures (\<lambda>r. reply_ok (fst r)) (get_dynamic_group idstr db)"
  "ensures (\<lambda>r. reply_ok (fst r)) (update_dynamic_group idstr dub db)"
  "ensures (\<lambda>r. reply_ok (fst r)) (delete_dynamic_group idstr db)"
  unfolding handler_defs with_host_def with_group_def with_dynamic_def
  by (intro ensures_tree; auto simp: ensures_def intro: reply_intros)+

lemma reply_assignment_handlers:
  "ensures (\<lambda>r. reply_ok (fst r)) (assign_host_to_config ab db ck)"
  "ensures (\<lambda>r. reply_ok (fst r)) (assign_host_to_group ab db ck)"
  "ensures (\<lambda>r. reply_ok (fst r)) (assign_host_to_dynamic_group ab db)"
  "ensures (\<lambda>r. reply_ok (fst r)) (get_host_assignments idstr db)"
  unfolding handler_defs with_host_def with_group_def with_dynamic_def
  by (intro ensures_tree; auto simp: ensures_def intro: reply_intros)+

lemma reply_config_handlers:
  "ensures (\<lambda>r. reply_ok (fst r)) (list_configurations db)"
  "ensures (\<lambda>r. reply_ok (fst r)) (create_configuration cb db ck)"
  "ensures (\<lambda>r. reply_ok (fst r)) (get_configuration idstr db)"
  "ensures (\<lambda>r. reply_ok (fst r)) (update_configuration idstr cb db ck)"
  "ensures (\<lambda>r. reply_ok (fst r)) (delete_configuration idstr db)"
  unfolding handler_defs with_host_def with_group_def with_dynamic_def
  by (intro ensures_tree; auto simp: ensures_def intro: reply_intros)+

lemmas reply_handlers = reply_host_handlers reply_group_handlers reply_dynamic_handlers reply_assignment_handlers reply_config_handlers

lemma api_call_reply: "api_call db code ok db' \<Longrightarrow> (ok \<longleftrightarrow> code < 400) \<and> code \<in> {200, 201, 400, 404, 409, 500}"
  by (cases rule: api_call.cases, assumption; drule reply_handlers [THEN ensuresD]; simp add: reply_ok_def)

section \<open>What the handlers keep\<close>

text \<open>
  The contract of a predicate on databases: the smaller one is kept by queries and gives that the
  reading handlers keep it, the larger one is kept by every operation of the repositories.
\<close>

locale db_query_property =
  fixes P :: "database \<Rightarrow> bool"
  assumes query: "P db \<Longrightarrow> P (db\<lparr>db_conns := (\<lambda>n. db_conns db (Suc n))\<rparr>)"
begin

lemma query_row: "query_row q db = (r, db') \<Longrightarrow> P db \<Longrightarrow> P db'"
  using query by (auto simp: query_row_def Let_def split: option.splits if_splits)

lemma query_rows: "query_rows q db = (r, db') \<Longrightarrow> P db \<Longrightarrow> P db'"
  using query by (auto simp: query_rows_def Let_def split: option.splits if_splits)

lemma wrapped_row: "wrap_error msg (query_row q db) = (r, db') \<Longrightarrow> P db \<Longrightarrow> P db'"
  by (cases "query_row q db") (auto simp: wrap_error_def dest: query_row split: sum.splits)

lemma wrapped_rows: "wrap_error msg (query_rows q db) = (r, db') \<Longrightarrow> P db \<Longrightarrow> P db'"
  by (cases "query_rows q db") (auto simp: wrap_error_def dest: query_rows split: sum.splits)

lemma by_id: "get_by_id msg i q db = (r, db') \<Longrightarrow> P db \<Longrightarrow> P db'"
  by (auto simp: get_by_id_def dest: wrapped_row split: if_splits)

lemma lookups:
  "config_get_by_id i db = (r1, db') \<Longrightarrow> P db \<Longrightarrow> P db'"
  "host_get_by_id i db = (r2, db') \<Longrightarrow> P db \<Longrightarrow> P db'"
  "host_get_by_hostname nm db = (r2, db') \<Longrightarrow> P db \<Longrightarrow> P db'"
  "group_get_by_id i db = (r3, db') \<Longrightarrow> P db \<Longrightarrow> P db'"
  "group_get_by_name nm db = (r3, db') \<Longrightarrow> P db \<Longrightarrow> P db'"
  "dynamic_get_by_id i db = (r4, db') \<Longrightarrow> P db \<Longrightarrow> P db'"
  "dynamic_get_by_name nm db = (r4, db') \<Longrightarrow> P db \<Longrightarrow> P db'"
  "config_list db = (r5, db') \<Longrightarrow> P db \<Longrightarrow> P db'"
  "host_list db = (r6, db') \<Longrightarrow> P db \<Longrightarrow> P db'"
  "group_list db = (r7, db') \<Longrightarrow> P db \<Longrightarrow> P db'"
  "dynamic_list db = (r8, db') \<Longrightarrow> P db \<Longrightarrow> P db'"
  unfolding config_get_by_id_def host_get_by_id_def host_get_by_hostname_def group_get_by_id_def
    group_get_by_name_def dynamic_get_by_id_def dynamic_get_by_name_def config_list_def host_list_def
    group_list_def dynamic_list_def
  by (blast dest: by_id wrapped_row wrapped_rows)+

lemma row_parts:
  assumes "P db"
  shows "named_row failed code missing (host_get_by_id i db) = (x1, db') \<Longrightarrow> P db'"
    "named_row failed code missing (config_get_by_id i db) = (x2, db') \<Longrightarrow> P db'"
    "named_row failed code missing (group_get_by_id i db) = (x3, db') \<Longrightarrow> P db'"
    "named_row failed code missing (dynamic_get_by_id i db) = (x4, db') \<Longrightarrow> P db'"
    "with_row bad failed missing host_get_by_id idstr db = (y1, db') \<Longrightarrow> P db'"
    "with_row bad failed missing group_get_by_id idstr db = (y2, db') \<Longrightarrow> P db'"
    "with_row bad failed missing dynamic_get_by_id idstr db = (y3, db') \<Longrightarrow> P db'"
    "with_configuration idstr db = (y4, db') \<Longrightarrow> P db'"
    "name_conflict group_get_by_name msg new old db = (z, db') \<Longrightarrow> P db'"
    "name_conflict dynamic_get_by_name msg new old db = (z, db') \<Longrightarrow> P db'"
  using assms
  by (auto simp: named_row_def with_row_def with_configuration_def name_conflict_def dest: lookups
      split: result_splits)

lemma config_parts:
  assumes "P db"
  shows "check_config c db = (x, db') \<Longrightarrow> P db'" "assigned_config c db = (y, db') \<Longrightarrow> P db'"
    "notify_host i h db = (evs, db') \<Longrightarrow> P db'" "matching_hosts pat db = (hs, db') \<Longrightarrow> P db'"
    "host_effective_config h db = (z, db') \<Longrightarrow> P db'"
  using assms
  by (auto simp: check_config_def assigned_config_def notify_host_def matching_hosts_def
      host_effective_config_def config_from_static_groups_def config_from_dynamic_groups_def
      dest: lookups split: result_splits)

lemma optional_config:
  "(case r of None \<Rightarrow> (Inr None, db) | Some c \<Rightarrow> config_get_by_id c db) = (x, db') \<Longrightarrow> P db \<Longrightarrow> P db'"
  by (auto dest: lookups split: option.splits)

lemma group_rows: "group_rows gs db = (x, db') \<Longrightarrow> P db \<Longrightarrow> P db'"
  by (induction gs arbitrary: db x) (auto simp: Let_def dest: config_parts split: prod.splits)

lemma dynamic_rows: "dynamic_rows gs db = (x, db') \<Longrightarrow> P db \<Longrightarrow> P db'"
proof (induction gs arbitrary: db x)
  case (Cons g gs)
  obtain c db1 where c: "assigned_config (dg_config g) db = (c, db1)" by (rule prod.exhaust)
  obtain hs db2 where h: "matching_hosts (dg_pattern g) db1 = (hs, db2)" by (rule prod.exhaust)
  have "P db2" using config_parts(2) [OF Cons.prems(2) c] config_parts(4) [OF _ h] by blast
  with Cons c h show ?case by (auto simp: Let_def split: prod.splits)
qed simp

lemma host_rows: "host_rows hs db = (x, db') \<Longrightarrow> P db \<Longrightarrow> P db'"
proof (induction hs arbitrary: db db' x)
  case (Cons h hs)
  have "ensures (\<lambda>(rows, db'). P db') (host_rows (h # hs) db)"
    unfolding host_rows.simps
    by (intro ensures_tree; auto simp: ensures_def split: option.splits prod.splits sum.splits
        dest: Cons.IH lookups config_parts(5) [OF Cons.prems(2)] dest!: config_parts(5) [rotated] intro: Cons.prems)
  with Cons.prems(1) show ?case by (auto dest: ensuresD)
qed simp

lemma reading_handlers:
  assumes "P db"
  shows
    "ensures (\<lambda>(r, db'). P db') (list_hosts status nm db)"
    "ensures (\<lambda>(r, db'). P db') (get_host idstr db)"
    "ensures (\<lambda>(r, db'). P db') (get_host_configuration idstr db)"
    "ensures (\<lambda>(r, db'). P db') (list_host_groups db)"
    "ensures (\<lambda>(r, db'). P db') (get_host_group idstr db)"
    "ensures (\<lambda>(r, db'). P db') (list_dynamic_groups db)"
    "ensures (\<lambda>(r, db'). P db') (get_dynamic_group idstr db)"
    "ensures (\<lambda>(r, db'). P db') (assign_host_to_dynamic_group ab db)"
    "ensures (\<lambda>(r, db'). P db') (get_host_assignments idstr db)"
    "ensures (\<lambda>(r, db'). P db') (list_configurations db)"
    "ensures (\<lambda>(r, db'). P db') (get_configuration idstr db)"
  unfolding handler_defs with_host_def with_group_def with_dynamic_def
  by (intro ensures_tree; auto simp: ensures_def assms
      dest!: lookups row_parts [rotated] config_parts [rotated] optional_config group_rows dynamic_rows host_rows)+

end

locale db_property =
  fixes P :: "database \<Rightarrow> bool"
  assumes step: "P db \<Longrightarrow> db_step db db' \<Longrightarrow> P db'"
begin

lemma writes:
  "config_create c db ck = (e, c', db', ck') \<Longrightarrow> P db \<Longrightarrow> P db'"
  "config_update c db ck = (e, c', db', ck') \<Longrightarrow> P db \<Longrightarrow> P db'"
  "config_delete i db = (e, db') \<Longrightarrow> P db \<Longrightarrow> P db'"
  "host_create h db ck = (e, h', db', ck') \<Longrightarrow> P db \<Longrightarrow> P db'"
  "host_update h db ck = (e, h', db', ck') \<Longrightarrow> P db \<Longrightarrow> P db'"
  "host_delete i db = (e, db') \<Longrightarrow> P db \<Longrightarrow> P db'"
  "group_create g db ck = (e, g', db', ck') \<Longrightarrow> P db \<Longrightarrow> P db'"
  "group_update g db = (e, db') \<Longrightarrow> P db \<Longrightarrow> P db'"
  "group_delete i db = (e, db') \<Longrightarrow> P db \<Longrightarrow> P db'"
  "dynamic_create d db ck = (e, d', db', ck') \<Longrightarrow> P db \<Longrightarrow> P db'"
  "dynamic_update d db = (e, db') \<Longrightarrow> P db \<Longrightarrow> P db'"
  "dynamic_delete i db = (e, db') \<Longrightarrow> P db \<Longrightarrow> P db'"
  by (rule step, assumption, erule db_step.intros)+

end

sublocale db_property \<subseteq> db_query_property P
  by unfold_locales (rule step [OF _ db_step.query])

context db_property begin

lemma writing_handlers:
  assumes "P db"
  shows
    "ensures (\<lambda>(r, db', ck'). P db') (register_host hdr hb db ck)"
    "ensures (\<lambda>(r, evs, db', ck'). P db') (update_host_handler idstr ub db ck)"
    "ensures (\<lambda>(r, db'). P db') (delete_host_handler idstr db)"
    "ensures (\<lambda>(r, db', ck'). P db') (create_host_group gb db ck)"
    "ensures (\<lambda>(r, db'). P db') (update_host_group idstr gub db)"
    "ensures (\<lambda>(r, db'). P db') (delete_host_group idstr db)"
    "ensures (\<lambda>(r, db', ck'). P db') (create_dynamic_group dqb db ck)"
    "ensures (\<lambda>(r, db'). P db') (update_dynamic_group idstr dub db)"
    "ensures (\<lambda>(r, db'). P db') (delete_dynamic_group idstr db)"
    "ensures (\<lambda>(r, evs, db', ck'). P db') (assign_host_to_config ab db ck)"
    "ensures (\<lambda>(r, evs, db', ck'). P db') (assign_host_to_group ab db ck)"
    "ensures (\<lambda>(r, db', ck'). P db') (create_configuration cb db ck)"
    "ensures (\<lambda>(r, db', ck'). P db') (update_configuration idstr cb db ck)"
    "ensures (\<lambda>(r, db'). P db') (delete_configuration idstr db)"
  unfolding handler_defs with_host_def with_group_def with_dynamic_def
  by (intro ensures_tree; auto simp: ensures_def assms
      dest!: lookups row_parts [rotated] config_parts [rotated] writes)+

lemma api_call: "api_call db code ok db' \<Longrightarrow> P db \<Longrightarrow> P db'"
  by (cases rule: api_call.cases, assumption;
      (drule (1) reading_handlers [THEN ensuresD, rotated] | drule (1) writing_handlers [THEN ensuresD, rotated]); simp)

end

section \<open>Errors change nothing\<close>

interpretation unchanged: db_query_property "\<lambda>db. db_tables db = t" for t
  by unfold_locales simp

interpretation consistent: db_property "\<lambda>db. tables_ok (db_tables db)"
  by unfold_locales (blast dest: db_step_ok)

interpretation referential: db_property
  "\<lambda>db. tables_ok (db_tables db) \<and> refs_ok (db_tables db) \<and> (\<forall>n. cn_foreign_keys (db_conns db n))"
  by unfold_locales (auto dest: db_step_ok db_step_refs)

lemma failed_writes:
  "config_create c db ck = (Some e, c', db', ck') \<Longrightarrow> db_tables db' = db_tables db"
  "config_update c db ck = (Some e, c', db', ck') \<Longrightarrow> db_tables db' = db_tables db"
  "config_delete i db = (Some e, db') \<Longrightarrow> db_tables db' = db_tables db"
  "group_create g db ck = (Some e, g', db', ck') \<Longrightarrow> db_tables db' = db_tables db"
  "group_update g db = (Some e, db') \<Longrightarrow> db_tables db' = db_tables db"
  "group_delete i db = (Some e, db') \<Longrightarrow> db_tables db' = db_tables db"
  "dynamic_create d db ck = (Some e, d', db', ck') \<Longrightarrow> db_tables db' = db_tables db"
  "dynamic_update d db = (Some e, db') \<Longrightarrow> db_tables db' = db_tables db"
  "dynamic_delete i db = (Some e, db') \<Longrightarrow> db_tables db' = db_tables db"
  by (auto simp: config_create_def config_update_def config_delete_def group_create_def group_update_def
      group_delete_def dynamic_create_def dynamic_update_def dynamic_delete_def exec_stmt_def wrap_error_def Let_def
      dest: exec_only_failed split: prod.splits sum.splits option.splits)

lemma error_keeps:
  assumes "db_tables db = t"
  shows
    "ensures (\<lambda>(r, db', ck'). 400 \<le> fst r \<longrightarrow> db_tables db' = t) (register_host hdr hb db ck)"
    "ensures (\<lambda>(r, evs, db', ck'). 400 \<le> fst r \<longrightarrow> db_tables db' = t) (update_host_handler idstr ub db ck)"
    "ensures (\<lambda>(r, db'). 400 \<le> fst r \<longrightarrow> db_tables db' = t) (delete_host_handler idstr db)"
    "ensures (\<lambda>(r, db', ck'). 400 \<le> fst r \<longrightarrow> db_tables db' = t) (create_host_group gb db ck)"
    "ensures (\<lambda>(r, db'). 400 \<le> fst r \<longrightarrow> db_tables db' = t) (update_host_group idstr gub db)"
    "ensures (\<lambda>(r, db'). 400 \<le> fst r \<longrightarrow> db_tables db' = t) (delete_host_group idstr db)"
    "ensures (\<lambda>(r, db', ck'). 400 \<le> fst r \<longrightarrow> db_tables db' = t) (create_dynamic_group dqb db ck)"
    "ensures (\<lambda>(r, db'). 400 \<le> fst r \<longrightarrow> db_tables db' = t) (update_dynamic_group idstr dub db)"
    "ensures (\<lambda>(r, db'). 400 \<le> fst r \<longrightarrow> db_tables db' = t) (delete_dynamic_group idstr db)"
    "ensures (\<lambda>(r, evs, db', ck'). 400 \<le> fst r \<longrightarrow> db_tables db' = t) (assign_host_to_config ab db ck)"
    "ensures (\<lambda>(r, evs, db', ck'). 400 \<le> fst r \<longrightarrow> db_tables db' = t) (assign_host_to_group ab db ck)"
    "ensures (\<lambda>(r, db', ck'). 400 \<le> fst r \<longrightarrow> db_tables db' = t) (create_configuration cb db ck)"
    "ensures (\<lambda>(r, db', ck'). 400 \<le> fst r \<longrightarrow> db_tables db' = t) (update_configuration idstr cb db ck)"
    "ensures (\<lambda>(r, db'). 400 \<le> fst r \<longrightarrow> db_tables db' = t) (delete_configuration idstr db)"
  unfolding handler_defs with_host_def with_group_def with_dynamic_def
  by (intro ensures_tree; auto simp: ensures_def assms write_ok_def
      dest!: unchanged.lookups [where t = t] unchanged.row_parts [where t = t, rotated]
        unchanged.config_parts [where t = t, rotated] failed_writes write_failed)+

lemma api_call_error: "api_call db code ok db' \<Longrightarrow> 400 \<le> code \<Longrightarrow> db_tables db' = db_tables db"
  by (cases rule: api_call.cases, assumption;
      (drule unchanged.reading_handlers [THEN ensuresD, OF refl] | drule error_keeps [THEN ensuresD, OF refl]); simp)

section \<open>Stored rows\<close>

lemma row_found:
  assumes "query_row q db = (Inr (Some r), db')"
  shows "r \<in> set (q (db_tables db))"
  using assms by (auto simp: query_row_def Let_def split: option.splits if_splits list.splits)

lemma config_found:
  assumes "config_get_by_id i db = (Inr (Some c), db')"
  shows "\<exists>row \<in> set (tb_configs (db_tables db)). cr_id row = i \<and> config_of_row row = c"
  using assms
  by (auto simp: config_get_by_id_def get_by_id_def wrap_error_def dest!: row_found split: if_splits prod.splits sum.splits)

lemma host_found:
  assumes "host_get_by_id i db = (Inr (Some h), db')"
  shows "h \<in> set (tb_hosts (db_tables db)) \<and> ho_id h = i"
  using assms
  by (auto simp: host_get_by_id_def get_by_id_def wrap_error_def dest!: row_found split: if_splits prod.splits sum.splits)

lemma group_found:
  assumes "group_get_by_id i db = (Inr (Some g), db')"
  shows "g \<in> set (tb_groups (db_tables db)) \<and> hg_id g = i"
  using assms
  by (auto simp: group_get_by_id_def get_by_id_def wrap_error_def dest!: row_found split: if_splits prod.splits sum.splits)

lemma named_row_found:
  "named_row failed code missing res = (Inr r, db') \<Longrightarrow> res = (Inr (Some r), db')"
  by (auto simp: named_row_def split: result_splits)

lemma config_update_ok:
  assumes "config_update c db ck = (None, c', db', ck')"
  obtains t where "sql_update_config (config_row_of (c\<lparr>cf_updated := ck 0\<rparr>)) (cn_foreign_keys (db_conns db 0)) (db_tables db) = Inr ((), t)"
    "c' = c\<lparr>cf_updated := ck 0\<rparr>" "db_tables db' = t"
proof -
  let ?c1 = "c\<lparr>cf_updated := ck 0\<rparr>"
  obtain r db1 where x: "exec_stmt (sql_update_config (config_row_of ?c1)) db = (r, db1)" by (rule prod.exhaust)
  have e: "c' = ?c1" "db' = db1" "\<exists>u. r = Inr u"
    using assms x by (auto simp: config_update_def wrap_error_def now_def Let_def split: sum.splits)
  from x show ?thesis by (cases rule: exec_stmt_cases) (use that e in auto)
qed

lemma mapped_lookup:
  assumes "keyed idf sq rs" "r \<in> set rs" "\<And>x. idf (f x) = idf x"
  shows "filter (\<lambda>x. idf x = idf r) (map f rs) = [f r]"
  using assms keyed_lookup [OF assms(1,2)] by (simp add: filter_map o_def)

text \<open>The row of a host after a successful update.\<close>

lemma updated_host_row:
  assumes "host_update h db ck = (None, h', db', ck')" "tables_ok (db_tables db)"
    and "old \<in> set (tb_hosts (db_tables db))" "ho_id old = ho_id h"
  shows "filter (\<lambda>x. ho_id x = ho_id h) (tb_hosts (db_tables db')) =
    [old\<lparr>ho_ip := ho_ip h, ho_last_seen := ck 0, ho_status := ho_status h, ho_config := ho_config h\<rparr>] \<and>
    tb_groups (db_tables db') = tb_groups (db_tables db) \<and>
    tb_members (db_tables db') = tb_members (db_tables db)"
proof -
  let ?h1 = "h\<lparr>ho_last_seen := ck 0\<rparr>"
  let ?f = "\<lambda>x. if ho_id x = ho_id ?h1 then set_host_columns ?h1 x else x"
  obtain t where st: "sql_update_host ?h1 (cn_foreign_keys (db_conns db 0)) (db_tables db) = Inr ((), t)"
    and t: "db_tables db' = t"
    using assms(1) by (rule host_update_ok)
  then have t': "t = (db_tables db)\<lparr>tb_hosts := map ?f (tb_hosts (db_tables db))\<rparr>"
    by (auto simp: sql_update_host_def split: if_splits)
  have "keyed ho_id (tb_host_seq (db_tables db)) (tb_hosts (db_tables db))"
    using assms(2) by (simp add: tables_ok_def)
  from mapped_lookup [OF this assms(3), of ?f] show ?thesis
    using t t' assms(4) by (simp add: set_host_columns_def)
qed

lemma named_row_status: "named_row failed code missing res = (Inl r, db') \<Longrightarrow> fst r = 500 \<or> fst r = code"
  by (auto simp: named_row_def write_error_def split: result_splits)

lemma assign_group_done:
  "ensures (\<lambda>(r, evs, db', ck'). fst r = 200 \<longrightarrow>
      (\<exists>h db1 g db2 h2 db3. host_get_by_id (aq_host rq) db = (Inr (Some h), db1) \<and>
         group_get_by_id (aq_target rq) db1 = (Inr (Some g), db2) \<and>
         host_update (group_assigned g h) db2 ck = (None, h2, db3, ck') \<and>
         notify_host (aq_host rq) h2 db3 = (evs, db')))
     (assign_host_to_group (Inr rq) db ck)"
  unfolding assign_host_to_group_def sum.case
  apply (intro ensures_tree; unfold ensures_def write_ok_def write_error_def; simp (no_asm_simp))
     apply (fastforce dest!: named_row_status)
    apply (fastforce dest!: named_row_status)
   apply (blast dest: named_row_found)
  apply (auto simp: ids_missing_def write_error_def split: if_splits)
  done

lemma fresh_tables: "tables_ok initialize" "refs_ok initialize"
  by (auto simp: tables_ok_def refs_ok_def initialize_def keyed_def max_rowid_def)

lemma stored_columns:
  "config_of_row (set_config_columns (config_row_of c) row) = c\<lparr>cf_id := cr_id row, cf_created := cr_created row\<rparr>"
  by (cases c) (simp add: config_of_row_def config_row_of_def set_config_columns_def json_slice_array bool_to_int_def)

section \<open>Properties\<close>

text \<open>
  C35. Every response is well-formed, whatever the request and whatever the database answers: its
  status is one of the six the interface uses, and its success flag is set exactly if the status
  is below 400.
\<close>

theorem api_responses_well_formed:
  "api_call db code ok db' \<Longrightarrow> (ok \<longleftrightarrow> code < 400) \<and> code \<in> {200, 201, 400, 404, 409, 500}"
  by (rule api_call_reply)

text \<open>
  C11. Whatever the request, an answer with a status of 400 or more has changed no table: every
  handler runs its one writing statement last, and a failed statement changes nothing.
\<close>

theorem api_errors_change_nothing:
  "api_call db code ok db' \<Longrightarrow> 400 \<le> code \<Longrightarrow> db_tables db' = db_tables db"
  by (rule api_call_error)

text \<open>
  C6. The server keeps the database consistent: after any sequence of requests to the interface,
  whichever of them failed, ids and names are unique and stored lists well-formed, and if every
  connection enforces foreign keys no reference dangles.
\<close>

theorem api_keeps_database_consistent:
  assumes "(\<lambda>db db'. \<exists>code ok. api_call db code ok db')\<^sup>*\<^sup>* \<lparr>db_tables = initialize, db_conns = cns\<rparr> db"
  shows "tables_ok (db_tables db) \<and> ((\<forall>n. cn_foreign_keys (cns n)) \<longrightarrow> refs_ok (db_tables db))"
proof -
  have "tables_ok (db_tables db) \<and>
      ((\<forall>n. cn_foreign_keys (cns n)) \<longrightarrow> refs_ok (db_tables db) \<and> (\<forall>n. cn_foreign_keys (db_conns db n)))"
    using assms
  proof induction
    case base
    show ?case by (simp add: fresh_tables)
  next
    case (step y z)
    then show ?case using consistent.api_call referential.api_call by blast
  qed
  then show ?thesis by blast
qed

text \<open>
  C32. A configuration update merges: after a 200 the row with the id of the path has, field by field, the
  name of the request if it is not empty and the old one otherwise; each of the three lists of the request if
  it was given, also an empty one, and the old one if it was left out or \<open>null\<close>; each of the four times of the request if it
  is not 0 and the old one otherwise; always the request's flag
  \<open>restrict_to_allowed_dns\<close>, so that leaving it out clears it; the old id and creation time and the time of the update.
  The answer shows this row.
\<close>

theorem configuration_update_merges:
  assumes "update_configuration idstr (Inr b) db ck = ((200, resp), db', ck')" "tables_ok (db_tables db)"
  shows "\<exists>i row row' c c'. parse_uint32 idstr = Some i \<and>
    filter (\<lambda>r. cr_id r = i) (tb_configs (db_tables db)) = [row] \<and> c = config_of_row row \<and>
    filter (\<lambda>r. cr_id r = i) (tb_configs (db_tables db')) = [row'] \<and> c' = config_of_row row' \<and>
    cf_name c' = (if cb_name b = [] then cf_name c else cb_name b) \<and>
    cf_dns_servers c' = (case cb_dns_servers b of None \<Rightarrow> cf_dns_servers c | Some xs \<Rightarrow> xs) \<and>
    cf_whitelist c' = (case cb_whitelist b of None \<Rightarrow> cf_whitelist c | Some xs \<Rightarrow> xs) \<and>
    cf_blacklist c' = (case cb_blacklist b of None \<Rightarrow> cf_blacklist c | Some xs \<Rightarrow> xs) \<and>
    cf_default_ttl c' = (if cb_default_ttl b = 0 then cf_default_ttl c else cb_default_ttl b) \<and>
    cf_max_ttl c' = (if cb_max_ttl b = 0 then cf_max_ttl c else cb_max_ttl b) \<and>
    cf_min_ttl c' = (if cb_min_ttl b = 0 then cf_min_ttl c else cb_min_ttl b) \<and>
    cf_refresh_interval c' = (if cb_refresh_interval b = 0 then cf_refresh_interval c else cb_refresh_interval b) \<and>
    cf_restrict c' = cb_restrict b \<and> cf_id c' = i \<and> cf_created c' = cf_created c \<and> cf_updated c' = ck 0 \<and>
    ar_data resp = Some (Config_data c')"
proof -
  obtain i c db1 c1 where w: "with_configuration idstr db = (Inr (i, c), db1)"
    and u: "config_update (merge_configuration b c) db1 ck = (None, c1, db', ck')"
    and resp: "ar_data resp = Some (Config_data c1)"
    using assms(1)
    by (auto simp: update_configuration_def write_error_def write_ok_def new_success_response_def
        with_configuration_def split: result_splits)
  have i: "parse_uint32 idstr = Some i" and g: "config_get_by_id i db = (Inr (Some c), db1)"
    using w by (auto simp: with_configuration_def split: result_splits)
  have same: "db_tables db1 = db_tables db" by (rule unchanged.lookups(1) [OF g refl])
  obtain row where row: "row \<in> set (tb_configs (db_tables db))" "cr_id row = i" "config_of_row row = c"
    using config_found [OF g] by blast
  let ?c1 = "(merge_configuration b c)\<lparr>cf_updated := ck 0\<rparr>"
  let ?f = "\<lambda>r. if cr_id r = cr_id (config_row_of ?c1) then set_config_columns (config_row_of ?c1) r else r"
  obtain t where st: "sql_update_config (config_row_of ?c1) (cn_foreign_keys (db_conns db1 0)) (db_tables db) = Inr ((), t)"
    and c1: "c1 = ?c1" and t: "db_tables db' = t"
    using config_update_ok [OF u] same by metis
  have rows: "tb_configs t = map ?f (tb_configs (db_tables db))"
    using st by (auto simp: sql_update_config_def split: if_splits)
  have k: "keyed cr_id (tb_config_seq (db_tables db)) (tb_configs (db_tables db))"
    using assms(2) by (simp add: tables_ok_def)
  have "cr_id (?f r) = cr_id r" for r by (simp add: set_config_columns_def)
  from mapped_lookup [OF k row(1), of ?f, OF this] have new: "filter (\<lambda>r. cr_id r = i) (tb_configs t) = [?f row]"
    using rows row(2) by simp
  have c: "cf_id ?c1 = i" "cf_created ?c1 = cr_created row"
    using row by (auto simp: merge_configuration_def config_of_row_def)
  then have "config_of_row (?f row) = c1"
    using row(2) by (simp add: c1 demo_row_id stored_columns)
  moreover have "cf_id c = i" using row by (auto simp: config_of_row_def)
  ultimately show ?thesis
    using new keyed_lookup [OF k row(1)] row resp i t c1
    by (intro exI [of _ i] exI [of _ row] exI [of _ "?f row"] exI [of _ c] exI [of _ c1])
      (simp add: merge_configuration_def keep_list_def keep_int_def)
qed

text \<open>
  C19. Assigning a host to a static group copies the group's configuration: after a 200 the host's
  row carries the configuration the group has at that moment and the status that goes with it,
  and neither the groups nor the memberships have changed, so nothing ties the host to the group.
\<close>

theorem group_assignment_copies:
  assumes "assign_host_to_group (Inr rq) db ck = ((200, resp), evs, db', ck')" "tables_ok (db_tables db)"
  shows "\<exists>h g. h \<in> set (tb_hosts (db_tables db)) \<and> ho_id h = aq_host rq \<and>
    g \<in> set (tb_groups (db_tables db)) \<and> hg_id g = aq_target rq \<and>
    filter (\<lambda>x. ho_id x = aq_host rq) (tb_hosts (db_tables db')) =
      [h\<lparr>ho_last_seen := ck 0, ho_config := hg_config g,
         ho_status := (if hg_config g = None then ''unconfigured'' else ''configured'')\<rparr>] \<and>
    tb_groups (db_tables db') = tb_groups (db_tables db) \<and> tb_members (db_tables db') = tb_members (db_tables db)"
proof -
  have "\<exists>h db1 g db2 h2 db3. host_get_by_id (aq_host rq) db = (Inr (Some h), db1) \<and>
      group_get_by_id (aq_target rq) db1 = (Inr (Some g), db2) \<and>
      host_update (group_assigned g h) db2 ck = (None, h2, db3, ck') \<and>
      notify_host (aq_host rq) h2 db3 = (evs, db')"
    using assign_group_done [THEN ensuresD, OF assms(1)] by (simp only: prod.case fst_conv simp_thms)
  then obtain h db1 g db2 h2 db3 where h: "host_get_by_id (aq_host rq) db = (Inr (Some h), db1)"
    and g: "group_get_by_id (aq_target rq) db1 = (Inr (Some g), db2)"
    and u: "host_update (group_assigned g h) db2 ck = (None, h2, db3, ck')"
    and n: "notify_host (aq_host rq) h2 db3 = (evs, db')"
    by (elim exE conjE)
  have same: "db_tables db2 = db_tables db" "db_tables db1 = db_tables db" "db_tables db' = db_tables db3"
    using unchanged.lookups(2) [OF h refl] unchanged.lookups(4) [OF g refl] unchanged.config_parts(3) [OF refl n]
    by simp_all
  have hg: "h \<in> set (tb_hosts (db_tables db))" "ho_id h = aq_host rq" "g \<in> set (tb_groups (db_tables db))"
    "hg_id g = aq_target rq"
    using host_found [OF h] group_found [OF g] same by simp_all
  have id: "ho_id h = ho_id (group_assigned g h)" "ho_ip (group_assigned g h) = ho_ip h"
    "ho_config (group_assigned g h) = hg_config g"
    "ho_status (group_assigned g h) = (if hg_config g = None then ''unconfigured'' else ''configured'')"
    by (auto simp: group_assigned_def split: option.splits)
  have "tables_ok (db_tables db2)" "h \<in> set (tb_hosts (db_tables db2))" using same assms(2) hg by simp_all
  note row = updated_host_row [OF u this id(1)]
  show ?thesis
    by (rule exI [of _ h], rule exI [of _ g]) (use row hg same in \<open>simp add: id(2-4) id(1) [symmetric]\<close>)
qed

section \<open>Witnesses\<close>

lemma bad_id_answer: "get_configuration ''x'' demo_db = (write_error 400 ''Invalid configuration ID'' ''strconv.ParseUint'', demo_db)"
  by (simp add: get_configuration_def with_configuration_def parse_uint32_def is_dec_digit_def)

lemma bad_id_call: "api_call demo_db 400 False demo_db"
  using api_call.get_config [OF bad_id_answer [unfolded write_error_def]] by (simp add: new_error_response_def)

lemma api_responses_well_formed_witness:
  "let ((code, resp), db) = get_configuration ''x'' demo_db
   in (ar_success resp \<longleftrightarrow> code < 400) \<and> code \<in> {200, 201, 400, 404, 409, 500}"
  using api_responses_well_formed [OF api_call.get_config, of "''x''" demo_db] bad_id_answer
  by (simp add: write_error_def)

lemma api_errors_change_nothing_witness:
  "fst (fst (get_configuration ''x'' demo_db)) = 400 \<and> db_tables (snd (get_configuration ''x'' demo_db)) = db_tables demo_db"
  using api_errors_change_nothing [OF bad_id_call] bad_id_answer by (simp add: write_error_def)

definition demo_body :: config_body where
  "demo_body =
     \<lparr>cb_id = 0, cb_name = ''strict'', cb_dns_servers = Some [''9.9.9.9''], cb_whitelist = None, cb_blacklist = None,
      cb_default_ttl = 0, cb_max_ttl = 600, cb_min_ttl = 0, cb_refresh_interval = 0, cb_restrict = False,
      cb_created = 0, cb_updated = 0\<rparr>"

lemma demo_creation:
  "\<exists>resp db' ck'. create_configuration (Inr demo_body) fresh_db (\<lambda>_. 7) = ((201, resp), db', ck') \<and>
     length (tb_configs (db_tables db')) = 1"
  by (simp add: create_configuration_def demo_body_def config_create_def exec_stmt_def sql_insert_config_def
      wrap_error_def fresh_db_def good_conn_def initialize_def max_rowid_def write_ok_def now_def Let_def)

lemma api_keeps_database_consistent_witness:
  "\<exists>db :: database. length (tb_configs (db_tables db)) = 1 \<and> tables_ok (db_tables db) \<and> refs_ok (db_tables db)"
proof -
  obtain resp db' ck' where c: "create_configuration (Inr demo_body) fresh_db (\<lambda>_. 7) = ((201, resp), db', ck')"
    and l: "length (tb_configs (db_tables db')) = 1"
    using demo_creation by blast
  have "(\<lambda>db db'. \<exists>code ok. api_call db code ok db')\<^sup>*\<^sup>* fresh_db db'"
    using api_call.create_config [OF c] by blast
  from api_keeps_database_consistent [OF this [unfolded fresh_db_def]] l show ?thesis
    by (auto simp: good_conn_def)
qed

lemma demo_update:
  "\<exists>resp db' ck'. update_configuration ''1'' (Inr demo_body) demo_db (\<lambda>_. 9) = ((200, resp), db', ck')"
  by (simp add: update_configuration_def with_configuration_def parse_uint32_def is_dec_digit_def digits_value_def
      config_get_by_id_def get_by_id_def query_row_def config_update_def exec_stmt_def sql_update_config_def
      wrap_error_def demo_db_def demo_tables_def demo_row_id demo_config_def good_conn_def arg_ok_def write_ok_def
      merge_configuration_def config_of_row_def now_def Let_def)

lemma configuration_update_merges_witness:
  "\<exists>resp db' ck' c. update_configuration ''1'' (Inr demo_body) demo_db (\<lambda>_. 9) = ((200, resp), db', ck') \<and>
     ar_data resp = Some (Config_data c) \<and> \<not> cf_restrict c \<and> cf_max_ttl c = 600 \<and> cf_min_ttl c = 5"
proof -
  obtain resp db' ck' where u: "update_configuration ''1'' (Inr demo_body) demo_db (\<lambda>_. 9) = ((200, resp), db', ck')"
    using demo_update by blast
  obtain row c c' where r: "[r\<leftarrow>tb_configs (db_tables demo_db). cr_id r = 1] = [row]" "c = config_of_row row"
    "cf_max_ttl c' = (if cb_max_ttl demo_body = 0 then cf_max_ttl c else cb_max_ttl demo_body)"
    "cf_min_ttl c' = (if cb_min_ttl demo_body = 0 then cf_min_ttl c else cb_min_ttl demo_body)"
    "cf_restrict c' = cb_restrict demo_body" "ar_data resp = Some (Config_data c')"
    using configuration_update_merges [OF u demo_tables_ok]
    by (auto simp: parse_uint32_def is_dec_digit_def digits_value_def)
  have "row = config_row_of demo_config"
    using r(1) by (simp add: demo_db_def demo_tables_def demo_row_id demo_config_def)
  with r(2-6) u show ?thesis
    by (auto simp: demo_body_def config_of_row_def config_row_of_def demo_config_def)
qed

definition demo_static_db :: database where
  "demo_static_db = \<lparr>db_tables = demo_tables\<lparr>tb_groups := [\<lparr>hg_id = 1, hg_name = ''all'', hg_config = Some 1,
       hg_created = 4\<rparr>], tb_group_seq := 1\<rparr>, db_conns = (\<lambda>_. good_conn)\<rparr>"

lemma demo_static_ok: "tables_ok (db_tables demo_static_db)"
  using demo_tables_ok by (simp add: demo_static_db_def demo_db_def tables_ok_def keyed_def max_rowid_def)

lemma demo_assignment:
  "\<exists>resp evs db' ck'. assign_host_to_group (Inr \<lparr>aq_host = 1, aq_target = 1\<rparr>) demo_static_db (\<lambda>_. 9) =
     ((200, resp), evs, db', ck')"
  by (simp add: assign_host_to_group_def ids_missing_def named_row_def host_get_by_id_def group_get_by_id_def
      get_by_id_def query_row_def host_update_def exec_only_def exec_stmt_def sql_update_host_def ref_arg_ok_def
      ref_ok_def group_assigned_def wrap_error_def demo_static_db_def demo_tables_def demo_row_id demo_config_def demo_host_def
      good_conn_def arg_ok_def write_ok_def now_def Let_def split: prod.splits)

lemma group_assignment_copies_witness:
  "\<exists>h :: host. ho_config h = Some 1 \<and> ho_status h = ''configured''"
proof -
  obtain resp evs db' ck' where a: "assign_host_to_group (Inr \<lparr>aq_host = 1, aq_target = 1\<rparr>) demo_static_db
      (\<lambda>_. 9) = ((200, resp), evs, db', ck')"
    using demo_assignment by blast
  obtain h g where g: "g \<in> set (tb_groups (db_tables demo_static_db))"
    "[x\<leftarrow>tb_hosts (db_tables db'). ho_id x = 1] = [h\<lparr>ho_last_seen := 9, ho_config := hg_config g,
         ho_status := (if hg_config g = None then ''unconfigured'' else ''configured'')\<rparr>]"
    using group_assignment_copies [OF a demo_static_ok] by auto
  then have "hg_config g = Some 1" by (simp add: demo_static_db_def)
  then show ?thesis by (intro exI [of _ "h\<lparr>ho_config := Some 1, ho_status := ''configured''\<rparr>"]) simp
qed

end
