(* ===== verification/Session_Store.thy ===== *)
theory Session_Store
  imports Go_Net
begin

unbundle bit_operations_syntax

text \<open>
  The sessions of the administration interface (\<open>config-server/internal/auth/session.go\<close>) and
  the pure checks of \<open>auth.go\<close>. The store is a map from session ids to sessions; its mutex makes
  every operation atomic. The 32 random bytes of a session id are an argument of the operation:
  \<open>crypto/rand.Read\<close> returns no error since Go 1.24, the version \<open>go.mod\<close> asks for, so the
  fall-back id is never built.
\<close>

record session =
  se_id :: string
  se_username :: string
  se_created :: time
  se_expires :: time
  se_ip :: string
  se_agent :: string

record session_store =
  st_sessions :: "string \<rightharpoonup> session"
  st_timeout :: duration

definition new_session_store :: "duration \<Rightarrow> session_store" where
  "new_session_store timeout = \<lparr>st_sessions = Map.empty, st_timeout = timeout\<rparr>"

definition hex_byte :: "8 word \<Rightarrow> string" where
  "hex_byte b = (let n = unat b; d = (\<lambda>k. if k < 10 then char_of (48 + k) else char_of (87 + k))
     in [d (n div 16), d (n mod 16)])"

definition encode_to_string :: "8 word list \<Rightarrow> string" where
  "encode_to_string bs = concat (map hex_byte bs)"

definition generate_session_id :: "8 word list \<Rightarrow> string" where
  "generate_session_id rnd = encode_to_string rnd"

definition create_session ::
  "8 word list \<Rightarrow> session_store \<Rightarrow> string \<Rightarrow> string \<Rightarrow> string \<Rightarrow> clock \<Rightarrow> session \<times> session_store \<times> clock" where
  "create_session rnd s user ip agent ck =
     (let i = generate_session_id rnd; (t1, ck1) = now ck; (t2, ck2) = now ck1;
          x = \<lparr>se_id = i, se_username = user, se_created = t1, se_expires = time_add t2 (st_timeout s),
               se_ip = ip, se_agent = agent\<rparr>
      in (x, s\<lparr>st_sessions := (st_sessions s)(i \<mapsto> x)\<rparr>, ck2))"

definition get_session :: "session_store \<Rightarrow> string \<Rightarrow> clock \<Rightarrow> session option \<times> clock" where
  "get_session s i ck =
     (case st_sessions s i of
        None \<Rightarrow> (None, ck)
      | Some x \<Rightarrow> (let (t, ck1) = now ck in if time_after t (se_expires x) then (None, ck1) else (Some x, ck1)))"

definition delete_session :: "session_store \<Rightarrow> string \<Rightarrow> session_store" where
  "delete_session s i = s\<lparr>st_sessions := (st_sessions s)(i := None)\<rparr>"

definition invalidate_all_sessions :: "session_store \<Rightarrow> session_store" where
  "invalidate_all_sessions s = s\<lparr>st_sessions := Map.empty\<rparr>"

text \<open>The loop deletes from the map it ranges over; \<open>order\<close> is a visit of its keys.\<close>

fun drop_expired :: "time \<Rightarrow> string list \<Rightarrow> (string \<rightharpoonup> session) \<Rightarrow> (string \<rightharpoonup> session)" where
  "drop_expired t [] m = m"
| "drop_expired t (i # is) m =
     (case m i of
        None \<Rightarrow> drop_expired t is m
      | Some x \<Rightarrow> drop_expired t is (if time_after t (se_expires x) then m(i := None) else m))"

definition cleanup_expired_sessions :: "string list \<Rightarrow> session_store \<Rightarrow> clock \<Rightarrow> session_store \<times> clock" where
  "cleanup_expired_sessions order s ck =
     (let (t, ck1) = now ck in (s\<lparr>st_sessions := drop_expired t order (st_sessions s)\<rparr>, ck1))"

section \<open>Passwords and host names\<close>

record auth_service =
  au_password :: string
  au_store :: session_store

definition new_auth_service :: "string \<Rightarrow> duration \<Rightarrow> auth_service" where
  "new_auth_service pw timeout = \<lparr>au_password = pw, au_store = new_session_store timeout\<rparr>"

text \<open>The loop over the bytes, collecting their differences in an \<open>int\<close>.\<close>

fun compare_bytes :: "int \<Rightarrow> string \<Rightarrow> string \<Rightarrow> int" where
  "compare_bytes r (a # as) (b # bs) =
     compare_bytes (r OR uint (word_of_nat (of_char a) XOR word_of_nat (of_char b) :: 8 word)) as bs"
| "compare_bytes r _ _ = r"

definition constant_time_compare :: "string \<Rightarrow> string \<Rightarrow> bool" where
  "constant_time_compare a b = (if length a \<noteq> length b then False else compare_bytes 0 a b = 0)"

definition validate_password :: "auth_service \<Rightarrow> string \<Rightarrow> bool" where
  "validate_password a pw = constant_time_compare (au_password a) pw"

definition set_password :: "string \<Rightarrow> auth_service \<Rightarrow> auth_service" where
  "set_password pw a = a\<lparr>au_password := pw\<rparr>"

definition host_char :: "char \<Rightarrow> bool" where
  "host_char c \<longleftrightarrow>
     (let n = of_char c :: nat
      in \<not> (n < 32 \<or> 126 < n) \<and>
         (97 \<le> n \<and> n \<le> 122 \<or> 65 \<le> n \<and> n \<le> 90 \<or> 48 \<le> n \<and> n \<le> 57 \<or> c = CHR ''-'' \<or> c = CHR ''_'' \<or> c = CHR ''.''))"

definition validate_hostname :: "string \<Rightarrow> bool" where
  "validate_hostname hostname =
     (let h = trim_space hostname in if h = [] then False else list_all host_char h)"

record certificate =
  ct_common_name :: string
  ct_dns_names :: "string list"
  ct_emails :: "string list"

definition extract_hostname :: "certificate \<Rightarrow> string" where
  "extract_hostname c =
     (if ct_common_name c \<noteq> [] then ct_common_name c
      else case find (\<lambda>n. n \<noteq> []) (ct_dns_names c) of
             Some n \<Rightarrow> n
           | None \<Rightarrow> (case find (\<lambda>n. n \<noteq> []) (ct_emails c) of Some n \<Rightarrow> n | None \<Rightarrow> []))"

section \<open>Lemmas\<close>

lemma hex_byte_inj: "hex_byte a = hex_byte b \<Longrightarrow> a = b"
proof -
  assume e: "hex_byte a = hex_byte b"
  let ?d = "\<lambda>k::nat. if k < 10 then char_of (48 + k) else char_of (87 + k) :: char"
  have inj: "j = k" if "?d j = ?d k" "j < 16" "k < 16" for j k
  proof -
    have "of_char (?d j) = (of_char (?d k) :: nat)" using that(1) by simp
    then show ?thesis using that(2,3) by (auto split: if_splits)
  qed
  have n: "unat a < 256" "unat b < 256"
    using unsigned_less [of a, where 'a = nat] unsigned_less [of b, where 'a = nat] by simp_all
  have e2: "?d (unat a div 16) = ?d (unat b div 16)" "?d (unat a mod 16) = ?d (unat b mod 16)"
    using e unfolding hex_byte_def Let_def by blast+
  have "unat a div 16 = unat b div 16" by (rule inj [OF e2(1)]) (use n in linarith)+
  moreover have "unat a mod 16 = unat b mod 16" by (rule inj [OF e2(2)]) simp_all
  ultimately have "unat a div 16 = unat b div 16" "unat a mod 16 = unat b mod 16" by simp_all
  then have "unat a = unat b" by (metis div_mult_mod_eq)
  then show "a = b" by (rule unsigned_word_eqI)
qed

lemma drop_expired_apply:
  "distinct order \<Longrightarrow> drop_expired t order m i =
     (case m i of None \<Rightarrow> None | Some x \<Rightarrow> if i \<in> set order \<and> se_expires x < t then None else Some x)"
  by (induction t order m rule: drop_expired.induct) (auto simp: go_defs split: option.splits)

lemma compare_bytes_nonneg: "0 \<le> r \<Longrightarrow> 0 \<le> compare_bytes r a b"
  by (induction r a b rule: compare_bytes.induct) auto

lemma or_eq_zero: "a OR b = 0 \<longleftrightarrow> a = 0 \<and> b = (0 :: int)"
  by (metis or.left_idem or.right_idem or.right_neutral or.left_neutral)

lemma xor_eq_zero: "a XOR b = 0 \<longleftrightarrow> a = (b :: 8 word)"
  by (metis xor.assoc xor.right_neutral xor_self_eq)

lemma compare_bytes_zero: "length a = length b \<Longrightarrow> compare_bytes r a b = 0 \<longleftrightarrow> r = 0 \<and> a = b"
proof (induction r a b rule: compare_bytes.induct)
  case (1 r a as b bs)
  have "uint (word_of_nat (of_char a) XOR word_of_nat (of_char b) :: 8 word) = 0 \<longleftrightarrow> a = b"
  proof -
    have "uint (word_of_nat (of_char a) XOR word_of_nat (of_char b) :: 8 word) = 0 \<longleftrightarrow>
        (word_of_nat (of_char a) XOR word_of_nat (of_char b) :: 8 word) = 0"
      by (metis unsigned_0 word_uint_eqI)
    also have "\<dots> \<longleftrightarrow> (word_of_nat (of_char a) :: 8 word) = word_of_nat (of_char b)"
      by (rule xor_eq_zero)
    also have "\<dots> \<longleftrightarrow> (of_char a :: nat) = of_char b"
      by (simp add: word_of_nat_eq_iff take_bit_nat_eq_self)
    finally show ?thesis by simp
  qed
  with 1 show ?case by (simp add: or_eq_zero)
qed auto

lemma encode_inj: "length bs = length cs \<Longrightarrow> encode_to_string bs = encode_to_string cs \<Longrightarrow> bs = cs"
proof (induction bs arbitrary: cs)
  case (Cons b bs)
  then obtain c cs' where cs: "cs = c # cs'" "length bs = length cs'" by (cases cs) auto
  have two: "length (hex_byte x) = 2" for x by (simp add: hex_byte_def Let_def)
  have "hex_byte b = hex_byte c \<and> encode_to_string bs = encode_to_string cs'"
    using Cons.prems(2) two by (simp add: cs encode_to_string_def)
  with Cons.IH [OF cs(2)] cs hex_byte_inj show ?case by blast
qed simp

section \<open>The store as a state machine\<close>

text \<open>
  \<open>sx_created\<close> records the sessions \<open>CreateSession\<close> has returned and \<open>sx_ended\<close> the ids that
  were deleted or invalidated afterwards; no step reads either.
\<close>

record session_system =
  sx_store :: session_store
  sx_clock :: clock
  sx_created :: "session list"
  sx_ended :: "string set"

inductive session_step :: "session_system \<Rightarrow> session_system \<Rightarrow> bool" where
  create: "create_session rnd (sx_store s) user ip agent (sx_clock s) = (x, st, ck) \<Longrightarrow>
    session_step s (s\<lparr>sx_store := st, sx_clock := ck, sx_created := x # sx_created s,
      sx_ended := sx_ended s - {se_id x}\<rparr>)"
| get: "get_session (sx_store s) i (sx_clock s) = (r, ck) \<Longrightarrow> session_step s (s\<lparr>sx_clock := ck\<rparr>)"
| delete: "session_step s (s\<lparr>sx_store := delete_session (sx_store s) i, sx_ended := insert i (sx_ended s)\<rparr>)"
| invalidate: "session_step s (s\<lparr>sx_store := invalidate_all_sessions (sx_store s), sx_ended := UNIV\<rparr>)"
| cleanup: "cleanup_expired_sessions order (sx_store s) (sx_clock s) = (st, ck) \<Longrightarrow> distinct order \<Longrightarrow>
    session_step s (s\<lparr>sx_store := st, sx_clock := ck\<rparr>)"

definition session_inv :: "duration \<Rightarrow> session_system \<Rightarrow> bool" where
  "session_inv timeout s \<longleftrightarrow>
     mono (sx_clock s) \<and> st_timeout (sx_store s) = timeout \<and>
     (\<forall>i x. st_sessions (sx_store s) i = Some x \<longrightarrow>
        x \<in> set (sx_created s) \<and> se_id x = i \<and> i \<notin> sx_ended s \<and> se_expires x \<le> sx_clock s 0 + sint timeout)"

lemma session_inv_clock:
  assumes "session_inv timeout s" "later (sx_clock s) ck"
  shows "session_inv timeout (s\<lparr>sx_clock := ck\<rparr>)"
proof -
  have "mono ck" using mono_later assms by (auto simp: session_inv_def)
  moreover have "sx_clock s 0 \<le> ck 0" using mono_later_le assms by (auto simp: session_inv_def)
  ultimately show ?thesis using assms(1) by (fastforce simp: session_inv_def)
qed

lemma session_step_inv:
  assumes "session_step s s'" "session_inv timeout s"
  shows "session_inv timeout s'"
  using assms(1)
proof cases
  case (create rnd user ip agent x st ck)
  have ck: "ck = (\<lambda>n. sx_clock s (Suc (Suc n)))" and st: "st_timeout st = timeout"
    and x: "se_expires x = sx_clock s 1 + sint timeout"
    and ss: "st_sessions st = (st_sessions (sx_store s))(se_id x \<mapsto> x)"
    using create(2) assms(2) by (auto simp: create_session_def Let_def go_defs session_inv_def)
  have m: "mono (sx_clock s)" using assms(2) by (simp add: session_inv_def)
  have le: "sx_clock s 1 \<le> sx_clock s 2" "sx_clock s 0 \<le> sx_clock s 2"
    using mono_reads [OF m] by simp_all
  have "later (sx_clock s) ck" by (simp add: ck)
  then have "mono ck" using mono_later m by blast
  then show ?thesis
    using assms(2) create(1) ck st x ss le
    by (fastforce simp: session_inv_def numeral_2_eq_2)
next
  case (get i r ck)
  then have "later (sx_clock s) ck"
    by (auto simp: get_session_def go_defs split: option.splits if_splits)
  with get session_inv_clock [OF assms(2)] show ?thesis by simp
next
  case (delete i)
  with assms(2) show ?thesis by (auto simp: session_inv_def delete_session_def)
next
  case invalidate
  with assms(2) show ?thesis by (auto simp: session_inv_def invalidate_all_sessions_def)
next
  case (cleanup order st ck)
  have "later (sx_clock s) ck" using cleanup(2) by (auto simp: cleanup_expired_sessions_def now_def)
  then have "session_inv timeout (s\<lparr>sx_clock := ck\<rparr>)" by (rule session_inv_clock [OF assms(2)])
  moreover have "st_timeout st = st_timeout (sx_store s)"
    "\<And>i x. st_sessions st i = Some x \<Longrightarrow> st_sessions (sx_store s) i = Some x"
    using cleanup(2,3) by (auto simp: cleanup_expired_sessions_def now_def drop_expired_apply
        split: option.splits if_splits)
  ultimately show ?thesis using cleanup(1) by (simp add: session_inv_def) blast
qed

section \<open>Properties\<close>

text \<open>
  C29. A session the store hands out is live: after any sequence of operations, \<open>GetSession\<close> gives,
  for an id, only a session of that id that \<open>CreateSession\<close> has returned, that was not deleted or
  invalidated since, and that expires not before now and within the timeout.
\<close>

theorem sessions_are_live:
  assumes "session_step\<^sup>*\<^sup>* \<lparr>sx_store = new_session_store timeout, sx_clock = ck0, sx_created = [], sx_ended = {}\<rparr> s"
    and "mono ck0" "get_session (sx_store s) i (sx_clock s) = (Some x, ck')"
  shows "x \<in> set (sx_created s) \<and> se_id x = i \<and> i \<notin> sx_ended s \<and>
    sx_clock s 0 \<le> se_expires x \<and> se_expires x \<le> sx_clock s 0 + sint timeout"
proof -
  have "session_inv timeout s"
    using assms(1)
  proof (induction rule: rtranclp_induct)
    case base
    show ?case using assms(2) by (simp add: session_inv_def new_session_store_def)
  next
    case (step s1 s2)
    then show ?case using session_step_inv by blast
  qed
  moreover have "st_sessions (sx_store s) i = Some x" "sx_clock s 0 \<le> se_expires x"
    using assms(3) by (auto simp: get_session_def go_defs split: option.splits if_splits)
  ultimately show ?thesis by (auto simp: session_inv_def)
qed

text \<open>
  Session ids do not collide: two sessions made from different random bytes have different
  ids, so creating the second leaves the first in the store.
\<close>

theorem session_ids_distinct:
  assumes "create_session r1 s user1 ip1 agent1 ck = (x1, s1, ck1)"
    and "create_session r2 s1 user2 ip2 agent2 ck1 = (x2, s2, ck2)"
    and "length r1 = 32" "length r2 = 32" "r1 \<noteq> r2"
  shows "se_id x1 \<noteq> se_id x2 \<and> st_sessions s2 (se_id x1) = Some x1 \<and> st_sessions s2 (se_id x2) = Some x2"
proof -
  have "encode_to_string r1 \<noteq> encode_to_string r2" using encode_inj assms(3-5) by metis
  then show ?thesis
    using assms(1,2) by (auto simp: create_session_def generate_session_id_def Let_def go_defs)
qed

text \<open>
  The constant-time comparison is equality: a password is accepted exactly if it is the
  configured one, whatever the lengths.
\<close>

theorem password_accepted_iff_equal:
  "validate_password a pw \<longleftrightarrow> pw = au_password a"
  by (auto simp: validate_password_def constant_time_compare_def compare_bytes_zero)

section \<open>Witnesses\<close>

lemma sessions_are_live_witness:
  "let s1 = fst (snd (create_session [1] (new_session_store 60) ''admin'' [] [] (\<lambda>_. 5)))
   in case fst (get_session s1 ''01'' (\<lambda>_. 5)) of Some x \<Rightarrow> se_id x = ''01'' \<and> se_expires x \<le> 65 | None \<Rightarrow> False"
proof -
  let ?s0 = "\<lparr>sx_store = new_session_store 60, sx_clock = (\<lambda>_. 5), sx_created = [], sx_ended = {}\<rparr>"
  let ?x = "\<lparr>se_id = ''01'', se_username = ''admin'', se_created = 5, se_expires = 65, se_ip = [], se_agent = []\<rparr>"
  let ?s1 = "\<lparr>st_sessions = [''01'' \<mapsto> ?x], st_timeout = 60\<rparr>"
  have hex: "generate_session_id [1] = ''01''" by code_simp
  have c: "create_session [1] (new_session_store 60) ''admin'' [] [] (\<lambda>_. 5) = (?x, ?s1, \<lambda>_. 5)"
    by (simp add: create_session_def hex new_session_store_def Let_def go_defs)
  have "session_step ?s0 (?s0\<lparr>sx_store := ?s1, sx_clock := (\<lambda>_. 5), sx_created := [?x], sx_ended := {}\<rparr>)"
    using session_step.create [of "[1]" ?s0 "''admin''" "[]" "[]" ?x ?s1 "\<lambda>_. 5"] c by simp
  then have run: "session_step\<^sup>*\<^sup>* ?s0 \<lparr>sx_store = ?s1, sx_clock = (\<lambda>_. 5), sx_created = [?x], sx_ended = {}\<rparr>"
    by auto
  have g: "get_session ?s1 ''01'' (\<lambda>_. 5) = (Some ?x, \<lambda>_. 5)" by (simp add: get_session_def go_defs)
  have "mono (\<lambda>_ :: nat. 5 :: time)" by (simp add: mono_def)
  then show ?thesis
    using sessions_are_live [OF run, of "''01''" ?x "\<lambda>_. 5"] g c by simp
qed

lemma session_ids_distinct_witness:
  "generate_session_id (replicate 32 0) \<noteq> generate_session_id (replicate 32 1)"
proof -
  obtain x1 s1 ck1 where a: "create_session (replicate 32 0) (new_session_store 60) [] [] [] (\<lambda>_. 0) = (x1, s1, ck1)"
    by (rule prod_cases3)
  obtain x2 s2 ck2 where b: "create_session (replicate 32 1) s1 [] [] [] ck1 = (x2, s2, ck2)"
    by (rule prod_cases3)
  have "se_id x1 \<noteq> se_id x2" using session_ids_distinct [OF a b] by (simp add: numeral_eq_Suc)
  with a b show ?thesis by (auto simp: create_session_def Let_def go_defs)
qed

end
