(* ===== verification/Web_Pages.thy ===== *)
theory Web_Pages
  imports Go_Path
begin

text \<open>
  The web interface (\<open>config-server/internal/web/handler.go\<close>). The embedded files are a function
  from their names to their contents.
\<close>

datatype page = Page string "string option" | Serve_file string | Not_found

definition content_type :: "string \<Rightarrow> string option" where
  "content_type path =
     (if has_suffix path ''.html'' then Some ''text/html; charset=utf-8''
      else if has_suffix path ''.css'' then Some ''text/css; charset=utf-8''
      else if has_suffix path ''.js'' then Some ''application/javascript; charset=utf-8''
      else None)"

definition serve_template_content :: "string \<Rightarrow> string \<Rightarrow> page" where
  "serve_template_content data path = Page data (content_type path)"

definition web_handler :: "(string \<Rightarrow> string option) \<Rightarrow> string \<Rightarrow> page" where
  "web_handler files url_path =
     (let rest = trim_prefix url_path ''/web/'';
          path = (if rest = [] \<or> rest = ''/'' then ''login.html'' else rest)
      in case files (path_join ''templates'' path) of
           Some data \<Rightarrow> serve_template_content data path
         | None \<Rightarrow>
             if \<not> has_suffix path ''.html'' then
               (case files (path_join ''templates'' (path @ ''.html'')) of
                  Some data \<Rightarrow> serve_template_content data (path @ ''.html'')
                | None \<Rightarrow> Not_found)
             else Not_found)"

definition serve_template :: "(string \<Rightarrow> string option) \<Rightarrow> string \<Rightarrow> page" where
  "serve_template files nm =
     (case files (path_join ''templates'' nm) of
        None \<Rightarrow> Not_found
      | Some data \<Rightarrow> Page data (content_type nm))"

text \<open>The variant with a directory to fall back to; \<open>stat_ok\<close> says which files the system has.\<close>

definition web_handler_with_fallback ::
  "(string \<Rightarrow> string option) \<Rightarrow> (string \<Rightarrow> bool) \<Rightarrow> string \<Rightarrow> string \<Rightarrow> page" where
  "web_handler_with_fallback files stat_ok dir url_path =
     (let rest = trim_prefix url_path ''/web/'';
          path = (if rest = [] then ''index.html'' else rest)
      in case files (path_join ''templates'' path) of
           Some data \<Rightarrow> serve_template_content data path
         | None \<Rightarrow>
             if dir \<noteq> [] \<and> stat_ok (path_join dir path) then Serve_file (path_join dir path)
             else Not_found)"

end
