(* ===== verification/Api_Routes.thy ===== *)
theory Api_Routes
  imports Go_Strings
begin

text \<open>
  The routes of the configuration server (\<open>setupRoutes\<close>, \<open>config-server/internal/api/server.go\<close>).
  A pattern is the text before its parameter \<open>{id}\<close> and the text after it, or a whole path. The
  router itself is the package \<open>chi\<close>; \<open>routes_like\<close> says what is relied on of it.
\<close>

datatype endpoint =
    List_configurations | Create_configuration | Get_configuration | Update_configuration
  | Delete_configuration
  | List_hosts | Register_host | Get_host | Update_host | Delete_host | Get_host_configuration
  | List_groups | Create_group | Get_group | Update_group | Delete_group
  | List_dynamics | Create_dynamic | Get_dynamic | Update_dynamic | Delete_dynamic
  | Assign_config | Assign_group | Assign_dynamic | Get_assignments
  | Login | Logout | Get_auth_status | Handle_status | Handle_health | Handle_websocket
  | Web_pages | Redirect_root

datatype route_pattern = Whole string | Id_between string string | Below string

definition api_routes :: "(string \<times> route_pattern \<times> endpoint) list" where
  "api_routes =
     [(''GET'', Whole ''/api/v1/configurations'', List_configurations),
      (''POST'', Whole ''/api/v1/configurations'', Create_configuration),
      (''GET'', Id_between ''/api/v1/configurations/'' [], Get_configuration),
      (''PUT'', Id_between ''/api/v1/configurations/'' [], Update_configuration),
      (''DELETE'', Id_between ''/api/v1/configurations/'' [], Delete_configuration),
      (''GET'', Whole ''/api/v1/hosts'', List_hosts),
      (''POST'', Whole ''/api/v1/hosts/register'', Register_host),
      (''GET'', Id_between ''/api/v1/hosts/'' [], Get_host),
      (''PUT'', Id_between ''/api/v1/hosts/'' [], Update_host),
      (''DELETE'', Id_between ''/api/v1/hosts/'' [], Delete_host),
      (''GET'', Id_between ''/api/v1/hosts/'' ''/config'', Get_host_configuration),
      (''GET'', Whole ''/api/v1/host-groups'', List_groups),
      (''POST'', Whole ''/api/v1/host-groups'', Create_group),
      (''GET'', Id_between ''/api/v1/host-groups/'' [], Get_group),
      (''PUT'', Id_between ''/api/v1/host-groups/'' [], Update_group),
      (''DELETE'', Id_between ''/api/v1/host-groups/'' [], Delete_group),
      (''GET'', Whole ''/api/v1/dynamic-host-groups'', List_dynamics),
      (''POST'', Whole ''/api/v1/dynamic-host-groups'', Create_dynamic),
      (''GET'', Id_between ''/api/v1/dynamic-host-groups/'' [], Get_dynamic),
      (''PUT'', Id_between ''/api/v1/dynamic-host-groups/'' [], Update_dynamic),
      (''DELETE'', Id_between ''/api/v1/dynamic-host-groups/'' [], Delete_dynamic),
      (''POST'', Whole ''/api/v1/assignments/host-to-config'', Assign_config),
      (''POST'', Whole ''/api/v1/assignments/host-to-group'', Assign_group),
      (''POST'', Whole ''/api/v1/assignments/host-to-dynamic-group'', Assign_dynamic),
      (''GET'', Id_between ''/api/v1/assignments/host/'' [], Get_assignments),
      (''POST'', Whole ''/api/v1/auth/login'', Login),
      (''POST'', Whole ''/api/v1/auth/logout'', Logout),
      (''GET'', Whole ''/api/v1/auth/status'', Get_auth_status),
      (''GET'', Whole ''/api/v1/status'', Handle_status),
      (''GET'', Whole ''/api/v1/health'', Handle_health),
      (''GET'', Whole ''/api/v1/events'', Handle_websocket),
      (''*'', Below ''/web/'', Web_pages),
      (''GET'', Whole ''/'', Redirect_root)]"

text \<open>
  A path of a pattern, with the text its parameter stands for. A router serves the paths of a
  subrouter's \<open>/\<close> with and without the last slash.
\<close>

fun path_of :: "route_pattern \<Rightarrow> string \<Rightarrow> string \<Rightarrow> bool" where
  "path_of (Whole p) i path \<longleftrightarrow> path = p \<or> path = p @ ''/''"
| "path_of (Id_between p q) i path \<longleftrightarrow> i \<noteq> [] \<and> CHR ''/'' \<notin> set i \<and> (path = p @ i @ q \<or> path = p @ i @ q @ ''/'')"
| "path_of (Below p) i path \<longleftrightarrow> has_prefix path p"

text \<open>
  What is relied on of \<open>chi\<close>: a request goes to the handler of a registered route whose method is
  that of the request and whose pattern the path matches, with the parameter the path has there.
  Which one of several is left open. The path is that of the decoded URL, on which the middleware decides too; \<open>chi\<close>
  routes on \<open>RawPath\<close> instead where a request encodes characters that need no encoding, and such requests are
  left out.
\<close>

definition routes_like :: "(string \<Rightarrow> string \<Rightarrow> (endpoint \<times> string) option) \<Rightarrow> bool" where
  "routes_like chi \<longleftrightarrow>
     (\<forall>verb path e i. chi verb path = Some (e, i) \<longrightarrow>
        (\<exists>m pat. (m, pat, e) \<in> set api_routes \<and> (m = verb \<or> m = ''*'') \<and> path_of pat i path))"

text \<open>A router that takes the first route that fits.\<close>

fun id_in :: "route_pattern \<Rightarrow> string \<Rightarrow> string option" where
  "id_in (Whole p) path = (if path = p \<or> path = p @ ''/'' then Some [] else None)"
| "id_in (Id_between p q) path =
     (let i = takeWhile (\<lambda>c. c \<noteq> CHR ''/'') (trim_prefix path p)
      in if i \<noteq> [] \<and> (path = p @ i @ q \<or> path = p @ i @ q @ ''/'') then Some i else None)"
| "id_in (Below p) path = (if has_prefix path p then Some [] else None)"

fun first_route ::
  "(string \<times> route_pattern \<times> endpoint) list \<Rightarrow> string \<Rightarrow> string \<Rightarrow> (endpoint \<times> string) option" where
  "first_route [] verb path = None"
| "first_route ((m, pat, e) # rs) verb path =
     (if m = verb \<or> m = ''*'' then
        (case id_in pat path of Some i \<Rightarrow> Some (e, i) | None \<Rightarrow> first_route rs verb path)
      else first_route rs verb path)"

lemma id_in_path_of: "id_in pat path = Some i \<Longrightarrow> path_of pat i path"
  by (cases pat) (auto simp: Let_def dest: set_takeWhileD split: if_splits)

lemma first_route_sound:
  "first_route rs verb path = Some (e, i) \<Longrightarrow>
     \<exists>m pat. (m, pat, e) \<in> set rs \<and> (m = verb \<or> m = ''*'') \<and> path_of pat i path"
  by (induction rs verb path rule: first_route.induct)
    (auto split: if_splits option.splits dest: id_in_path_of)

lemma first_route_like: "routes_like (first_route api_routes)"
  using first_route_sound by (simp add: routes_like_def)

end
