(* ===== verification/Api_Auth.thy ===== *)
theory Api_Auth
  imports Http_Common Session_Store Web_Pages Go_Time Api_Routes
begin

text \<open>
  Authentication of the configuration server: the middleware and the routes to the pages
  (\<open>config-server/internal/api/server.go\<close>), login, logout and status (\<open>auth.go\<close>) and the
  authentication of a WebSocket (\<open>websocket.go\<close>). The session store and the password are those of
  \<open>Session_Store\<close>. A request is what these functions read of it; an absent header or query value is
  the empty text.
\<close>

record web_request =
  wr_path :: string
  wr_cookie :: "string option"
  wr_authorization :: string
  wr_remote :: string
  wr_agent :: string

text \<open>The session id a request presents, as the middleware reads it.\<close>

definition presented_session :: "web_request \<Rightarrow> string" where
  "presented_session rq =
     (case wr_cookie rq of
        Some v \<Rightarrow> v
      | None \<Rightarrow>
          if has_prefix (wr_authorization rq) ''Bearer '' then trim_prefix (wr_authorization rq) ''Bearer '' else [])"

text \<open>The same as the handlers read it, by slicing.\<close>

definition bearer_session :: "web_request \<Rightarrow> string" where
  "bearer_session rq =
     (case wr_cookie rq of
        Some v \<Rightarrow> v
      | None \<Rightarrow>
          if 7 < length (wr_authorization rq) \<and> take 7 (wr_authorization rq) = ''Bearer ''
          then drop 7 (wr_authorization rq) else [])"

record cookie =
  ck_value :: string
  ck_expires :: time
  ck_max_age :: int
  ck_secure :: bool

definition cleared_cookie :: cookie where
  "cleared_cookie = \<lparr>ck_value = [], ck_expires = 0, ck_max_age = -1, ck_secure = False\<rparr>"

section \<open>The middleware\<close>

datatype gate = Forward | Refuse string "cookie option"

definition public_path :: "string \<Rightarrow> bool" where
  "public_path path \<longleftrightarrow>
     has_prefix path ''/api/v1/status'' \<or> has_prefix path ''/api/v1/health'' \<or>
     has_prefix path ''/api/v1/hosts/register'' \<or>
     has_prefix path ''/api/v1/auth/login'' \<or> has_prefix path ''/api/v1/auth/logout'' \<or>
     path = ''/'' \<or> path = ''/web/'' \<or> path = ''/web/login''"

definition guarded_path :: "string \<Rightarrow> bool" where
  "guarded_path path \<longleftrightarrow> has_prefix path ''/api/v1/'' \<or> has_prefix path ''/web/''"

text \<open>A refusal is an answer 401 with its text; a dead session also clears the cookie.\<close>

definition auth_middleware :: "session_store \<Rightarrow> web_request \<Rightarrow> clock \<Rightarrow> gate \<times> clock" where
  "auth_middleware s rq ck =
     (if public_path (wr_path rq) then (Forward, ck)
      else if guarded_path (wr_path rq) then
        (let i = presented_session rq
         in if i = [] then (Refuse ''Authentication required'' None, ck)
            else (case get_session s i ck of
                    (None, ck1) \<Rightarrow> (Refuse ''Invalid or expired session'' (Some cleared_cookie), ck1)
                  | (Some _, ck1) \<Rightarrow> (Forward, ck1)))
      else (Forward, ck))"

section \<open>Login, logout and status\<close>

datatype auth_data =
    Login_response string
  | Auth_status "(string \<times> time \<times> string) option" string

text \<open>
  \<open>login\<close>: the decoded body is the password. A login in development mode (\<open>dev\<close>) sets a cookie that
  need not be sent over TLS.
\<close>

definition login ::
  "bool \<Rightarrow> 8 word list \<Rightarrow> string + string \<Rightarrow> web_request \<Rightarrow> auth_service \<Rightarrow> clock \<Rightarrow>
   auth_data http_result \<times> cookie option \<times> auth_service \<times> clock" where
  "login dev rnd body rq a ck =
     (case body of
        Inl e \<Rightarrow> (write_error 400 ''Invalid request body'' e, None, a, ck)
      | Inr pw \<Rightarrow>
          if pw = [] then (write_error 400 ''Password is required'' [], None, a, ck)
          else if \<not> validate_password a pw then (write_error 401 ''Invalid password'' [], None, a, ck)
          else
            (let (x, st, ck1) = create_session rnd (au_store a) ''admin'' (wr_remote rq) (wr_agent rq) ck;
                 (t, ck2) = now ck1;
                 c = \<lparr>ck_value = se_id x, ck_expires = se_expires x,
                      ck_max_age = int_seconds (time_sub (se_expires x) t), ck_secure = (\<not> dev)\<rparr>
             in (write_ok 200 ''Login successful'' (Some (Login_response (se_id x))), Some c,
                 a\<lparr>au_store := st\<rparr>, ck2)))"

definition logout :: "web_request \<Rightarrow> auth_service \<Rightarrow> auth_data http_result \<times> cookie option \<times> auth_service" where
  "logout rq a =
     (let i = bearer_session rq;
          a1 = (if i \<noteq> [] then a\<lparr>au_store := delete_session (au_store a) i\<rparr> else a)
      in (write_ok 200 ''Logged out successfully'' None, Some cleared_cookie, a1))"

definition get_auth_status :: "web_request \<Rightarrow> auth_service \<Rightarrow> clock \<Rightarrow> auth_data http_result \<times> clock" where
  "get_auth_status rq a ck =
     (let i = bearer_session rq
      in if i = [] then (write_ok 200 ''Not authenticated'' (Some (Auth_status None [])), ck)
         else (case get_session (au_store a) i ck of
                 (None, ck1) \<Rightarrow>
                   (write_ok 200 ''Not authenticated''
                      (Some (Auth_status None ''Invalid or expired session'')), ck1)
               | (Some x, ck1) \<Rightarrow>
                   (write_ok 200 ''Authenticated''
                      (Some (Auth_status (Some (se_username x, se_expires x, se_ip x)) [])), ck1)))"

section \<open>Pages\<close>

datatype site_reply = Redirect string | Unauthorized string | Served page | Routed string

text \<open>
  A \<open>GET\<close> through the middleware to the pages: \<open>/\<close> redirects, \<open>/web/\<close> serves the embedded files with
  its prefix stripped, and every other path is left to the router.
\<close>

definition site_get ::
  "(string \<Rightarrow> string option) \<Rightarrow> session_store \<Rightarrow> web_request \<Rightarrow> clock \<Rightarrow> site_reply" where
  "site_get files s rq ck =
     (case auth_middleware s rq ck of
        (Refuse msg _, _) \<Rightarrow> Unauthorized msg
      | (Forward, _) \<Rightarrow>
          if wr_path rq = ''/'' then Redirect ''/web/login.html''
          else if has_prefix (wr_path rq) ''/web/'' then
            Served (web_handler files (trim_prefix (wr_path rq) ''/web/''))
          else Routed (wr_path rq))"

section \<open>WebSockets\<close>

record ws_request = web_request +
  ws_host_name :: string
  ws_query_hostname :: string
  ws_host_id :: string
  ws_query_host_id :: string

definition ws_hostname :: "ws_request \<Rightarrow> string" where
  "ws_hostname rq = (if ws_host_name rq = [] then ws_query_hostname rq else ws_host_name rq)"

text \<open>An id that cannot be parsed counts as none; the query is asked when the header gives none.\<close>

definition optional_id :: "string \<Rightarrow> nat" where
  "optional_id s = (if s \<noteq> [] then (case parse_uint32 s of Some i \<Rightarrow> i | None \<Rightarrow> 0) else 0)"

definition ws_claimed_id :: "ws_request \<Rightarrow> nat" where
  "ws_claimed_id rq =
     (let i = optional_id (ws_host_id rq) in if i = 0 then optional_id (ws_query_host_id rq) else i)"

record ws_identity =
  wi_host_id :: nat
  wi_hostname :: string
  wi_session :: string
  wi_is_host :: bool

text \<open>\<open>handleWebSocket\<close> up to the upgrade: a refusal (401) with its text, or the client's identity.\<close>

definition ws_authenticate ::
  "ws_request \<Rightarrow> session_store \<Rightarrow> database \<Rightarrow> clock \<Rightarrow> (string + ws_identity) \<times> database \<times> clock" where
  "ws_authenticate rq s db ck =
     (let i = bearer_session (web_request.truncate rq); nm = ws_hostname rq; hid = ws_claimed_id rq;
          refused = ''Invalid host credentials''
      in if nm \<noteq> [] \<or> 0 < hid then
           if 0 < hid then
             (case host_get_by_id hid db of
                (Inr (Some h), db1) \<Rightarrow>
                  if ho_hostname h \<noteq> nm then (Inl refused, db1, ck)
                  else (Inr \<lparr>wi_host_id = hid, wi_hostname = nm, wi_session = i, wi_is_host = True\<rparr>, db1, ck)
              | (_, db1) \<Rightarrow> (Inl refused, db1, ck))
           else
             (case host_get_by_hostname nm db of
                (Inr (Some h), db1) \<Rightarrow>
                  (Inr \<lparr>wi_host_id = ho_id h, wi_hostname = nm, wi_session = i, wi_is_host = True\<rparr>, db1, ck)
              | (_, db1) \<Rightarrow> (Inl refused, db1, ck))
         else if i = [] then (Inl ''Authentication required'', db, ck)
         else (case get_session s i ck of
                 (None, ck1) \<Rightarrow> (Inl ''Invalid or expired session'', db, ck1)
               | (Some _, ck1) \<Rightarrow>
                   (Inr \<lparr>wi_host_id = hid, wi_hostname = nm, wi_session = i, wi_is_host = False\<rparr>, db, ck1)))"

end
