(* ===== verification/Api_Auth_Facts.thy ===== *)
theory Api_Auth_Facts
  imports Api_Auth Host_Api
begin

text \<open>
  Access to the configuration server: which requests the middleware lets through. The login
  history is a ghost beside the state; every step is one of the session store's steps
  (\<open>Session_Store\<close>), so its invariant carries over.
\<close>

section \<open>Prefixes\<close>

lemma has_prefix_rec [simp]:
  "has_prefix s []" "\<not> has_prefix [] (b # p)" "has_prefix (a # s) (b # p) \<longleftrightarrow> a = b \<and> has_prefix s p"
  by (auto simp: has_prefix_def)

text \<open>A word without the separator that starts a path starts its first segment.\<close>

lemma has_prefix_segment:
  assumes "has_prefix (i @ rest) w" "c \<notin> set w" "rest = [] \<or> hd rest = c"
  shows "has_prefix i w"
  using assms
proof (induction i arbitrary: w)
  case Nil
  then show ?case by (cases w; cases rest) auto
next
  case (Cons a i)
  then show ?case by (cases w) auto
qed

text \<open>The handlers' slicing and the middleware's \<open>TrimPrefix\<close> read the same session id.\<close>

lemma bearer_session_eq: "bearer_session rq = presented_session rq"
proof (cases "wr_cookie rq")
  case None
  have n: "length ''Bearer '' = 7" by simp
  show ?thesis
    unfolding bearer_session_def presented_session_def has_prefix_def trim_prefix_def n
    using None by (cases "length (wr_authorization rq) = 7") auto
qed (simp add: bearer_session_def presented_session_def)

section \<open>The service as a state machine\<close>

text \<open>
  \<open>ac_logins\<close> records each session a login has handed out with the password that was given for it,
  \<open>ac_ended\<close> the ids that were logged out since. No step reads either.
\<close>

record access_state =
  ac_auth :: auth_service
  ac_clock :: clock
  ac_logins :: "(string \<times> session) list"
  ac_ended :: "string set"

inductive access_step :: "access_state \<Rightarrow> access_state \<Rightarrow> bool" where
  login_ok: "login dev rnd (Inr pw) rq (ac_auth s) (ac_clock s) = (r, Some c, a, ck) \<Longrightarrow>
    st_sessions (au_store a) (ck_value c) = Some x \<Longrightarrow>
    access_step s (s\<lparr>ac_auth := a, ac_clock := ck, ac_logins := (pw, x) # ac_logins s,
      ac_ended := ac_ended s - {se_id x}\<rparr>)"
| login_fails: "login dev rnd body rq (ac_auth s) (ac_clock s) = (r, None, a, ck) \<Longrightarrow>
    access_step s (s\<lparr>ac_auth := a, ac_clock := ck\<rparr>)"
| logout: "logout rq (ac_auth s) = (r, c, a) \<Longrightarrow>
    access_step s (s\<lparr>ac_auth := a, ac_ended := ac_ended s \<union> ({bearer_session rq} - {[]})\<rparr>)"
| status: "get_auth_status rq (ac_auth s) (ac_clock s) = (r, ck) \<Longrightarrow> access_step s (s\<lparr>ac_clock := ck\<rparr>)"
| gate: "auth_middleware (au_store (ac_auth s)) rq (ac_clock s) = (g, ck) \<Longrightarrow>
    access_step s (s\<lparr>ac_clock := ck\<rparr>)"
| websocket: "ws_authenticate wrq (au_store (ac_auth s)) db (ac_clock s) = (w, db', ck) \<Longrightarrow>
    access_step s (s\<lparr>ac_clock := ck\<rparr>)"
| cleanup: "cleanup_expired_sessions order (au_store (ac_auth s)) (ac_clock s) = (st, ck) \<Longrightarrow> distinct order \<Longrightarrow>
    access_step s (s\<lparr>ac_auth := (ac_auth s)\<lparr>au_store := st\<rparr>, ac_clock := ck\<rparr>)"

definition access_start :: "string \<Rightarrow> duration \<Rightarrow> clock \<Rightarrow> access_state" where
  "access_start pw timeout ck =
     \<lparr>ac_auth = new_auth_service pw timeout, ac_clock = ck, ac_logins = [], ac_ended = {}\<rparr>"

definition store_view :: "access_state \<Rightarrow> session_system" where
  "store_view s =
     \<lparr>sx_store = au_store (ac_auth s), sx_clock = ac_clock s, sx_created = map snd (ac_logins s),
      sx_ended = ac_ended s\<rparr>"

definition access_inv :: "string \<Rightarrow> duration \<Rightarrow> access_state \<Rightarrow> bool" where
  "access_inv pw timeout s \<longleftrightarrow>
     session_inv timeout (store_view s) \<and> au_password (ac_auth s) = pw \<and>
     (\<forall>(given, x) \<in> set (ac_logins s). given = pw \<and> pw \<noteq> [])"

lemma get_session_later: "get_session st i ck = (r, ck') \<Longrightarrow> later ck ck'"
  by (auto simp: get_session_def go_defs split: option.splits if_splits)

lemma auth_middleware_later: "auth_middleware st rq ck = (g, ck') \<Longrightarrow> later ck ck'"
  by (auto simp: auth_middleware_def Let_def split: if_splits option.splits prod.splits dest: get_session_later)

lemma get_auth_status_later: "get_auth_status rq a ck = (r, ck') \<Longrightarrow> later ck ck'"
  by (auto simp: get_auth_status_def Let_def split: if_splits option.splits prod.splits dest: get_session_later)

lemma ws_authenticate_later: "ws_authenticate rq st db ck = (r, db', ck') \<Longrightarrow> later ck ck'"
  by (auto simp: ws_authenticate_def Let_def
      split: if_splits option.splits prod.splits sum.splits dest: get_session_later)

lemma session_inv_view_clock:
  "session_inv timeout (store_view s) \<Longrightarrow> later (ac_clock s) ck \<Longrightarrow>
     session_inv timeout (store_view (s\<lparr>ac_clock := ck\<rparr>))"
  using session_inv_clock [of timeout "store_view s" ck] by (simp add: store_view_def)

text \<open>A login that sets a cookie has created the session of the cookie, for the right password.\<close>

lemma login_createsE:
  assumes "login dev rnd body rq a ck = (r, Some c, a', ck')"
  obtains pw x st ck1 where "body = Inr pw" "pw \<noteq> []" "pw = au_password a"
    "create_session rnd (au_store a) ''admin'' (wr_remote rq) (wr_agent rq) ck = (x, st, ck1)"
    "a' = a\<lparr>au_store := st\<rparr>" "ck_value c = se_id x" "st_sessions st (se_id x) = Some x" "later ck1 ck'"
proof -
  obtain x st ck1 where cs:
    "create_session rnd (au_store a) ''admin'' (wr_remote rq) (wr_agent rq) ck = (x, st, ck1)"
    by (rule prod_cases3)
  have "st_sessions st (se_id x) = Some x" using cs by (auto simp: create_session_def Let_def now_def)
  then show ?thesis
    using assms that cs
    by (auto simp: login_def validate_password_def constant_time_compare_def compare_bytes_zero
        now_def split: sum.splits if_splits)
qed

lemma login_refuses: "login dev rnd body rq a ck = (r, None, a', ck') \<Longrightarrow> a' = a \<and> ck' = ck"
  by (auto simp: login_def Let_def split: sum.splits if_splits prod.splits)

lemma access_step_inv:
  assumes "access_step s s'" "access_inv pw timeout s"
  shows "access_inv pw timeout s'"
  using assms(1)
proof cases
  case (login_ok dev rnd given rq r c a ck x)
  obtain y st ck1 where y: "given \<noteq> []" "given = au_password (ac_auth s)"
    "create_session rnd (au_store (ac_auth s)) ''admin'' (wr_remote rq) (wr_agent rq) (ac_clock s) = (y, st, ck1)"
    "a = (ac_auth s)\<lparr>au_store := st\<rparr>" "ck_value c = se_id y" "st_sessions st (se_id y) = Some y" "later ck1 ck"
    using login_ok(2) by (elim login_createsE) auto
  have x: "x = y" using login_ok(3) y(4-6) by simp
  have "session_step (store_view s) ((store_view s)\<lparr>sx_store := st, sx_clock := ck1,
      sx_created := y # sx_created (store_view s), sx_ended := sx_ended (store_view s) - {se_id y}\<rparr>)"
    by (rule session_step.create) (use y(3) in \<open>simp add: store_view_def\<close>)
  then have "session_inv timeout ((store_view s)\<lparr>sx_store := st, sx_clock := ck1,
      sx_created := y # sx_created (store_view s), sx_ended := sx_ended (store_view s) - {se_id y}\<rparr>)"
    by (rule session_step_inv) (use assms(2) in \<open>simp add: access_inv_def\<close>)
  then have "session_inv timeout (store_view s')"
    using session_inv_clock y(7) login_ok(1) y(4) x by (fastforce simp: store_view_def)
  then show ?thesis using assms(2) login_ok(1) y(1,2,4) by (auto simp: access_inv_def)
next
  case (login_fails dev rnd body rq r a ck)
  then show ?thesis using assms(2) login_refuses by fastforce
next
  case (logout rq r c a)
  have "session_inv timeout (store_view s')"
  proof (cases "bearer_session rq = []")
    case True
    with logout assms(2) show ?thesis by (auto simp: logout_def access_inv_def store_view_def)
  next
    case False
    have "session_inv timeout ((store_view s)\<lparr>
        sx_store := delete_session (sx_store (store_view s)) (bearer_session rq),
        sx_ended := insert (bearer_session rq) (sx_ended (store_view s))\<rparr>)"
      by (rule session_step_inv [OF session_step.delete]) (use assms(2) in \<open>simp add: access_inv_def\<close>)
    with False logout show ?thesis by (auto simp: logout_def store_view_def Let_def)
  qed
  then show ?thesis using assms(2) logout by (auto simp: access_inv_def logout_def Let_def)
next
  case (status rq r ck)
  then show ?thesis
    using assms(2) session_inv_view_clock get_auth_status_later by (auto simp: access_inv_def)
next
  case (gate rq g ck)
  then show ?thesis
    using assms(2) session_inv_view_clock auth_middleware_later by (auto simp: access_inv_def)
next
  case (websocket wrq db w db' ck)
  then show ?thesis
    using assms(2) session_inv_view_clock ws_authenticate_later by (auto simp: access_inv_def)
next
  case (cleanup order st ck)
  have "session_step (store_view s) ((store_view s)\<lparr>sx_store := st, sx_clock := ck\<rparr>)"
    by (rule session_step.cleanup) (use cleanup in \<open>auto simp: store_view_def\<close>)
  then have "session_inv timeout ((store_view s)\<lparr>sx_store := st, sx_clock := ck\<rparr>)"
    by (rule session_step_inv) (use assms(2) in \<open>simp add: access_inv_def\<close>)
  with cleanup(1) show ?thesis using assms(2) by (simp add: access_inv_def store_view_def)
qed

lemma access_reachable_inv:
  assumes "access_step\<^sup>*\<^sup>* (access_start pw timeout ck0) s" "mono ck0"
  shows "access_inv pw timeout s"
  using assms(1)
proof (induction rule: rtranclp_induct)
  case base
  show ?case
    using assms(2)
    by (simp add: access_inv_def access_start_def store_view_def session_inv_def new_auth_service_def
        new_session_store_def)
next
  case (step s1 s2)
  then show ?case using access_step_inv by blast
qed

section \<open>Requests and routes\<close>

lemma forward_needs_session:
  assumes "auth_middleware st rq ck = (Forward, ck')"
    and "guarded_path (wr_path rq)" "\<not> public_path (wr_path rq)"
  shows "\<exists>x. get_session st (presented_session rq) ck = (Some x, ck') \<and> presented_session rq \<noteq> []"
  using assms by (auto simp: auth_middleware_def Let_def split: if_splits option.splits prod.splits)

lemma sscan_register: "has_prefix i ''register'' \<Longrightarrow> sscan_uint i = None"
  by (auto simp: has_prefix_iff sscan_uint_def is_space_def is_dec_digit_def Let_def)

text \<open>The endpoints that need no session, and those whose path may look like the registration's.\<close>

definition open_endpoint :: "endpoint \<Rightarrow> bool" where
  "open_endpoint e \<longleftrightarrow> e \<in> {Register_host, Login, Logout, Handle_status, Handle_health, Web_pages, Redirect_root}"

definition host_endpoint :: "endpoint \<Rightarrow> bool" where
  "host_endpoint e \<longleftrightarrow> e \<in> {Get_host, Update_host, Delete_host, Get_host_configuration}"

lemma route_guarded:
  assumes "(m, pat, e) \<in> set api_routes" "path_of pat i path" "\<not> open_endpoint e"
  shows "guarded_path path"
  using assms
  by (auto simp: api_routes_def open_endpoint_def guarded_path_def)

lemma route_not_public:
  assumes "(m, pat, e) \<in> set api_routes" "path_of pat i path" "\<not> open_endpoint e" "\<not> host_endpoint e"
  shows "\<not> public_path path"
  using assms by (auto simp: api_routes_def open_endpoint_def host_endpoint_def public_path_def)

lemma host_route:
  assumes "(m, pat, e) \<in> set api_routes" "path_of pat i path" "host_endpoint e"
  shows "\<exists>rest. path = ''/api/v1/hosts/'' @ i @ rest \<and> (rest = [] \<or> hd rest = CHR ''/'')"
  using assms by (auto simp: api_routes_def host_endpoint_def)

lemma route_public:
  assumes "(m, pat, e) \<in> set api_routes" "path_of pat i path" "\<not> open_endpoint e" "public_path path"
  shows "host_endpoint e \<and> has_prefix i ''register''"
proof -
  have h: "host_endpoint e" using route_not_public assms by blast
  then obtain rest where rest: "path = ''/api/v1/hosts/'' @ i @ rest" "rest = [] \<or> hd rest = CHR ''/''"
    using host_route assms(1,2) by blast
  then have "has_prefix (i @ rest) ''register''" using assms(4) by (simp add: public_path_def)
  then show ?thesis using has_prefix_segment [OF _ _ rest(2)] h by simp
qed

lemma with_host_bad_id:
  "sscan_uint i = None \<Longrightarrow> with_host i db = (Inl (write_error 400 ''Invalid host ID'' ''expected integer''), db)"
  by (simp add: with_host_def with_row_def)

section \<open>Properties\<close>

text \<open>
  C3. What is not public needs a login: whatever logins, logouts, status requests, page requests,
  WebSockets and cleanups came before, if the middleware forwards a request to any endpoint other
  than registration, login, logout, status, health and the pages, then the request presents the id
  of a session that a login with the configured, non-empty password has created, that was not
  logged out since and has not expired. The one exception is a path that starts like the
  registration's: it reaches the handlers of one host, whose id then is no number, so that they
  answer 400 and change nothing. The pages, which hold no data, count as public, and the path is the decoded one (see
  \<open>routes_like\<close>).
\<close>

theorem admin_access_needs_login:
  assumes "access_step\<^sup>*\<^sup>* (access_start pw timeout ck0) s" "mono ck0" "routes_like chi"
    and "chi verb (wr_path rq) = Some (e, i)" "\<not> open_endpoint e"
    and "auth_middleware (au_store (ac_auth s)) rq (ac_clock s) = (Forward, ck')"
  shows "(\<exists>x. (pw, x) \<in> set (ac_logins s) \<and> pw \<noteq> [] \<and> se_id x = presented_session rq \<and>
       presented_session rq \<noteq> [] \<and> se_id x \<notin> ac_ended s \<and> ac_clock s 0 \<le> se_expires x) \<or>
     host_endpoint e \<and>
       (\<forall>db. get_host i db = (write_error 400 ''Invalid host ID'' ''expected integer'', db) \<and>
          get_host_configuration i db = (write_error 400 ''Invalid host ID'' ''expected integer'', db) \<and>
          delete_host_handler i db = (write_error 400 ''Invalid host ID'' ''expected integer'', db) \<and>
          (\<forall>body ck. update_host_handler i body db ck =
             (write_error 400 ''Invalid host ID'' ''expected integer'', [], db, ck)))"
proof -
  obtain m pat where r: "(m, pat, e) \<in> set api_routes" "path_of pat i (wr_path rq)"
    using assms(3,4) unfolding routes_like_def by blast
  show ?thesis
  proof (cases "public_path (wr_path rq)")
    case True
    then have "host_endpoint e" "sscan_uint i = None" using route_public r assms(5) sscan_register by blast+
    then show ?thesis
      by (simp add: get_host_def get_host_configuration_def delete_host_handler_def
          update_host_handler_def with_host_bad_id)
  next
    case False
    obtain x where x: "get_session (au_store (ac_auth s)) (presented_session rq) (ac_clock s) = (Some x, ck')"
      "presented_session rq \<noteq> []"
      using forward_needs_session assms(6) route_guarded r assms(5) False by blast
    have st: "st_sessions (au_store (ac_auth s)) (presented_session rq) = Some x" "ac_clock s 0 \<le> se_expires x"
      using x(1) by (auto simp: get_session_def go_defs split: option.splits if_splits)
    have "access_inv pw timeout s" by (rule access_reachable_inv [OF assms(1,2)])
    then have "x \<in> snd ` set (ac_logins s)" "se_id x = presented_session rq" "presented_session rq \<notin> ac_ended s"
      and "\<forall>(given, y) \<in> set (ac_logins s). given = pw \<and> pw \<noteq> []"
      using st(1) by (auto simp: access_inv_def session_inv_def store_view_def)
    then show ?thesis using st(2) x(2) by fastforce
  qed
qed

text \<open>
  Without a session id the middleware answers 401 on every guarded path, whatever the store
  holds, and this includes the login page: \<open>/\<close> redirects to \<open>/web/login.html\<close>, which is refused;
  the page itself is served at \<open>/web/\<close>, and no other page or asset at all except \<open>/web/login\<close>.
\<close>

theorem login_page_refused:
  assumes "presented_session rq = []" "files ''templates/login.html'' = Some data"
  shows "site_get files st (rq\<lparr>wr_path := ''/''\<rparr>) ck = Redirect ''/web/login.html'' \<and>
    site_get files st (rq\<lparr>wr_path := ''/web/login.html''\<rparr>) ck = Unauthorized ''Authentication required'' \<and>
    site_get files st (rq\<lparr>wr_path := ''/web/''\<rparr>) ck = Served (Page data (Some ''text/html; charset=utf-8'')) \<and>
    (\<forall>path. (\<exists>pg. site_get files st (rq\<lparr>wr_path := path\<rparr>) ck = Served pg) \<longleftrightarrow>
       path = ''/web/'' \<or> path = ''/web/login'')"
proof -
  have none: "presented_session (rq\<lparr>wr_path := p\<rparr>) = []" for p
    using assms(1) by (cases "wr_cookie rq") (auto simp: presented_session_def split: if_splits)
  have gate: "auth_middleware st (rq\<lparr>wr_path := p\<rparr>) ck =
      (if public_path p \<or> \<not> guarded_path p then (Forward, ck)
       else (Refuse ''Authentication required'' None, ck))" for p
    by (simp add: auth_middleware_def none)
  have served: "(\<exists>pg. site_get files st (rq\<lparr>wr_path := p\<rparr>) ck = Served pg) \<longleftrightarrow>
      has_prefix p ''/web/'' \<and> public_path p" for p
    by (auto simp: site_get_def gate guarded_path_def)
  have web: "has_prefix p ''/web/'' \<and> public_path p \<longleftrightarrow> p = ''/web/'' \<or> p = ''/web/login''" for p
    by (auto simp: public_path_def has_prefix_iff)
  have page: "web_handler files [] = Page data (Some ''text/html; charset=utf-8'')"
  proof -
    have "trim_prefix [] ''/web/'' = []" "path_join ''templates'' ''login.html'' = ''templates/login.html''"
      "has_suffix ''login.html'' ''.html''"
      by code_simp+
    then show ?thesis using assms(2) by (simp add: web_handler_def serve_template_content_def content_type_def)
  qed
  have "site_get files st (rq\<lparr>wr_path := ''/''\<rparr>) ck = Redirect ''/web/login.html''"
    by (simp add: site_get_def gate public_path_def)
  moreover have "site_get files st (rq\<lparr>wr_path := ''/web/login.html''\<rparr>) ck = Unauthorized ''Authentication required''"
    by (simp add: site_get_def gate public_path_def guarded_path_def)
  moreover have "site_get files st (rq\<lparr>wr_path := ''/web/''\<rparr>) ck =
      Served (Page data (Some ''text/html; charset=utf-8''))"
    using page by (simp add: site_get_def gate public_path_def guarded_path_def trim_prefix_def)
  ultimately show ?thesis using served web by blast
qed

section \<open>Witnesses\<close>

lemma login_page_refused_witness:
  "site_get (\<lambda>_. Some ''x'') (new_session_store 60)
     \<lparr>wr_path = ''/web/login.html'', wr_cookie = None, wr_authorization = [], wr_remote = [], wr_agent = []\<rparr>
     (\<lambda>_. 0) = Unauthorized ''Authentication required''"
  using login_page_refused [of "\<lparr>wr_path = ''/'', wr_cookie = None, wr_authorization = [], wr_remote = [],
      wr_agent = []\<rparr>" "\<lambda>_. Some ''x''" "''x''" "new_session_store 60" "\<lambda>_. 0"]
  by (simp add: presented_session_def)

lemma admin_access_needs_login_witness:
  "\<exists>(s :: access_state) ck'. auth_middleware (au_store (ac_auth s))
       \<lparr>wr_path = ''/api/v1/hosts'', wr_cookie = Some ''01'', wr_authorization = [], wr_remote = [], wr_agent = []\<rparr>
       (ac_clock s) = (Forward, ck') \<and>
     (\<exists>x. (''pw'', x) \<in> set (ac_logins s) \<and> se_id x = ''01'' \<and> se_id x \<notin> ac_ended s)"
proof -
  let ?rq = "\<lparr>wr_path = ''/api/v1/hosts'', wr_cookie = Some ''01'', wr_authorization = [], wr_remote = [], wr_agent = []\<rparr>"
  let ?x = "\<lparr>se_id = ''01'', se_username = ''admin'', se_created = 5, se_expires = 65, se_ip = [], se_agent = []\<rparr>"
  let ?a = "\<lparr>au_password = ''pw'', au_store = \<lparr>st_sessions = [''01'' \<mapsto> ?x], st_timeout = 60\<rparr>\<rparr>"
  let ?s = "\<lparr>ac_auth = ?a, ac_clock = (\<lambda>_. 5), ac_logins = [(''pw'', ?x)], ac_ended = {}\<rparr>"
  have hex: "generate_session_id [1] = ''01''" by code_simp
  have valid: "constant_time_compare ''pw'' ''pw''" by code_simp
  have l: "\<exists>r c. login True [1] (Inr ''pw'') ?rq (new_auth_service ''pw'' 60) (\<lambda>_. 5) = (r, Some c, ?a, \<lambda>_. 5) \<and>
      ck_value c = ''01''"
    by (simp add: login_def validate_password_def valid create_session_def hex new_auth_service_def
        new_session_store_def Let_def go_defs)
  then obtain r c where rc: "login True [1] (Inr ''pw'') ?rq (new_auth_service ''pw'' 60) (\<lambda>_. 5) = (r, Some c, ?a, \<lambda>_. 5)"
    "ck_value c = ''01''" by blast
  have "access_step (access_start ''pw'' 60 (\<lambda>_. 5)) ?s"
    using access_step.login_ok [of True "[1]" "''pw''" ?rq "access_start ''pw'' 60 (\<lambda>_. 5)" r c ?a "\<lambda>_. 5" ?x] rc
    by (simp add: access_start_def)
  then have run: "access_step\<^sup>*\<^sup>* (access_start ''pw'' 60 (\<lambda>_. 5)) ?s" by auto
  have route: "first_route api_routes ''GET'' ''/api/v1/hosts'' = Some (List_hosts, [])" by code_simp
  have pub: "public_path ''/api/v1/hosts'' = False" "guarded_path ''/api/v1/hosts'' = True" by code_simp+
  have g: "auth_middleware (au_store (ac_auth ?s)) ?rq (ac_clock ?s) = (Forward, \<lambda>_. 5)"
    by (simp add: auth_middleware_def pub presented_session_def get_session_def Let_def go_defs)
  have "mono (\<lambda>_ :: nat. 5 :: time)" by (simp add: mono_def)
  from admin_access_needs_login [OF run this first_route_like, of "''GET''" ?rq List_hosts "[]"] route g
  have "\<exists>x. (''pw'', x) \<in> set (ac_logins ?s) \<and> se_id x = presented_session ?rq \<and> se_id x \<notin> ac_ended ?s"
    by (auto simp: open_endpoint_def host_endpoint_def)
  then have "\<exists>x. (''pw'', x) \<in> set (ac_logins ?s) \<and> se_id x = ''01'' \<and> se_id x \<notin> ac_ended ?s"
    by (simp add: presented_session_def)
  then show ?thesis by (intro exI [of _ ?s] exI [of _ "\<lambda>_. 5"] conjI g)
qed

end
