(* ===== verification/Json_Doc.thy ===== *)
theory Json_Doc
  imports Egress_Prelude
begin

text \<open>
  Documents of JSON, and how Go decodes them into a structure: what
  \<open>json.NewDecoder(r.Body).Decode(&req)\<close> does in \<open>config-server/internal/api\<close>, for the types of fields
  the structures of requests have. A body is a parsed document, or nothing where the text is no JSON; text after
  the first value is not read. A number is an integer literal or another literal, which no
  integer field takes. Keys are compared without regard to the case of ASCII letters when no field
  has exactly that name; a key may come twice, and an unknown key is passed over. \<open>null\<close> leaves a
  field as it is, except that it clears a pointer or a list. A value of the wrong type is an error,
  whatever the rest says; its wording is the argument \<open>wording\<close>.
\<close>

datatype json_doc =
    Doc_null
  | Doc_bool bool
  | Doc_int int
  | Doc_real string
  | Doc_string string
  | Doc_list "json_doc list"
  | Doc_object "(string \<times> json_doc) list"

section \<open>Fields\<close>

text \<open>What a value does to the structure; \<open>None\<close> is an error of type or range.\<close>

type_synonym 'r setter = "json_doc \<Rightarrow> 'r \<Rightarrow> 'r option"

fun into_text :: "(string \<Rightarrow> 'r \<Rightarrow> 'r) \<Rightarrow> 'r setter" where
  "into_text upd Doc_null r = Some r"
| "into_text upd (Doc_string s) r = Some (upd s r)"
| "into_text upd _ r = None"

fun into_text_pointer :: "(string option \<Rightarrow> 'r \<Rightarrow> 'r) \<Rightarrow> 'r setter" where
  "into_text_pointer upd Doc_null r = Some (upd None r)"
| "into_text_pointer upd (Doc_string s) r = Some (upd (Some s) r)"
| "into_text_pointer upd _ r = None"

fun into_uint :: "(nat \<Rightarrow> 'r \<Rightarrow> 'r) \<Rightarrow> 'r setter" where
  "into_uint upd Doc_null r = Some r"
| "into_uint upd (Doc_int n) r = (if 0 \<le> n \<and> n < 2 ^ 64 then Some (upd (nat n) r) else None)"
| "into_uint upd _ r = None"

fun into_uint_pointer :: "(nat option \<Rightarrow> 'r \<Rightarrow> 'r) \<Rightarrow> 'r setter" where
  "into_uint_pointer upd Doc_null r = Some (upd None r)"
| "into_uint_pointer upd (Doc_int n) r = (if 0 \<le> n \<and> n < 2 ^ 64 then Some (upd (Some (nat n)) r) else None)"
| "into_uint_pointer upd _ r = None"

fun into_int :: "(int \<Rightarrow> 'r \<Rightarrow> 'r) \<Rightarrow> 'r setter" where
  "into_int upd Doc_null r = Some r"
| "into_int upd (Doc_int n) r = (if - (2 ^ 63) \<le> n \<and> n < 2 ^ 63 then Some (upd n r) else None)"
| "into_int upd _ r = None"

fun into_bool :: "(bool \<Rightarrow> 'r \<Rightarrow> 'r) \<Rightarrow> 'r setter" where
  "into_bool upd Doc_null r = Some r"
| "into_bool upd (Doc_bool b) r = Some (upd b r)"
| "into_bool upd _ r = None"

text \<open>\<open>null\<close> as an element leaves the empty text.\<close>

fun text_elements :: "json_doc list \<Rightarrow> string list option" where
  "text_elements [] = Some []"
| "text_elements (Doc_null # ds) = map_option (Cons []) (text_elements ds)"
| "text_elements (Doc_string s # ds) = map_option (Cons s) (text_elements ds)"
| "text_elements (_ # ds) = None"

fun into_texts :: "(string list option \<Rightarrow> 'r \<Rightarrow> 'r) \<Rightarrow> 'r setter" where
  "into_texts upd Doc_null r = Some (upd None r)"
| "into_texts upd (Doc_list ds) r =
     (case text_elements ds of Some ss \<Rightarrow> Some (upd (Some ss) r) | None \<Rightarrow> None)"
| "into_texts upd _ r = None"

text \<open>\<open>time.Time\<close> reads its text itself; \<open>pt\<close> reads RFC 3339.\<close>

fun into_time :: "(string \<Rightarrow> time option) \<Rightarrow> (time \<Rightarrow> 'r \<Rightarrow> 'r) \<Rightarrow> 'r setter" where
  "into_time pt upd Doc_null r = Some r"
| "into_time pt upd (Doc_string s) r = (case pt s of Some t \<Rightarrow> Some (upd t r) | None \<Rightarrow> None)"
| "into_time pt upd _ r = None"

section \<open>Structures\<close>

definition ascii_upper :: "char \<Rightarrow> char" where
  "ascii_upper c = (if (97::nat) \<le> of_char c \<and> (of_char c :: nat) \<le> 122 then char_of (of_char c - 32 :: nat) else c)"

definition fold_name :: "string \<Rightarrow> string" where
  "fold_name s = map ascii_upper s"

definition field_of :: "(string \<times> 'r setter) list \<Rightarrow> string \<Rightarrow> 'r setter option" where
  "field_of fds k =
     (case map_of fds k of
        Some f \<Rightarrow> Some f
      | None \<Rightarrow> map_option snd (find (\<lambda>f. fold_name (fst f) = fold_name k) fds))"

fun decode_fields :: "(string \<times> 'r setter) list \<Rightarrow> (string \<times> json_doc) list \<Rightarrow> 'r \<Rightarrow> 'r option" where
  "decode_fields fds [] r = Some r"
| "decode_fields fds ((k, v) # kvs) r =
     (case field_of fds k of
        None \<Rightarrow> decode_fields fds kvs r
      | Some f \<Rightarrow> Option.bind (f v r) (decode_fields fds kvs))"

fun decode_struct :: "(string \<times> 'r setter) list \<Rightarrow> 'r \<Rightarrow> json_doc \<Rightarrow> 'r option" where
  "decode_struct fds zero Doc_null = Some zero"
| "decode_struct fds zero (Doc_object kvs) = decode_fields fds kvs zero"
| "decode_struct fds zero _ = None"

definition decode_body :: "string \<Rightarrow> (string \<times> 'r setter) list \<Rightarrow> 'r \<Rightarrow> json_doc option \<Rightarrow> string + 'r" where
  "decode_body wording fds zero body =
     (case Option.bind body (decode_struct fds zero) of Some r \<Rightarrow> Inr r | None \<Rightarrow> Inl wording)"

end
