(* ===== verification/Json_Request.thy ===== *)
theory Json_Request
  imports Json_Doc Assignment_Api Config_Api
begin

text \<open>
  The bodies of requests to \<open>config-server/internal/api\<close>, from JSON to the structures the handlers
  decode them into, with the names in the tags of their fields.
\<close>

definition register_body :: "string \<Rightarrow> json_doc option \<Rightarrow> string + register_request" where
  "register_body wording = decode_body wording
     [(''hostname'', into_text (\<lambda>s r. r\<lparr>rr_hostname := s\<rparr>)),
      (''ip_address'', into_text (\<lambda>s r. r\<lparr>rr_ip := s\<rparr>)),
      (''certificate_fingerprint'', into_text (\<lambda>s r. r\<lparr>rr_fingerprint := s\<rparr>)),
      (''status'', into_text (\<lambda>s r. r\<lparr>rr_status := s\<rparr>))]
     \<lparr>rr_hostname = [], rr_ip = [], rr_fingerprint = [], rr_status = []\<rparr>"

definition host_update_body :: "string \<Rightarrow> json_doc option \<Rightarrow> string + update_request" where
  "host_update_body wording = decode_body wording
     [(''ip_address'', into_text_pointer (\<lambda>s r. r\<lparr>uq_ip := s\<rparr>)),
      (''status'', into_text_pointer (\<lambda>s r. r\<lparr>uq_status := s\<rparr>)),
      (''certificate_fingerprint'', into_text_pointer (\<lambda>s r. r\<lparr>uq_fingerprint := s\<rparr>)),
      (''config_id'', into_uint_pointer (\<lambda>n r. r\<lparr>uq_config := n\<rparr>))]
     \<lparr>uq_ip = None, uq_status = None, uq_fingerprint = None, uq_config = None\<rparr>"

definition group_body :: "string \<Rightarrow> json_doc option \<Rightarrow> string + group_request" where
  "group_body wording = decode_body wording
     [(''name'', into_text (\<lambda>s r. r\<lparr>gq_name := s\<rparr>)),
      (''config_id'', into_uint_pointer (\<lambda>n r. r\<lparr>gq_config := n\<rparr>))]
     \<lparr>gq_name = [], gq_config = None\<rparr>"

definition group_update_body :: "string \<Rightarrow> json_doc option \<Rightarrow> string + group_update_request" where
  "group_update_body wording = decode_body wording
     [(''name'', into_text_pointer (\<lambda>s r. r\<lparr>gu_name := s\<rparr>)),
      (''config_id'', into_uint_pointer (\<lambda>n r. r\<lparr>gu_config := n\<rparr>))]
     \<lparr>gu_name = None, gu_config = None\<rparr>"

definition dynamic_body :: "string \<Rightarrow> json_doc option \<Rightarrow> string + dynamic_request" where
  "dynamic_body wording = decode_body wording
     [(''name'', into_text (\<lambda>s r. r\<lparr>dq_name := s\<rparr>)),
      (''pattern'', into_text (\<lambda>s r. r\<lparr>dq_pattern := s\<rparr>)),
      (''config_id'', into_uint_pointer (\<lambda>n r. r\<lparr>dq_config := n\<rparr>))]
     \<lparr>dq_name = [], dq_pattern = [], dq_config = None\<rparr>"

definition dynamic_update_body :: "string \<Rightarrow> json_doc option \<Rightarrow> string + dynamic_update_request" where
  "dynamic_update_body wording = decode_body wording
     [(''name'', into_text_pointer (\<lambda>s r. r\<lparr>du_name := s\<rparr>)),
      (''pattern'', into_text_pointer (\<lambda>s r. r\<lparr>du_pattern := s\<rparr>)),
      (''config_id'', into_uint_pointer (\<lambda>n r. r\<lparr>du_config := n\<rparr>))]
     \<lparr>du_name = None, du_pattern = None, du_config = None\<rparr>"

text \<open>The three assignments differ in the name of the second id.\<close>

definition assign_body :: "string \<Rightarrow> string \<Rightarrow> json_doc option \<Rightarrow> string + assign_request" where
  "assign_body target wording = decode_body wording
     [(''host_id'', into_uint (\<lambda>n r. r\<lparr>aq_host := n\<rparr>)), (target, into_uint (\<lambda>n r. r\<lparr>aq_target := n\<rparr>))]
     \<lparr>aq_host = 0, aq_target = 0\<rparr>"

definition config_setters :: "(string \<Rightarrow> time option) \<Rightarrow> (string \<times> config_body setter) list" where
  "config_setters pt =
     [(''id'', into_uint (\<lambda>n r. r\<lparr>cb_id := n\<rparr>)),
      (''name'', into_text (\<lambda>s r. r\<lparr>cb_name := s\<rparr>)),
      (''allowed_dns_resolvers'', into_texts (\<lambda>l r. r\<lparr>cb_dns_servers := l\<rparr>)),
      (''whitelisted_domains'', into_texts (\<lambda>l r. r\<lparr>cb_whitelist := l\<rparr>)),
      (''blacklisted_domains'', into_texts (\<lambda>l r. r\<lparr>cb_blacklist := l\<rparr>)),
      (''default_ttl'', into_int (\<lambda>n r. r\<lparr>cb_default_ttl := n\<rparr>)),
      (''max_ttl'', into_int (\<lambda>n r. r\<lparr>cb_max_ttl := n\<rparr>)),
      (''min_ttl'', into_int (\<lambda>n r. r\<lparr>cb_min_ttl := n\<rparr>)),
      (''refresh_interval'', into_int (\<lambda>n r. r\<lparr>cb_refresh_interval := n\<rparr>)),
      (''restrict_to_allowed_dns'', into_bool (\<lambda>b r. r\<lparr>cb_restrict := b\<rparr>)),
      (''created_at'', into_time pt (\<lambda>t r. r\<lparr>cb_created := t\<rparr>)),
      (''updated_at'', into_time pt (\<lambda>t r. r\<lparr>cb_updated := t\<rparr>))]"

definition zero_config_body :: config_body where
  "zero_config_body =
     \<lparr>cb_id = 0, cb_name = [], cb_dns_servers = None, cb_whitelist = None, cb_blacklist = None,
      cb_default_ttl = 0, cb_max_ttl = 0, cb_min_ttl = 0, cb_refresh_interval = 0, cb_restrict = False,
      cb_created = 0, cb_updated = 0\<rparr>"

definition configuration_body ::
  "string \<Rightarrow> (string \<Rightarrow> time option) \<Rightarrow> json_doc option \<Rightarrow> string + config_body" where
  "configuration_body wording pt = decode_body wording (config_setters pt) zero_config_body"

text \<open>\<open>login\<close> decodes a body with one field.\<close>

definition login_body :: "string \<Rightarrow> json_doc option \<Rightarrow> string + string" where
  "login_body wording = decode_body wording [(''password'', into_text (\<lambda>s r. s))] []"

end
