(* ===== verification/Ws_Hub.thy ===== *)
theory Ws_Hub
  imports Api_Auth Host_Api
begin

text \<open>
  The WebSocket hub of the configuration server (\<open>config-server/internal/api/websocket.go\<close>). A
  \<open>*Client\<close> is an address; the hub holds a store of clients, the two maps over their addresses and
  the buffered channel of broadcasts. A channel is the list of its buffered messages with a flag
  for \<open>close\<close>; every operation that can panic on a closed channel returns an option, \<open>None\<close> being
  the panic. Log lines and the timestamps in the messages are left out.

  \<open>SendToHost\<close>, a broadcast, \<open>register_host\<close> and the writer are several steps of the program, between which
  other goroutines run. The parts that run undisturbed are definitions here (\<open>deliver\<close>, \<open>broadcast_one\<close>,
  \<open>announce\<close>, \<open>enter_host\<close>, \<open>take_message\<close>), and \<open>send_to_host\<close>, \<open>hub_broadcast\<close>, \<open>read_message\<close> and
  \<open>write_pump\<close> are their runs with nothing in between. \<open>Ws_Hub_Facts\<close> interleaves the parts. A single access
  to a map is atomic: Go guarantees that only under the hub's lock, and the deletions of a broadcast
  are made under the lock for reading.
\<close>

datatype hub_message =
    Pong
  | Configuration_update nat
  | Full_configuration egress_config
  | Host_status_update nat string

record ws_client = ws_identity +
  wc_send :: "hub_message list"
  wc_closed :: bool

record hub =
  hb_store :: "nat \<rightharpoonup> ws_client"
  hb_clients :: "nat set"
  hb_hosts :: "nat \<rightharpoonup> nat"
  hb_broadcast :: "hub_message list"

definition new_hub :: hub where
  "new_hub = \<lparr>hb_store = Map.empty, hb_clients = {}, hb_hosts = Map.empty, hb_broadcast = []\<rparr>"

definition channel_size :: nat where
  "channel_size = 256"

definition set_client :: "nat \<Rightarrow> ws_client \<Rightarrow> hub \<Rightarrow> hub" where
  "set_client r c h = h\<lparr>hb_store := (hb_store h)(r \<mapsto> c)\<rparr>"

text \<open>\<open>select { case c.Send <- m: ... default: ... }\<close>\<close>

datatype send_outcome = Sent ws_client | Would_block | Send_panics

definition try_send :: "hub_message \<Rightarrow> ws_client \<Rightarrow> send_outcome" where
  "try_send m c =
     (if wc_closed c then Send_panics
      else if length (wc_send c) < channel_size then Sent (c\<lparr>wc_send := wc_send c @ [m]\<rparr>)
      else Would_block)"

section \<open>The loop of the hub\<close>

text \<open>A connection: the client of an identity is created at a fresh address and registered.\<close>

definition new_client :: "ws_identity \<Rightarrow> ws_client" where
  "new_client i = ws_identity.extend i \<lparr>wc_send = [], wc_closed = False\<rparr>"

definition hub_register :: "nat \<Rightarrow> ws_client \<Rightarrow> hub \<Rightarrow> hub" where
  "hub_register r c h =
     (let h1 = h\<lparr>hb_clients := insert r (hb_clients h)\<rparr>
      in if 0 < wi_host_id c then h1\<lparr>hb_hosts := (hb_hosts h1)(wi_host_id c \<mapsto> r)\<rparr> else h1)"

definition hub_connect :: "nat \<Rightarrow> ws_identity \<Rightarrow> hub \<Rightarrow> hub" where
  "hub_connect r i h = (let c = new_client i in hub_register r c (set_client r c h))"

text \<open>Removing a client's entry of the host map, as unregistering and evicting do.\<close>

definition drop_host :: "ws_client \<Rightarrow> hub \<Rightarrow> hub" where
  "drop_host c h = (if 0 < wi_host_id c then h\<lparr>hb_hosts := (hb_hosts h)(wi_host_id c := None)\<rparr> else h)"

definition close_client :: "nat \<Rightarrow> ws_client \<Rightarrow> hub \<Rightarrow> hub" where
  "close_client r c h =
     (set_client r (c\<lparr>wc_closed := True\<rparr>) h)\<lparr>hb_clients := hb_clients h - {r}\<rparr>"

definition hub_unregister :: "nat \<Rightarrow> hub \<Rightarrow> hub option" where
  "hub_unregister r h =
     (case hb_store h r of
        None \<Rightarrow> None
      | Some c \<Rightarrow>
          if r \<in> hb_clients h then
            (if wc_closed c then None else Some (drop_host c (close_client r c h)))
          else Some (drop_host c h))"

text \<open>One client of a broadcast, and the loop over the clients in the order of the range.\<close>

definition broadcast_one :: "hub_message \<Rightarrow> nat \<Rightarrow> hub \<Rightarrow> hub option" where
  "broadcast_one m r h =
     (case hb_store h r of
        None \<Rightarrow> None
      | Some c \<Rightarrow>
          (case try_send m c of
             Sent c1 \<Rightarrow> Some (set_client r c1 h)
           | Would_block \<Rightarrow> Some (drop_host c (close_client r c h))
           | Send_panics \<Rightarrow> None))"

fun broadcast_loop :: "hub_message \<Rightarrow> nat list \<Rightarrow> hub \<Rightarrow> hub option" where
  "broadcast_loop m [] h = Some h"
| "broadcast_loop m (r # rs) h =
     (case broadcast_one m r h of None \<Rightarrow> None | Some h1 \<Rightarrow> broadcast_loop m rs h1)"

definition hub_broadcast :: "nat list \<Rightarrow> hub \<Rightarrow> hub option" where
  "hub_broadcast order h =
     (case hb_broadcast h of
        [] \<Rightarrow> Some h
      | m # ms \<Rightarrow> broadcast_loop m order (h\<lparr>hb_broadcast := ms\<rparr>))"

section \<open>Sending\<close>

text \<open>
  \<open>SendToHost\<close> looks the client up under the read lock, releases the lock and then sends. \<open>deliver\<close> is
  the second half, on the client found; \<open>send_to_host\<close> is both with nothing in between.
\<close>

definition deliver :: "nat \<Rightarrow> hub_message \<Rightarrow> hub \<Rightarrow> (bool \<times> hub) option" where
  "deliver r m h =
     (case hb_store h r of
        None \<Rightarrow> None
      | Some c \<Rightarrow>
          (case try_send m c of
             Sent c1 \<Rightarrow> Some (True, set_client r c1 h)
           | Would_block \<Rightarrow> Some (False, h)
           | Send_panics \<Rightarrow> None))"

definition send_to_host :: "nat \<Rightarrow> hub_message \<Rightarrow> hub \<Rightarrow> (bool \<times> hub) option" where
  "send_to_host i m h =
     (case hb_hosts h i of None \<Rightarrow> Some (False, h) | Some r \<Rightarrow> deliver r m h)"

definition broadcast_configuration_update :: "nat \<Rightarrow> nat \<Rightarrow> hub \<Rightarrow> (bool \<times> hub) option" where
  "broadcast_configuration_update i c h = send_to_host i (Configuration_update c) h"

definition send_configuration :: "nat \<Rightarrow> egress_config \<Rightarrow> hub \<Rightarrow> (bool \<times> hub) option" where
  "send_configuration i cfg h = send_to_host i (Full_configuration cfg) h"

text \<open>A send to the broadcast channel; \<open>None\<close> when it blocks because the channel is full.\<close>

definition send_to_all :: "hub_message \<Rightarrow> hub \<Rightarrow> hub option" where
  "send_to_all m h =
     (if length (hb_broadcast h) < channel_size then Some (h\<lparr>hb_broadcast := hb_broadcast h @ [m]\<rparr>) else None)"

definition broadcast_host_status :: "nat \<Rightarrow> string \<Rightarrow> hub \<Rightarrow> hub option" where
  "broadcast_host_status i status h = send_to_all (Host_status_update i status) h"

text \<open>What a handler hands to the hub, in its order. A panic ends the handler.\<close>

fun notify :: "hub_event list \<Rightarrow> hub \<Rightarrow> hub option" where
  "notify [] h = Some h"
| "notify (Config_update i c # evs) h =
     (case broadcast_configuration_update i c h of None \<Rightarrow> None | Some (_, h1) \<Rightarrow> notify evs h1)"
| "notify (Send_config i cfg # evs) h =
     (case send_configuration i cfg h of None \<Rightarrow> None | Some (_, h1) \<Rightarrow> notify evs h1)"

section \<open>A client's messages\<close>

text \<open>
  What \<open>readPump\<close> makes of a message: the fields it reads, where a field that is missing or of
  another type is \<open>None\<close>. \<open>host_id\<close> is the number already converted to \<open>uint\<close>.
\<close>

datatype client_message =
    Ping_message
  | Register_host_message "string option" "nat option"
  | Status_update_message "string option"
  | Other_message

datatype read_result = Continue hub | Blocks | Crashes

text \<open>
  \<open>register_host\<close> sets the client's fields without a lock and then enters the client into the map under
  the lock; the second half follows only a host id.
\<close>

definition announce :: "nat \<Rightarrow> string option \<Rightarrow> nat option \<Rightarrow> ws_client \<Rightarrow> hub \<Rightarrow> hub" where
  "announce r nm i c h =
     (let c1 = (case nm of Some s \<Rightarrow> c\<lparr>wi_hostname := s\<rparr> | None \<Rightarrow> c)
      in set_client r (case i of Some n \<Rightarrow> c1\<lparr>wi_host_id := n\<rparr> | None \<Rightarrow> c1) h)"

definition enter_host :: "nat \<Rightarrow> hub \<Rightarrow> hub option" where
  "enter_host r h =
     (case hb_store h r of
        None \<Rightarrow> None
      | Some c \<Rightarrow> Some (h\<lparr>hb_hosts := (hb_hosts h)(wi_host_id c \<mapsto> r)\<rparr>))"

text \<open>The plain send of the pong blocks on a full channel and panics on a closed one.\<close>

definition read_message :: "nat \<Rightarrow> client_message \<Rightarrow> hub \<Rightarrow> read_result" where
  "read_message r msg h =
     (case hb_store h r of
        None \<Rightarrow> Crashes
      | Some c \<Rightarrow>
          (case msg of
             Ping_message \<Rightarrow>
               (case try_send Pong c of
                  Sent c1 \<Rightarrow> Continue (set_client r c1 h)
                | Would_block \<Rightarrow> Blocks
                | Send_panics \<Rightarrow> Crashes)
           | Register_host_message nm i \<Rightarrow>
               (let h1 = announce r nm i c h
                in case i of
                     None \<Rightarrow> Continue h1
                   | Some _ \<Rightarrow> (case enter_host r h1 of Some h2 \<Rightarrow> Continue h2 | None \<Rightarrow> Crashes))
           | Status_update_message st \<Rightarrow>
               (case st of
                  None \<Rightarrow> Continue h
                | Some s \<Rightarrow>
                    (case broadcast_host_status (wi_host_id c) s h of Some h1 \<Rightarrow> Continue h1 | None \<Rightarrow> Blocks))
           | Other_message \<Rightarrow> Continue h))"

text \<open>
  The loop of \<open>readPump\<close> over what \<open>ReadMessage\<close> returns: an error, or a message with its length, which
  is \<open>None\<close> where it is no JSON object. A message above the limit of 512 bytes is an error too. The
  deferred function unregisters the client when the loop has ended.
\<close>

datatype read_event = Read_fails | Read_gives nat "client_message option"

datatype read_end = Unregistered hub | Reading hub | Read_blocks | Read_crashes

definition read_deferred :: "nat \<Rightarrow> hub \<Rightarrow> read_end" where
  "read_deferred r h = (case hub_unregister r h of Some h1 \<Rightarrow> Unregistered h1 | None \<Rightarrow> Read_crashes)"

fun read_pump :: "nat \<Rightarrow> read_event list \<Rightarrow> hub \<Rightarrow> read_end" where
  "read_pump r [] h = Reading h"
| "read_pump r (Read_fails # es) h = read_deferred r h"
| "read_pump r (Read_gives n msg # es) h =
     (if 512 < n then read_deferred r h
      else case msg of
        None \<Rightarrow> read_pump r es h
      | Some x \<Rightarrow>
          (case read_message r x h of
             Continue h1 \<Rightarrow> read_pump r es h1
           | Blocks \<Rightarrow> Read_blocks
           | Crashes \<Rightarrow> Read_crashes))"

section \<open>The writer\<close>

text \<open>
  What the \<open>select\<close> of \<open>writePump\<close> finds ready: the channel, with whether \<open>NextWriter\<close> and the closing of the
  frame succeed, or the ticker, with whether the ping is written. The errors of single writes into a
  frame are ignored by the code and come back when the frame is closed.
\<close>

datatype write_event = Channel_ready bool bool | Ping_due bool

fun write_fault :: "write_event \<Rightarrow> bool" where
  "write_fault (Channel_ready opened closed) \<longleftrightarrow> \<not> (opened \<and> closed)"
| "write_fault (Ping_due written) \<longleftrightarrow> \<not> written"

fun channel_event :: "write_event \<Rightarrow> bool" where
  "channel_event (Channel_ready opened closed) \<longleftrightarrow> True"
| "channel_event (Ping_due written) \<longleftrightarrow> False"

definition take_message :: "ws_client \<Rightarrow> (hub_message \<times> ws_client) option" where
  "take_message c = (case wc_send c of [] \<Rightarrow> None | m # ms \<Rightarrow> Some (m, c\<lparr>wc_send := ms\<rparr>))"

text \<open>
  A turn of the loop with nobody else at the channel: one frame with the message received and the
  \<open>n\<close> that are queued behind it; a stop with the messages that were taken from the channel and not
  written; the close frame on a closed and drained channel; or no effect: a ping, or an open and empty
  channel, on which the \<open>select\<close> waits.
\<close>

datatype write_turn = Frame "hub_message list" ws_client | Stops "hub_message list" ws_client | Close_frame | Goes_on

definition write_pump :: "write_event \<Rightarrow> ws_client \<Rightarrow> write_turn" where
  "write_pump ev c =
     (case ev of
        Ping_due written \<Rightarrow> if written then Goes_on else Stops [] c
      | Channel_ready opened closed \<Rightarrow>
          (case take_message c of
             None \<Rightarrow> if wc_closed c then Close_frame else Goes_on
           | Some (m, c1) \<Rightarrow>
               (if \<not> opened then Stops [m] c1
                else let n = length (wc_send c1);
                         frame = m # take n (wc_send c1);
                         c2 = c1\<lparr>wc_send := drop n (wc_send c1)\<rparr>
                     in if closed then Frame frame c2 else Stops frame c2)))"

text \<open>
  The loop over what becomes ready: the frames written, and whether it still runs, has ended with its
  close frame, or has ended with an error that lost the messages given.
\<close>

datatype pump_end = Pump_running ws_client | Pump_closed | Pump_failed "hub_message list" ws_client

fun pump_loop :: "write_event list \<Rightarrow> ws_client \<Rightarrow> hub_message list list \<times> pump_end" where
  "pump_loop [] c = ([], Pump_running c)"
| "pump_loop (ev # evs) c =
     (case write_pump ev c of
        Frame ms c1 \<Rightarrow> (case pump_loop evs c1 of (fs, e) \<Rightarrow> (ms # fs, e))
      | Stops lost c1 \<Rightarrow> ([], Pump_failed lost c1)
      | Close_frame \<Rightarrow> ([], Pump_closed)
      | Goes_on \<Rightarrow> pump_loop evs c)"

section \<open>Status\<close>

text \<open>\<open>handleStatus\<close> and \<open>handleHealth\<close> (\<open>server.go\<close>) without their time stamps; the counts are those of the maps.\<close>

datatype status_data = Status_running nat nat | Health_ok

definition handle_status :: "hub \<Rightarrow> status_data http_result" where
  "handle_status h =
     write_ok 200 ''Server is running'' (Some (Status_running (card (hb_clients h)) (card (dom (hb_hosts h)))))"

definition handle_health :: "status_data http_result" where
  "handle_health = write_ok 200 ''Server is healthy'' (Some Health_ok)"

end
