(* ===== verification/Json_Value.thy ===== *)
theory Json_Value
  imports Go_Time
begin

text \<open>
  Decoded JSON: what \<open>encoding/json\<close> gives for an \<open>interface{}\<close>. A number is a \<open>float64\<close>; the
  program only converts numbers to integers, so a number is kept as what that conversion gives.
  \<open>float53\<close> is that number for an integer in the text: the nearest number of 53 significant bits.
\<close>

datatype json_value =
    Json_null
  | Json_bool bool
  | Json_number int
  | Json_string string
  | Json_list "json_value list"
  | Json_object "(string \<times> json_value) list"

definition float53 :: "int \<Rightarrow> int" where
  "float53 n =
     (let a = \<bar>n\<bar>; drop = bits_upto 128 a - 53; r = rne_div a (2 ^ drop) * 2 ^ drop
      in if n < 0 then - r else r)"

text \<open>Type assertions: \<open>v.(map[string]interface{})\<close> and a field of an object.\<close>

fun as_object :: "json_value \<Rightarrow> (string \<times> json_value) list option" where
  "as_object (Json_object fs) = Some fs"
| "as_object _ = None"

fun as_number :: "json_value \<Rightarrow> int option" where
  "as_number (Json_number n) = Some n"
| "as_number _ = None"

fun as_bool :: "json_value \<Rightarrow> bool option" where
  "as_bool (Json_bool b) = Some b"
| "as_bool _ = None"

fun as_string :: "json_value \<Rightarrow> string option" where
  "as_string (Json_string s) = Some s"
| "as_string _ = None"

fun as_list :: "json_value \<Rightarrow> json_value list option" where
  "as_list (Json_list vs) = Some vs"
| "as_list _ = None"

text \<open>A field read with a type assertion that may fail, and what the assertion is for.\<close>

definition field :: "(json_value \<Rightarrow> 'a option) \<Rightarrow> string \<Rightarrow> (string \<times> json_value) list \<Rightarrow> 'a option" where
  "field conv k fs = (case map_of fs k of None \<Rightarrow> None | Some v \<Rightarrow> conv v)"

definition strings :: "string list \<Rightarrow> json_value" where
  "strings ss = Json_list (map Json_string ss)"

lemma field_Cons [simp]:
  "field conv k ((j, v) # fs) = (if j = k then conv v else field conv k fs)"
  by (simp add: field_def)

lemma field_Nil [simp]: "field conv k [] = None"
  by (simp add: field_def)

section \<open>Exact integers\<close>

lemma bits_upto_le: "0 \<le> n \<Longrightarrow> n < 2 ^ m \<Longrightarrow> bits_upto k n \<le> m"
proof (induction m arbitrary: k n)
  case 0
  then show ?case by (cases k) auto
next
  case (Suc m)
  then have "n div 2 < 2 ^ m" by auto
  with Suc show ?case by (cases k) auto
qed

text \<open>Integers of at most 53 bits survive the conversion.\<close>

lemma float53_exact:
  assumes "\<bar>n\<bar> < 2 ^ 53"
  shows "float53 n = n"
proof -
  have "bits_upto 128 \<bar>n\<bar> - 53 = 0" using bits_upto_le [of "\<bar>n\<bar>" 53 128] assms by simp
  then show ?thesis by (simp add: float53_def rne_div_def Let_def)
qed

end
