(* ===== verification/Server_Json.thy ===== *)
theory Server_Json
  imports Ws_Hub Json_Value
begin

text \<open>
  The JSON the configuration server writes, as a client decodes it: the responses of the host
  handlers (\<open>config-server/internal/api/hosts.go\<close>), the structures with their field tags
  (\<open>config-server/internal/models/models.go\<close>) and the messages of the hub
  (\<open>config-server/internal/api/websocket.go\<close>). \<open>tt\<close> writes a time as text.
\<close>

definition json_id :: "nat option \<Rightarrow> json_value" where
  "json_id i = (case i of Some n \<Rightarrow> Json_number (float53 (int n)) | None \<Rightarrow> Json_null)"

definition host_fields :: "(time \<Rightarrow> string) \<Rightarrow> host \<Rightarrow> (string \<times> json_value) list" where
  "host_fields tt h =
     [(''id'', json_id (Some (ho_id h))), (''hostname'', Json_string (ho_hostname h)),
      (''ip_address'', Json_string (ho_ip h)), (''last_seen_at'', Json_string (tt (ho_last_seen h))),
      (''status'', Json_string (ho_status h)), (''certificate_fingerprint'', Json_string (ho_fingerprint h)),
      (''created_at'', Json_string (tt (ho_created h))), (''config_id'', json_id (ho_config h))]"

definition json_of_host :: "(time \<Rightarrow> string) \<Rightarrow> host \<Rightarrow> json_value" where
  "json_of_host tt h = Json_object (host_fields tt h)"

definition json_of_configuration :: "(time \<Rightarrow> string) \<Rightarrow> configuration \<Rightarrow> json_value" where
  "json_of_configuration tt c = Json_object
     [(''id'', json_id (Some (cf_id c))), (''name'', Json_string (cf_name c)),
      (''allowed_dns_resolvers'', strings (cf_dns_servers c)), (''whitelisted_domains'', strings (cf_whitelist c)),
      (''blacklisted_domains'', strings (cf_blacklist c)),
      (''default_ttl'', Json_number (float53 (cf_default_ttl c))), (''max_ttl'', Json_number (float53 (cf_max_ttl c))),
      (''min_ttl'', Json_number (float53 (cf_min_ttl c))),
      (''refresh_interval'', Json_number (float53 (cf_refresh_interval c))),
      (''restrict_to_allowed_dns'', Json_bool (cf_restrict c)),
      (''created_at'', Json_string (tt (cf_created c))), (''updated_at'', Json_string (tt (cf_updated c)))]"

definition json_of_egress :: "egress_config \<Rightarrow> json_value" where
  "json_of_egress e = Json_object
     [(''allowed_dns_resolvers'', strings (eg_dns_servers e)), (''whitelisted_domains'', strings (eg_whitelist e)),
      (''blacklisted_domains'', strings (eg_blacklist e)),
      (''default_ttl'', Json_number (float53 (eg_default_ttl e))), (''max_ttl'', Json_number (float53 (eg_max_ttl e))),
      (''min_ttl'', Json_number (float53 (eg_min_ttl e))),
      (''refresh_interval'', Json_number (float53 (eg_refresh_interval e))),
      (''restrict_to_allowed_dns'', Json_bool (eg_restrict e)),
      (''configuration_id'', json_id (Some (eg_configuration_id e)))]"

section \<open>Responses\<close>

definition json_of_row :: "(time \<Rightarrow> string) \<Rightarrow> host_row \<Rightarrow> json_value" where
  "json_of_row tt r = Json_object
     (host_fields tt (hr_host r) @
      (case hr_config_name r of Some nm \<Rightarrow> [(''config_name'', Json_string nm)] | None \<Rightarrow> []) @
      (case hr_effective r of
         Some (i, nm) \<Rightarrow> [(''effective_config_id'', json_id (Some i)), (''effective_config_name'', Json_string nm)]
       | None \<Rightarrow> [(''effective_config_id'', Json_null), (''effective_config_name'', Json_null)]))"

fun json_of_host_data :: "(time \<Rightarrow> string) \<Rightarrow> host_data \<Rightarrow> json_value" where
  "json_of_host_data tt (Host_data h) = Json_object [(''host'', json_of_host tt h)]"
| "json_of_host_data tt (Hosts_data rows n) = Json_object
     [(''hosts'', if rows = [] then Json_null else Json_list (map (json_of_row tt) rows)),
      (''total'', Json_number (float53 (int n)))]"
| "json_of_host_data tt (Host_and_config h cfg) = Json_object
     [(''host'', json_of_host tt h),
      (''effective_config'', case cfg of Some c \<Rightarrow> json_of_configuration tt c | None \<Rightarrow> Json_null)]"
| "json_of_host_data tt (Unconfigured_data i) = Json_object
     [(''host_id'', json_id (Some i)), (''configured'', Json_bool False)]"
| "json_of_host_data tt (Configured_data i nm e) = Json_object
     [(''host_id'', json_id (Some i)), (''host_hostname'', Json_string nm), (''configured'', Json_bool True),
      (''configuration'', json_of_egress e)]"

text \<open>The fields of \<open>APIResponse\<close> but \<open>success\<close> are left out when they are empty.\<close>

definition response_fields :: "('d \<Rightarrow> json_value) \<Rightarrow> 'd api_response \<Rightarrow> (string \<times> json_value) list" where
  "response_fields enc r =
     (''success'', Json_bool (ar_success r)) #
     (if ar_message r = [] then [] else [(''message'', Json_string (ar_message r))]) @
     (case ar_data r of Some d \<Rightarrow> [(''data'', enc d)] | None \<Rightarrow> []) @
     (if ar_error r = [] then [] else [(''error'', Json_string (ar_error r))])"

section \<open>Messages of the hub\<close>

text \<open>\<open>stamp\<close> is the text of the time of sending; the pong has none.\<close>

fun message_fields :: "string \<Rightarrow> hub_message \<Rightarrow> (string \<times> json_value) list" where
  "message_fields stamp Pong = [(''type'', Json_string ''pong'')]"
| "message_fields stamp (Configuration_update c) =
     [(''type'', Json_string ''configuration_update''), (''configuration_id'', json_id (Some c)),
      (''timestamp'', Json_string stamp)]"
| "message_fields stamp (Full_configuration e) =
     [(''type'', Json_string ''configuration_update''), (''configuration'', json_of_egress e),
      (''timestamp'', Json_string stamp)]"
| "message_fields stamp (Host_status_update i s) =
     [(''type'', Json_string ''host_status_update''), (''host_id'', json_id (Some i)),
      (''status'', Json_string s), (''timestamp'', Json_string stamp)]"

text \<open>
  A frame as its reader decodes it: its messages are separated by line breaks, and \<open>json.Unmarshal\<close>
  refuses text after the first value, so only a frame of one message can be decoded.
\<close>

fun decode_frame :: "string \<Rightarrow> hub_message list \<Rightarrow> (string \<times> json_value) list option" where
  "decode_frame stamp [m] = Some (message_fields stamp m)"
| "decode_frame stamp _ = None"

end
