(* ===== verification/Api_Json.thy ===== *)
theory Api_Json
  imports Json_Request Server_Json Api_Auth
begin

text \<open>
  The JSON of the remaining responses of \<open>config-server/internal/api\<close> as a client decodes it: groups,
  assignments, configurations, login and the two status pages. A nil slice is written as \<open>null\<close>; a
  pointer that is nil too. \<open>tt\<close> writes a time as text.
\<close>

section \<open>Groups\<close>

definition group_fields :: "(time \<Rightarrow> string) \<Rightarrow> host_group \<Rightarrow> (string \<times> json_value) list" where
  "group_fields tt g =
     [(''id'', json_id (Some (hg_id g))), (''name'', Json_string (hg_name g)),
      (''config_id'', json_id (hg_config g)), (''created_at'', Json_string (tt (hg_created g)))]"

definition dynamic_fields :: "(time \<Rightarrow> string) \<Rightarrow> dynamic_group \<Rightarrow> (string \<times> json_value) list" where
  "dynamic_fields tt g =
     [(''id'', json_id (Some (dg_id g))), (''name'', Json_string (dg_name g)),
      (''pattern'', Json_string (dg_pattern g)), (''config_id'', json_id (dg_config g)),
      (''created_at'', Json_string (tt (dg_created g)))]"

definition json_slice_of :: "('a \<Rightarrow> json_value) \<Rightarrow> 'a list \<Rightarrow> json_value" where
  "json_slice_of enc xs = (if xs = [] then Json_null else Json_list (map enc xs))"

definition optional :: "string \<Rightarrow> ('a \<Rightarrow> json_value) \<Rightarrow> 'a option \<Rightarrow> (string \<times> json_value) list" where
  "optional k enc x = (case x of None \<Rightarrow> [] | Some a \<Rightarrow> [(k, enc a)])"

definition json_count :: "nat \<Rightarrow> json_value" where
  "json_count n = Json_number (float53 (int n))"

fun json_of_group_data :: "(time \<Rightarrow> string) \<Rightarrow> group_data \<Rightarrow> json_value" where
  "json_of_group_data tt (Group_data g) = Json_object [(''group'', Json_object (group_fields tt g))]"
| "json_of_group_data tt (Groups_data rows n) = Json_object
     [(''groups'', json_slice_of
         (\<lambda>(g, nm). Json_object (group_fields tt g @ optional ''config_name'' Json_string nm)) rows),
      (''total'', json_count n)]"
| "json_of_group_data tt (Group_and_config g c) = Json_object
     ((''group'', Json_object (group_fields tt g)) # optional ''config'' (json_of_configuration tt) c)"
| "json_of_group_data tt (Dynamic_data g) = Json_object [(''group'', Json_object (dynamic_fields tt g))]"
| "json_of_group_data tt (Dynamics_data rows n) = Json_object
     [(''groups'', json_slice_of
         (\<lambda>(g, nm, k). Json_object (dynamic_fields tt g @ optional ''config_name'' Json_string nm @
            optional ''matching_hosts'' json_count k)) rows),
      (''total'', json_count n)]"
| "json_of_group_data tt (Dynamic_details g c hs) = Json_object
     ((''group'', Json_object (dynamic_fields tt g)) # optional ''config'' (json_of_configuration tt) c @
      optional ''matching_hosts'' (json_slice_of (json_of_host tt)) hs @
      optional ''matching_hosts_count'' (json_count \<circ> length) hs)"

section \<open>Assignments\<close>

definition json_pointer :: "('a \<Rightarrow> json_value) \<Rightarrow> 'a option \<Rightarrow> json_value" where
  "json_pointer enc x = (case x of None \<Rightarrow> Json_null | Some a \<Rightarrow> enc a)"

fun json_of_assignment :: "(time \<Rightarrow> string) \<Rightarrow> assignment_data \<Rightarrow> json_value" where
  "json_of_assignment tt (Assigned_config i c h cfg) = Json_object
     [(''host_id'', json_id (Some i)), (''config_id'', json_id (Some c)),
      (''host'', json_of_host tt h), (''config'', json_of_configuration tt cfg)]"
| "json_of_assignment tt (Assigned_group i k h g) = Json_object
     [(''host_id'', json_id (Some i)), (''group_id'', json_id (Some k)),
      (''host'', json_of_host tt h), (''group'', Json_object (group_fields tt g))]"
| "json_of_assignment tt (Matches_dynamic i k pattern cid cfg) = Json_object
     [(''host_id'', json_id (Some i)), (''dynamic_group_id'', json_id (Some k)), (''matches'', Json_bool True),
      (''pattern'', Json_string pattern), (''config_id'', json_id cid),
      (''effective_config'', json_pointer (json_of_configuration tt) cfg)]"
| "json_of_assignment tt (Assignments h direct statics dynamics effective) = Json_object
     [(''host'', json_of_host tt h), (''direct_config'', json_pointer (json_of_configuration tt) direct),
      (''static_groups'', json_slice_of (\<lambda>g. Json_object (group_fields tt g)) statics),
      (''dynamic_groups'', json_slice_of (\<lambda>g. Json_object (dynamic_fields tt g)) dynamics),
      (''effective_config'', json_pointer (json_of_configuration tt) effective)]"

section \<open>Configurations\<close>

fun json_of_config_data :: "(time \<Rightarrow> string) \<Rightarrow> config_data \<Rightarrow> json_value" where
  "json_of_config_data tt (Config_data c) = json_of_configuration tt c"
| "json_of_config_data tt (Configs_data cs) = json_slice_of (json_of_configuration tt) cs"

section \<open>Login and status\<close>

text \<open>The response to a login is a structure of its own, with \<open>success\<close> and the session beside the message.\<close>

fun login_fields :: "auth_data api_response \<Rightarrow> (string \<times> json_value) list" where
  "login_fields r =
     (''success'', Json_bool (ar_success r)) # optional ''message'' Json_string (if ar_message r = [] then None else Some (ar_message r)) @
     (case ar_data r of
        Some (Login_response i) \<Rightarrow> optional ''session_id'' Json_string (if i = [] then None else Some i)
      | _ \<Rightarrow> []) @
     optional ''error'' Json_string (if ar_error r = [] then None else Some (ar_error r))"

fun json_of_auth_status :: "(time \<Rightarrow> string) \<Rightarrow> auth_data \<Rightarrow> json_value" where
  "json_of_auth_status tt (Auth_status None msg) = Json_object
     ((''authenticated'', Json_bool False) #
      optional ''message'' Json_string (if msg = [] then None else Some msg))"
| "json_of_auth_status tt (Auth_status (Some (user, expires, ip)) msg) = Json_object
     [(''authenticated'', Json_bool True), (''username'', Json_string user),
      (''expires_at'', Json_string (tt expires)), (''ip_address'', Json_string ip)]"
| "json_of_auth_status tt (Login_response i) = Json_null"

fun json_of_status :: "string \<Rightarrow> status_data \<Rightarrow> json_value" where
  "json_of_status stamp (Status_running clients host_clients) = Json_object
     [(''status'', Json_string ''running''), (''timestamp'', Json_string stamp),
      (''clients'', json_count clients), (''host_clients'', json_count host_clients)]"
| "json_of_status stamp Health_ok = Json_object
     [(''health'', Json_string ''ok''), (''timestamp'', Json_string stamp)]"

end
