(* ===== verification/Api_Json_Facts.thy ===== *)
theory Api_Json_Facts
  imports Api_Json Api_Facts
begin

text \<open>
  What a client of the interface sees, from the JSON of its request to the JSON of the response: a
  configuration comes back as it was sent, and no update takes a host's configuration away.
\<close>

section \<open>Configurations\<close>

text \<open>The body a client sends for a configuration.\<close>

definition config_request ::
  "string \<Rightarrow> string list \<Rightarrow> string list \<Rightarrow> string list \<Rightarrow> int \<Rightarrow> int \<Rightarrow> int \<Rightarrow> int \<Rightarrow> bool \<Rightarrow> json_doc" where
  "config_request nm dns wl bl d mx mn ri flag = Doc_object
     [(''name'', Doc_string nm), (''allowed_dns_resolvers'', Doc_list (map Doc_string dns)),
      (''whitelisted_domains'', Doc_list (map Doc_string wl)), (''blacklisted_domains'', Doc_list (map Doc_string bl)),
      (''default_ttl'', Doc_int d), (''max_ttl'', Doc_int mx), (''min_ttl'', Doc_int mn),
      (''refresh_interval'', Doc_int ri), (''restrict_to_allowed_dns'', Doc_bool flag)]"

lemma text_elements_strings [simp]: "text_elements (map Doc_string ss) = Some ss"
  by (induction ss) simp_all

lemma decode_config_request:
  assumes "\<And>n. n \<in> {d, mx, mn, ri} \<Longrightarrow> \<bar>n\<bar> < 2 ^ 53"
  shows "configuration_body wording pt (Some (config_request nm dns wl bl d mx mn ri flag)) = Inr
    (zero_config_body\<lparr>cb_name := nm, cb_dns_servers := Some dns, cb_whitelist := Some wl, cb_blacklist := Some bl,
       cb_default_ttl := d, cb_max_ttl := mx, cb_min_ttl := mn, cb_refresh_interval := ri, cb_restrict := flag\<rparr>)"
proof -
  have r: "- (2 ^ 63) \<le> n \<and> n < 2 ^ 63" if "n \<in> {d, mx, mn, ri}" for n
    using assms [OF that] by auto
  show ?thesis
    using r [of d] r [of mx] r [of mn] r [of ri]
    by (simp add: configuration_body_def decode_body_def config_request_def config_setters_def field_of_def)
qed

lemma data_field:
  assumes "ar_data r = Some d"
  shows "field as_object ''data'' (response_fields enc r) = as_object (enc d)"
  using assms by (simp add: response_fields_def)

text \<open>
  C12. A configuration survives the way through the interface: when a client has posted one as JSON and got
  201, a 200 to a GET of the id it was given carries, as JSON, the name, the three lists, the flag
  and the four times it sent, each of them below \<open>2 ^ 53\<close> in absolute value, where a time of 0 comes back as the default.
\<close>

theorem configuration_over_http:
  assumes "\<And>n. n \<in> {d, mx, mn, ri} \<Longrightarrow> \<bar>n\<bar> < 2 ^ 53" "tables_ok (db_tables db)"
    and "create_configuration (configuration_body wording pt (Some (config_request nm dns wl bl d mx mn ri flag))) db ck =
      ((201, resp), db1, ck1)"
    and "ar_data resp = Some (Config_data c)" "parse_uint32 idstr = Some (cf_id c)"
    and "get_configuration idstr db1 = ((200, resp'), db2)"
  shows "\<exists>fs. field as_object ''data'' (response_fields (json_of_config_data tt) resp') = Some fs \<and>
    field as_string ''name'' fs = Some nm \<and>
    field as_list ''allowed_dns_resolvers'' fs = Some (map Json_string dns) \<and>
    field as_list ''whitelisted_domains'' fs = Some (map Json_string wl) \<and>
    field as_list ''blacklisted_domains'' fs = Some (map Json_string bl) \<and>
    field as_number ''default_ttl'' fs = Some (default_int 300 d) \<and>
    field as_number ''max_ttl'' fs = Some (default_int 86400 mx) \<and>
    field as_number ''min_ttl'' fs = Some (default_int 5 mn) \<and>
    field as_number ''refresh_interval'' fs = Some (default_int 300 ri) \<and>
    field as_bool ''restrict_to_allowed_dns'' fs = Some flag"
proof -
  let ?b = "zero_config_body\<lparr>cb_name := nm, cb_dns_servers := Some dns, cb_whitelist := Some wl, cb_blacklist := Some bl,
       cb_default_ttl := d, cb_max_ttl := mx, cb_min_ttl := mn, cb_refresh_interval := ri, cb_restrict := flag\<rparr>"
  have dec: "configuration_body wording pt (Some (config_request nm dns wl bl d mx mn ri flag)) = Inr ?b"
    by (rule decode_config_request) (use assms(1) in auto)
  have create: "config_create (new_configuration ?b) db ck = (None, c, db1, ck1)"
    using assms(3,4) dec
    by (auto simp: create_configuration_def write_error_def write_ok_def new_success_response_def split: result_splits)
  obtain c2 where data: "ar_data resp' = Some (Config_data c2)" and g: "config_get_by_id (cf_id c) db1 = (Inr (Some c2), db2)"
    using assms(5,6)
    by (auto simp: get_configuration_def with_configuration_def write_error_def write_ok_def new_success_response_def
        split: result_splits)
  obtain i t where c: "c = (new_configuration ?b)\<lparr>cf_created := ck 0, cf_updated := ck 1, cf_id := i\<rparr>"
    and t: "db_tables db1 = t" "filter (\<lambda>r. cr_id r = i) (tb_configs t) = [config_row_of c]"
      "config_of_row (config_row_of c) = c"
    using config_created_row [OF create assms(2)] by metis
  obtain row where row: "row \<in> set (tb_configs t)" "cr_id row = cf_id c" "config_of_row row = c2"
    using config_found [OF g] t(1) by blast
  then have "row \<in> set (filter (\<lambda>r. cr_id r = i) (tb_configs t))" by (simp add: c)
  then have c2: "c2 = c" using t row(3) by simp
  have n: "float53 (default_int 300 d) = default_int 300 d" "float53 (default_int 86400 mx) = default_int 86400 mx"
    "float53 (default_int 5 mn) = default_int 5 mn" "float53 (default_int 300 ri) = default_int 300 ri"
    by (rule float53_exact, use assms(1) [of d] assms(1) [of mx] assms(1) [of mn] assms(1) [of ri] in
        \<open>simp add: default_int_def\<close>)+
  show ?thesis
    unfolding data_field [OF data] c2
    by (simp add: c json_of_configuration_def new_configuration_def slice_def strings_def zero_config_body_def n)
qed

section \<open>Hosts\<close>

text \<open>
  The configuration an update leaves assigned: one that exists, or 0, which is stored only where a
  connection does not enforce foreign keys.
\<close>

definition assignable :: "database \<Rightarrow> nat \<Rightarrow> bool" where
  "assignable db c \<longleftrightarrow> c \<in> cr_id ` set (tb_configs (db_tables db)) \<or> c = 0 \<and> (\<exists>n. \<not> cn_foreign_keys (db_conns db n))"

definition later_conns :: "database \<Rightarrow> database \<Rightarrow> bool" where
  "later_conns db db' \<longleftrightarrow> (\<exists>k. db_conns db' = (\<lambda>n. db_conns db (k + n)))"

lemma later_conns_refl: "later_conns db db"
  unfolding later_conns_def by (intro exI [of _ 0]) simp

lemma later_conns_trans:
  assumes "later_conns db db1" "later_conns db1 db2"
  shows "later_conns db db2"
proof -
  obtain k l where "db_conns db1 = (\<lambda>n. db_conns db (k + n))" "db_conns db2 = (\<lambda>n. db_conns db1 (l + n))"
    using assms unfolding later_conns_def by blast
  then have "db_conns db2 = (\<lambda>n. db_conns db ((k + l) + n))" by (simp add: add.assoc)
  then show ?thesis unfolding later_conns_def by blast
qed

lemma query_later: "query_row q db = (r, db') \<Longrightarrow> later_conns db db'"
  unfolding later_conns_def query_row_def Let_def
  by (intro exI [of _ 1]) (auto split: option.splits if_splits)

lemma get_by_id_later: "get_by_id msg i q db = (r, db') \<Longrightarrow> later_conns db db'"
  by (auto simp: get_by_id_def wrap_error_def later_conns_refl dest!: query_later split: if_splits prod.splits sum.splits)

lemma with_host_later: "with_host idstr db = (r, db') \<Longrightarrow> later_conns db db'"
  by (auto simp: with_host_def with_row_def host_get_by_id_def later_conns_refl dest!: get_by_id_later
      split: option.splits prod.splits sum.splits)

lemma check_config_later: "check_config c db = (r, db') \<Longrightarrow> later_conns db db'"
  by (auto simp: check_config_def config_get_by_id_def later_conns_refl dest!: get_by_id_later
      split: option.splits prod.splits sum.splits if_splits)

lemma check_config_passes:
  assumes "check_config (Some c) db = (None, db')" "c \<noteq> 0"
  shows "c \<in> cr_id ` set (tb_configs (db_tables db))"
proof -
  obtain x where "config_get_by_id c db = (Inr (Some x), db')"
    using assms by (auto simp: check_config_def split: option.splits prod.splits sum.splits if_splits)
  then show ?thesis using config_found by blast
qed

text \<open>An update that changed the database has written a host that is still assigned if it was.\<close>

definition still_assigned :: "string \<Rightarrow> database \<Rightarrow> clock \<Rightarrow> database \<Rightarrow> bool" where
  "still_assigned idstr db ck db' \<longleftrightarrow>
     (\<exists>i h db1 h2 h3 db2 db3 ck'. with_host idstr db = (Inr (i, h), db1) \<and> db_tables db2 = db_tables db \<and>
        later_conns db db2 \<and> ho_id h2 = i \<and>
        (ho_config h2 = ho_config h \<or>
          (\<exists>c. ho_config h2 = Some c \<and> (c = 0 \<or> c \<in> cr_id ` set (tb_configs (db_tables db))))) \<and>
        host_update h2 db2 ck = (None, h3, db3, ck') \<and> db_tables db' = db_tables db3)"

lemma update_host_wrote:
  assumes "update_host_handler idstr body db ck = (r, evs, db', ck')" "db_tables db' \<noteq> db_tables db"
  shows "still_assigned idstr db ck db'"
proof -
  obtain x db1 where w: "with_host idstr db = (x, db1)" by (rule prod.exhaust)
  have same: "db_tables db1 = db_tables db" using with_host_tables [OF w] .
  obtain i h where x: "x = Inr (i, h)"
    using assms w same by (cases x) (auto simp: update_host_handler_def)
  obtain rq where rq: "body = Inr rq"
    using assms w x same by (cases body) (auto simp: update_host_handler_def)
  obtain rc :: "host_data http_result option" and db2 where c: "check_config (uq_config rq) db1 = (rc, db2)"
    by (rule prod.exhaust)
  have same2: "db_tables db2 = db_tables db1" using check_config_tables [OF c] .
  define h2 where "h2 = (case uq_config rq of Some n \<Rightarrow> (apply_update rq h)\<lparr>ho_config := Some n\<rparr> | None \<Rightarrow> apply_update rq h)"
  obtain e h3 db3 ck3 where u: "host_update h2 db2 ck = (e, h3, db3, ck3)" by (rule prod_cases4)
  obtain evs4 db4 where n: "notify_host i h3 db3 = (evs4, db4)" by (rule prod.exhaust)
  have fin: "e = None \<and> db' = db4 \<and> rc = None"
    using assms w x rq c u n same same2
    by (auto simp: update_host_handler_def h2_def [symmetric] dest: write_failed split: if_splits option.splits)
  have later: "later_conns db db2"
    using later_conns_trans [OF with_host_later [OF w] check_config_later [OF c]] .
  have "ho_id h2 = i"
    using with_host_found [OF w [unfolded x]] by (auto simp: h2_def apply_update_def split: option.splits)
  moreover have "ho_config h2 = ho_config h \<or>
      (\<exists>c. ho_config h2 = Some c \<and> (c = 0 \<or> c \<in> cr_id ` set (tb_configs (db_tables db))))"
  proof (cases "uq_config rq")
    case None
    then show ?thesis by (simp add: h2_def apply_update_def)
  next
    case (Some k)
    then have "k = 0 \<or> k \<in> cr_id ` set (tb_configs (db_tables db))"
      using check_config_passes [of k db1 db2] c fin same by auto
    then show ?thesis using Some by (simp add: h2_def)
  qed
  ultimately show ?thesis
    unfolding still_assigned_def using fin w x u same same2 notify_tables [OF n] later by metis
qed

text \<open>
  C26. No update through the interface takes a host's configuration away: where every reference is
  valid, whatever JSON the body of
  a \<open>PUT\<close> to any host is, a host that had a configuration before has one after, under the same id and
  name, and it is one that exists; or it is 0, which no configuration has, and then some connection does not enforce
  foreign keys. \<open>null\<close> as \<open>config_id\<close> counts as left out, and 0 is refused by a database that enforces them, so an
  operator can undo a direct assignment only by a dangling one.
\<close>

theorem host_update_never_unassigns:
  assumes "tables_ok (db_tables db)" "refs_ok (db_tables db)" "h \<in> set (tb_hosts (db_tables db))" "ho_config h \<noteq> None"
    and "update_host_handler idstr (host_update_body wording doc) db ck = (r, evs, db', ck')"
  shows "\<exists>h' \<in> set (tb_hosts (db_tables db')). ho_id h' = ho_id h \<and> ho_hostname h' = ho_hostname h \<and>
    (\<exists>c. ho_config h' = Some c \<and>
       (c \<in> cr_id ` set (tb_configs (db_tables db')) \<or> c = 0 \<and> (\<exists>n. \<not> cn_foreign_keys (db_conns db n))))"
proof (cases "db_tables db' = db_tables db")
  case True
  then show ?thesis using assms(2-4) by (auto simp: refs_ok_def ref_ok_iff intro!: bexI [of _ h])
next
  case False
  then obtain i old db1 h2 h3 db2 db3 ck3 where w: "with_host idstr db = (Inr (i, old), db1)"
    and u: "host_update h2 db2 ck = (None, h3, db3, ck3)" and same: "db_tables db2 = db_tables db"
    "db_tables db' = db_tables db3" and later: "later_conns db db2" and h2: "ho_id h2 = i"
    "ho_config h2 = ho_config old \<or>
       (\<exists>c. ho_config h2 = Some c \<and> (c = 0 \<or> c \<in> cr_id ` set (tb_configs (db_tables db))))"
    using update_host_wrote [OF assms(5)] unfolding still_assigned_def by blast
  have old: "old \<in> set (tb_hosts (db_tables db))" "ho_id old = i" using with_host_found [OF w] by auto
  have unique: "h = old" if "ho_id h = i"
    using that assms(1,3) old inj_onD [of ho_id "set (tb_hosts (db_tables db))" h old]
    by (simp add: tables_ok_def keyed_def distinct_map)
  obtain t where st: "sql_update_host (h2\<lparr>ho_last_seen := ck 0\<rparr>) (cn_foreign_keys (db_conns db2 0)) (db_tables db) = Inr ((), t)"
    and t: "db_tables db3 = t"
    using u same(1) by (metis host_update_ok)
  then have rows: "t = (db_tables db)\<lparr>tb_hosts :=
      map (\<lambda>x. if ho_id x = i then set_host_columns (h2\<lparr>ho_last_seen := ck 0\<rparr>) x else x) (tb_hosts (db_tables db))\<rparr>"
    and fk: "ref_ok (cn_foreign_keys (db_conns db2 0)) (db_tables db) (ho_config h2)"
    using h2(1) imageI [OF old(1), of ho_id] old(2) by (auto simp: sql_update_host_def split: if_splits)
  have given: "\<exists>c. ho_config h = Some c \<and> assignable db c"
    using assms(2-4) by (auto simp: refs_ok_def ref_ok_iff assignable_def)
  have written: "\<exists>c. ho_config h2 = Some c \<and> assignable db c" if "ho_id h = i"
    using h2(2)
  proof
    assume "ho_config h2 = ho_config old"
    then show ?thesis using given unique [OF that] by simp
  next
    assume "\<exists>c. ho_config h2 = Some c \<and> (c = 0 \<or> c \<in> cr_id ` set (tb_configs (db_tables db)))"
    then obtain c where c: "ho_config h2 = Some c" "c = 0 \<or> c \<in> cr_id ` set (tb_configs (db_tables db))" by blast
    obtain k where "db_conns db2 0 = db_conns db k" using later by (auto simp: later_conns_def)
    with c fk show ?thesis by (auto simp: assignable_def ref_ok_iff)
  qed
  let ?h = "if ho_id h = i then set_host_columns (h2\<lparr>ho_last_seen := ck 0\<rparr>) h else h"
  have "?h \<in> set (tb_hosts (db_tables db'))" using assms(3) rows same(2) t by auto
  moreover have "ho_id ?h = ho_id h" "ho_hostname ?h = ho_hostname h" by (simp_all add: set_host_columns_def)
  moreover have "\<exists>c. ho_config ?h = Some c \<and> assignable db c"
    using given written by (auto simp: set_host_columns_def)
  moreover have "tb_configs (db_tables db') = tb_configs (db_tables db)" using rows same(2) t by simp
  ultimately show ?thesis by (intro bexI [of _ ?h] conjI) (auto simp: assignable_def)
qed

section \<open>Witnesses\<close>

definition demo_assigned :: host where
  "demo_assigned = demo_host\<lparr>ho_config := Some 1\<rparr>"

definition demo_assigned_db :: database where
  "demo_assigned_db = demo_db\<lparr>db_tables := demo_tables\<lparr>tb_hosts := [demo_assigned]\<rparr>\<rparr>"

lemma demo_assigned_ok: "tables_ok (db_tables demo_assigned_db)"
  using demo_tables_ok
  by (simp add: demo_assigned_db_def demo_assigned_def demo_db_def demo_tables_def tables_ok_def keyed_def demo_host_def)

text \<open>The host is written and keeps its configuration.\<close>

lemma demo_assigned_refs: "refs_ok (db_tables demo_assigned_db)"
  using demo_refs_ok
  by (simp add: demo_assigned_db_def demo_assigned_def demo_db_def demo_tables_def refs_ok_def ref_ok_iff demo_row_id
      demo_config_def)

lemma host_update_never_unassigns_witness:
  "\<exists>h' \<in> set (tb_hosts (db_tables (fst (snd (snd (update_host_handler ''1''
      (host_update_body [] (Some (Doc_object [(''config_id'', Doc_null)]))) demo_assigned_db (\<lambda>_. 9))))))).
    ho_id h' = ho_id demo_assigned \<and> ho_hostname h' = ho_hostname demo_assigned \<and> ho_config h' \<noteq> None"
proof -
  have "demo_assigned \<in> set (tb_hosts (db_tables demo_assigned_db))" "ho_config demo_assigned \<noteq> None"
    by (simp_all add: demo_assigned_db_def demo_assigned_def)
  from host_update_never_unassigns [OF demo_assigned_ok demo_assigned_refs this, of "''1''" "[]"]
  show ?thesis by (metis option.distinct(1) prod.collapse)
qed

lemma demo_config_round_trip:
  "\<exists>resp db1 ck1 c resp' db2.
     create_configuration (configuration_body [] (\<lambda>_. None)
       (Some (config_request ''strict'' [''9.9.9.9''] [''a.b''] [] 0 600 0 0 True))) fresh_db (\<lambda>_. 7) = ((201, resp), db1, ck1) \<and>
     ar_data resp = Some (Config_data c) \<and> cf_id c = 1 \<and> get_configuration ''1'' db1 = ((200, resp'), db2)"
proof -
  have d: "configuration_body [] (\<lambda>_. None) (Some (config_request ''strict'' [''9.9.9.9''] [''a.b''] [] 0 600 0 0 True)) =
    Inr (zero_config_body\<lparr>cb_name := ''strict'', cb_dns_servers := Some [''9.9.9.9''], cb_whitelist := Some [''a.b''],
      cb_blacklist := Some [], cb_default_ttl := 0, cb_max_ttl := 600, cb_min_ttl := 0, cb_refresh_interval := 0,
      cb_restrict := True\<rparr>)"
    by (rule decode_config_request) auto
  show ?thesis
    by (simp add: d zero_config_body_def create_configuration_def new_configuration_def
      config_create_def exec_stmt_def sql_insert_config_def wrap_error_def fresh_db_def good_conn_def initialize_def
      max_rowid_def write_ok_def new_success_response_def now_def Let_def get_configuration_def with_configuration_def
      parse_uint32_def is_dec_digit_def digits_value_def config_get_by_id_def get_by_id_def query_row_def arg_ok_def config_row_of_def
      strings_def slice_def)
qed

lemma configuration_over_http_witness:
  "\<exists>resp fs. field as_object ''data'' (response_fields (json_of_config_data (\<lambda>_. [])) resp) = Some fs \<and>
    field as_number ''max_ttl'' fs = Some 600 \<and> field as_number ''min_ttl'' fs = Some 5 \<and>
    field as_list ''whitelisted_domains'' fs = Some [Json_string ''a.b'']"
proof -
  obtain resp db1 ck1 c resp' db2 where d:
    "create_configuration (configuration_body [] (\<lambda>_. None)
       (Some (config_request ''strict'' [''9.9.9.9''] [''a.b''] [] 0 600 0 0 True))) fresh_db (\<lambda>_. 7) = ((201, resp), db1, ck1)"
    "ar_data resp = Some (Config_data c)" "cf_id c = 1" "get_configuration ''1'' db1 = ((200, resp'), db2)"
    using demo_config_round_trip by blast
  have "parse_uint32 ''1'' = Some (cf_id c)"
    by (simp add: d(3) parse_uint32_def is_dec_digit_def digits_value_def)
  from configuration_over_http [OF _ _ d(1,2) this d(4), where tt = "\<lambda>_. []"] show ?thesis
    by (fastforce simp: fresh_db_def fresh_tables default_int_def)
qed

end
