(* ===== verification/Ws_Hub_Facts.thy ===== *)
theory Ws_Hub_Facts
  imports Ws_Hub
begin

text \<open>
  The hub as a state machine of its goroutines: the loop, a reader and a writer for each connection,
  and the senders of other handlers. What its maps mean while every client announces only the host it
  was authenticated for, the order in which messages are written and which are lost, how readers and
  writers end, and what breaks the maps and the channels.
\<close>

section \<open>The state machine\<close>

text \<open>
  Where each goroutine is. \<open>Registering\<close> and \<open>Unregistering\<close> are \<open>Run\<close> between the receive and the lock,
  \<open>Broadcasting m rs\<close> is its loop with the clients that are still to come, for which it holds the read
  lock. A reader is \<open>Entering\<close> between setting its client's host id and the lock of \<open>register_host\<close>,
  \<open>Leaving\<close> when its loop has ended, and \<open>Gone\<close> when the hub has received its client on
  \<open>Unregister\<close>. A writer in \<open>Writing k ms\<close> has an open frame with the messages \<open>ms\<close> and \<open>k\<close> more to receive,
  where \<open>None\<close> says that it has not asked for the length of the channel yet.
\<close>

datatype loop_state = Idle | Registering nat | Unregistering nat | Broadcasting hub_message "nat list"

datatype reader_state = Listening | Entering | Leaving | Gone

datatype writer_state = Waiting | Writing "nat option" "hub_message list" | Ended

text \<open>
  \<open>hs_sends\<close> are the calls of \<open>SendToHost\<close> that have looked up a client and not sent yet, with the host
  they are for; \<open>hs_shut\<close> are the connections closed by \<open>Conn.Close\<close>. \<open>hs_who\<close> is the identity each
  connection was authenticated with, \<open>hs_accepted\<close> the messages put into its channel, \<open>hs_frames\<close> the
  frames written to it and \<open>hs_lost\<close> the messages its writer had taken when a write failed. No step
  reads these four, but for the messages \<open>allow\<close> lets a client send.
\<close>

record hub_system =
  hs_hub :: hub
  hs_loop :: loop_state
  hs_reader :: "nat \<Rightarrow> reader_state"
  hs_writer :: "nat \<Rightarrow> writer_state"
  hs_sends :: "(nat \<times> nat \<times> hub_message) list"
  hs_shut :: "nat set"
  hs_who :: "nat \<rightharpoonup> ws_identity"
  hs_accepted :: "nat \<Rightarrow> hub_message list"
  hs_frames :: "nat \<Rightarrow> hub_message list list"
  hs_lost :: "nat \<Rightarrow> hub_message list"

definition hub_start :: hub_system where
  "hub_start = \<lparr>hs_hub = new_hub, hs_loop = Idle, hs_reader = (\<lambda>_. Listening), hs_writer = (\<lambda>_. Waiting), hs_sends = [],
     hs_shut = {}, hs_who = Map.empty, hs_accepted = (\<lambda>_. []), hs_frames = (\<lambda>_. []), hs_lost = (\<lambda>_. [])\<rparr>"

definition accept :: "nat set \<Rightarrow> hub_message \<Rightarrow> hub_system \<Rightarrow> hub_system" where
  "accept rs m s = s\<lparr>hs_accepted := (\<lambda>r. if r \<in> rs then hs_accepted s r @ [m] else hs_accepted s r)\<rparr>"

definition set_reader :: "nat \<Rightarrow> reader_state \<Rightarrow> hub_system \<Rightarrow> hub_system" where
  "set_reader r x s = s\<lparr>hs_reader := (hs_reader s)(r := x)\<rparr>"

definition set_writer :: "nat \<Rightarrow> writer_state \<Rightarrow> ws_client \<Rightarrow> hub_system \<Rightarrow> hub_system" where
  "set_writer r x c s = s\<lparr>hs_writer := (hs_writer s)(r := x), hs_hub := set_client r c (hs_hub s)\<rparr>"

text \<open>The end of \<open>writePump\<close>, with the messages it had taken; the deferred function closes the connection.\<close>

definition end_writer :: "nat \<Rightarrow> hub_message list \<Rightarrow> ws_client \<Rightarrow> hub_system \<Rightarrow> hub_system" where
  "end_writer r ms c s =
     (set_writer r Ended c s)\<lparr>hs_lost := (hs_lost s)(r := ms), hs_shut := insert r (hs_shut s)\<rparr>"

text \<open>
  The steps. A send that panics is no step: it ends the program. A write succeeds only on a
  connection that is not closed, and may always fail. \<open>register_host\<close> takes the lock and so waits for
  the end of a broadcast.
\<close>

inductive hub_step :: "(hub_system \<Rightarrow> nat \<Rightarrow> client_message \<Rightarrow> bool) \<Rightarrow> hub_system \<Rightarrow> hub_system \<Rightarrow> bool" for allow where
  connect: "hs_loop s = Idle \<Longrightarrow> hb_store (hs_hub s) r = None \<Longrightarrow>
    hub_step allow s (s\<lparr>hs_hub := set_client r (new_client i) (hs_hub s), hs_who := (hs_who s)(r \<mapsto> i),
      hs_loop := Registering r\<rparr>)"
| register: "hs_loop s = Registering r \<Longrightarrow> hb_store (hs_hub s) r = Some c \<Longrightarrow>
    hub_step allow s (s\<lparr>hs_hub := hub_register r c (hs_hub s), hs_loop := Idle\<rparr>)"
| receive_unregister: "hs_loop s = Idle \<Longrightarrow> hs_reader s r = Leaving \<Longrightarrow>
    hub_step allow s ((set_reader r Gone s)\<lparr>hs_loop := Unregistering r\<rparr>)"
| unregister: "hs_loop s = Unregistering r \<Longrightarrow> hub_unregister r (hs_hub s) = Some h \<Longrightarrow>
    hub_step allow s (s\<lparr>hs_hub := h, hs_loop := Idle\<rparr>)"
| broadcast_start: "hs_loop s = Idle \<Longrightarrow> hb_broadcast (hs_hub s) = m # ms \<Longrightarrow> distinct order \<Longrightarrow>
    set order = hb_clients (hs_hub s) \<Longrightarrow>
    hub_step allow s (s\<lparr>hs_hub := (hs_hub s)\<lparr>hb_broadcast := ms\<rparr>, hs_loop := Broadcasting m order\<rparr>)"
| broadcast_next: "hs_loop s = Broadcasting m (r # rs) \<Longrightarrow> broadcast_one m r (hs_hub s) = Some h \<Longrightarrow>
    hub_step allow s (accept ({r} \<inter> hb_clients h) m s\<lparr>hs_hub := h, hs_loop := Broadcasting m rs\<rparr>)"
| broadcast_end: "hs_loop s = Broadcasting m [] \<Longrightarrow> hub_step allow s (s\<lparr>hs_loop := Idle\<rparr>)"
| look_up: "hb_hosts (hs_hub s) i = Some r \<Longrightarrow> hub_step allow s (s\<lparr>hs_sends := (i, r, m) # hs_sends s\<rparr>)"
| delivered: "(i, r, m) \<in> set (hs_sends s) \<Longrightarrow> deliver r m (hs_hub s) = Some (True, h) \<Longrightarrow>
    hub_step allow s (accept {r} m s\<lparr>hs_hub := h, hs_sends := remove1 (i, r, m) (hs_sends s)\<rparr>)"
| refused: "(i, r, m) \<in> set (hs_sends s) \<Longrightarrow> deliver r m (hs_hub s) = Some (False, h) \<Longrightarrow>
    hub_step allow s (s\<lparr>hs_hub := h, hs_sends := remove1 (i, r, m) (hs_sends s)\<rparr>)"
| ping: "hs_reader s r = Listening \<Longrightarrow> read_message r Ping_message (hs_hub s) = Continue h \<Longrightarrow>
    hub_step allow s (accept {r} Pong s\<lparr>hs_hub := h\<rparr>)"
| announced: "hs_reader s r = Listening \<Longrightarrow> hb_store (hs_hub s) r = Some c \<Longrightarrow>
    allow s r (Register_host_message nm (Some n)) \<Longrightarrow>
    hub_step allow s (set_reader r Entering s\<lparr>hs_hub := announce r nm (Some n) c (hs_hub s)\<rparr>)"
| entered: "hs_reader s r = Entering \<Longrightarrow> (\<forall>m rs. hs_loop s \<noteq> Broadcasting m rs) \<Longrightarrow>
    enter_host r (hs_hub s) = Some h \<Longrightarrow> hub_step allow s (set_reader r Listening s\<lparr>hs_hub := h\<rparr>)"
| read: "hs_reader s r = Listening \<Longrightarrow> msg \<noteq> Ping_message \<Longrightarrow> (\<forall>nm n. msg \<noteq> Register_host_message nm (Some n)) \<Longrightarrow>
    read_message r msg (hs_hub s) = Continue h \<Longrightarrow> allow s r msg \<Longrightarrow> hub_step allow s (s\<lparr>hs_hub := h\<rparr>)"
| leave: "hs_reader s r = Listening \<Longrightarrow> hb_store (hs_hub s) r \<noteq> None \<Longrightarrow> hub_step allow s (set_reader r Leaving s)"
| hang_up: "hs_reader s r = Gone \<Longrightarrow> hub_step allow s (s\<lparr>hs_shut := insert r (hs_shut s)\<rparr>)"
| take: "hs_writer s r = Waiting \<Longrightarrow> hb_store (hs_hub s) r = Some c \<Longrightarrow> r \<notin> hs_shut s \<Longrightarrow>
    take_message c = Some (m, c') \<Longrightarrow> hub_step allow s (set_writer r (Writing None [m]) c' s)"
| take_fails: "hs_writer s r = Waiting \<Longrightarrow> hb_store (hs_hub s) r = Some c \<Longrightarrow>
    take_message c = Some (m, c') \<Longrightarrow> hub_step allow s (end_writer r [m] c' s)"
| count: "hs_writer s r = Writing None ms \<Longrightarrow> hb_store (hs_hub s) r = Some c \<Longrightarrow>
    hub_step allow s (set_writer r (Writing (Some (length (wc_send c))) ms) c s)"
| receive: "hs_writer s r = Writing (Some (Suc n)) ms \<Longrightarrow> hb_store (hs_hub s) r = Some c \<Longrightarrow>
    take_message c = Some (m, c') \<Longrightarrow> hub_step allow s (set_writer r (Writing (Some n) (ms @ [m])) c' s)"
| flush: "hs_writer s r = Writing (Some 0) ms \<Longrightarrow> hb_store (hs_hub s) r = Some c \<Longrightarrow> r \<notin> hs_shut s \<Longrightarrow>
    hub_step allow s (set_writer r Waiting c s\<lparr>hs_frames := (hs_frames s)(r := hs_frames s r @ [ms])\<rparr>)"
| flush_fails: "hs_writer s r = Writing (Some 0) ms \<Longrightarrow> hb_store (hs_hub s) r = Some c \<Longrightarrow>
    hub_step allow s (end_writer r ms c s)"
| close_frame: "hs_writer s r = Waiting \<Longrightarrow> hb_store (hs_hub s) r = Some c \<Longrightarrow> wc_closed c \<Longrightarrow> wc_send c = [] \<Longrightarrow>
    hub_step allow s (end_writer r [] c s)"
| ping_fails: "hs_writer s r = Waiting \<Longrightarrow> hb_store (hs_hub s) r = Some c \<Longrightarrow> hub_step allow s (end_writer r [] c s)"

text \<open>A client that announces no other host than the one it was authenticated for.\<close>

definition announces_itself :: "hub_system \<Rightarrow> nat \<Rightarrow> client_message \<Rightarrow> bool" where
  "announces_itself s r msg =
     (case msg of
        Register_host_message nm (Some n) \<Rightarrow>
          (case hs_who s r of None \<Rightarrow> False | Some i \<Rightarrow> 0 < n \<and> n = wi_host_id i)
      | _ \<Rightarrow> True)"

section \<open>Channels\<close>

fun unflushed :: "writer_state \<Rightarrow> hub_message list" where
  "unflushed (Writing k ms) = ms"
| "unflushed _ = []"

text \<open>
  In any run a channel is bounded; what was accepted is what was written, what the writer has taken,
  lost or not yet flushed, and what waits; and a channel is closed when the hub has registered its client
  and let go of it again.
\<close>

definition channel_ok :: "hub_system \<Rightarrow> nat \<Rightarrow> ws_client \<Rightarrow> bool" where
  "channel_ok s r c \<longleftrightarrow>
     hs_accepted s r = concat (hs_frames s r) @ unflushed (hs_writer s r) @ hs_lost s r @ wc_send c \<and>
     length (wc_send c) \<le> channel_size \<and>
     (hs_writer s r \<noteq> Ended \<longrightarrow> hs_lost s r = []) \<and>
     (wc_closed c \<longleftrightarrow> r \<notin> hb_clients (hs_hub s) \<and> hs_loop s \<noteq> Registering r)"

definition channels_inv :: "hub_system \<Rightarrow> bool" where
  "channels_inv s \<longleftrightarrow>
     (\<forall>r. hb_store (hs_hub s) r = None \<longrightarrow> hs_accepted s r = [] \<and> hs_frames s r = [] \<and> hs_lost s r = [] \<and>
        hs_writer s r = Waiting \<and> hs_reader s r = Listening \<and> r \<notin> hb_clients (hs_hub s)) \<and>
     (\<forall>r c. hb_store (hs_hub s) r = Some c \<longrightarrow> channel_ok s r c) \<and>
     (\<forall>i r. hb_hosts (hs_hub s) i = Some r \<longrightarrow> hb_store (hs_hub s) r \<noteq> None) \<and>
     (\<forall>i r m. (i, r, m) \<in> set (hs_sends s) \<longrightarrow> hb_store (hs_hub s) r \<noteq> None)"

definition loop_inv :: "hub_system \<Rightarrow> bool" where
  "loop_inv s \<longleftrightarrow>
     (case hs_loop s of
        Idle \<Rightarrow> True
      | Registering r \<Rightarrow> hb_store (hs_hub s) r \<noteq> None \<and> r \<notin> hb_clients (hs_hub s) \<and> hs_reader s r \<noteq> Gone
      | Unregistering r \<Rightarrow> hb_store (hs_hub s) r \<noteq> None \<and> hs_reader s r = Gone
      | Broadcasting m rs \<Rightarrow> distinct rs \<and> set rs \<subseteq> hb_clients (hs_hub s))"

named_theorems hub_defs "the small operations on the hub's records"

declare set_client_def [hub_defs] drop_host_def [hub_defs] close_client_def [hub_defs]
  hub_connect_def [hub_defs] hub_register_def [hub_defs] new_client_def [hub_defs]
  ws_identity.defs [hub_defs] accept_def [hub_defs] set_reader_def [hub_defs] set_writer_def [hub_defs]
  end_writer_def [hub_defs]

lemma try_send_cases:
  "try_send m c = Sent c' \<Longrightarrow> \<not> wc_closed c \<and> length (wc_send c) < channel_size \<and> c' = c\<lparr>wc_send := wc_send c @ [m]\<rparr>"
  "try_send m c = Would_block \<Longrightarrow> \<not> wc_closed c \<and> channel_size \<le> length (wc_send c)"
  "try_send m c = Send_panics \<Longrightarrow> wc_closed c"
  by (auto simp: try_send_def split: if_splits)

text \<open>One client of a broadcast changes only its own entry of the store.\<close>

lemma broadcast_one_cases:
  assumes "broadcast_one m r h = Some h'"
  obtains c where "hb_store h r = Some c" "\<not> wc_closed c" "length (wc_send c) < channel_size"
      "h' = set_client r (c\<lparr>wc_send := wc_send c @ [m]\<rparr>) h"
  | c where "hb_store h r = Some c" "\<not> wc_closed c" "h' = drop_host c (close_client r c h)"
  using assms by (auto simp: broadcast_one_def split: option.splits send_outcome.splits dest: try_send_cases)

lemma deliver_sent:
  assumes "deliver r m h = Some (True, h')"
  obtains c where "hb_store h r = Some c" "\<not> wc_closed c"
    "length (wc_send c) < channel_size" "h' = set_client r (c\<lparr>wc_send := wc_send c @ [m]\<rparr>) h"
  using assms by (auto simp: deliver_def split: option.splits send_outcome.splits dest: try_send_cases)

lemma deliver_refused: "deliver r m h = Some (False, h') \<Longrightarrow> h' = h"
  by (auto simp: deliver_def split: option.splits send_outcome.splits)

lemma read_ping:
  assumes "read_message r Ping_message h = Continue h'"
  obtains c where "hb_store h r = Some c" "\<not> wc_closed c"
    "length (wc_send c) < channel_size" "h' = set_client r (c\<lparr>wc_send := wc_send c @ [Pong]\<rparr>) h"
  using assms by (auto simp: read_message_def split: option.splits send_outcome.splits dest: try_send_cases)

text \<open>A message that is no ping and announces no host id keeps all but a host name and the broadcasts.\<close>

lemma read_other:
  assumes "read_message r msg h = Continue h'" "msg \<noteq> Ping_message" "\<forall>nm n. msg \<noteq> Register_host_message nm (Some n)"
  obtains c nm b where "hb_store h r = Some c" "h' = (set_client r (c\<lparr>wi_hostname := nm\<rparr>) h)\<lparr>hb_broadcast := b\<rparr>"
proof -
  obtain c where c: "hb_store h r = Some c" using assms(1) by (auto simp: read_message_def split: option.splits)
  have upd: "h' = (set_client r (c\<lparr>wi_hostname := wi_hostname c\<rparr>) h)\<lparr>hb_broadcast := hb_broadcast h'\<rparr>"
    if "h' = h\<lparr>hb_broadcast := hb_broadcast h'\<rparr>"
    using that c by (cases h; cases h'; cases c; simp add: hub_defs fun_upd_idem)
  show ?thesis
  proof (cases msg)
    case (Register_host_message nm i)
    then have "i = None" using assms(3) by (cases i) auto
    with assms(1) c Register_host_message
    have "h' = (set_client r (c\<lparr>wi_hostname := (case nm of Some x \<Rightarrow> x | None \<Rightarrow> wi_hostname c)\<rparr>) h)\<lparr>hb_broadcast := hb_broadcast h\<rparr>"
      by (cases nm) (auto simp: read_message_def announce_def hub_defs)
    with c show ?thesis by (rule that)
  next
    case (Status_update_message st)
    with assms(1) c have "h' = h\<lparr>hb_broadcast := hb_broadcast h'\<rparr>"
      by (auto simp: read_message_def broadcast_host_status_def send_to_all_def split: option.splits if_splits)
    with upd c show ?thesis by (metis that)
  next
    case Other_message
    with assms(1) c have "h' = h\<lparr>hb_broadcast := hb_broadcast h'\<rparr>" by (simp add: read_message_def)
    with upd c show ?thesis by (metis that)
  qed (use assms(2) in simp)
qed

lemma announce_id: "announce r nm (Some n) c h = set_client r (c\<lparr>wi_hostname := (case nm of Some x \<Rightarrow> x | None \<Rightarrow> wi_hostname c), wi_host_id := n\<rparr>) h"
  by (cases nm) (simp_all add: announce_def)

lemma enter_host_cases:
  assumes "enter_host r h = Some h'"
  obtains c where "hb_store h r = Some c" "h' = h\<lparr>hb_hosts := (hb_hosts h)(wi_host_id c \<mapsto> r)\<rparr>"
  using assms by (auto simp: enter_host_def split: option.splits)

lemma take_message_cases:
  assumes "take_message c = Some (m, c')"
  obtains ms where "wc_send c = m # ms" "c' = c\<lparr>wc_send := ms\<rparr>"
  using assms by (auto simp: take_message_def split: list.splits)

lemma hub_unregister_cases:
  assumes "hub_unregister r h = Some h'"
  obtains c where "hb_store h r = Some c" "r \<in> hb_clients h" "\<not> wc_closed c" "h' = drop_host c (close_client r c h)"
  | c where "hb_store h r = Some c" "r \<notin> hb_clients h" "h' = drop_host c h"
  using assms by (auto simp: hub_unregister_def split: option.splits if_splits)

lemma inv_start: "channels_inv hub_start" "loop_inv hub_start"
  by (simp_all add: channels_inv_def loop_inv_def hub_start_def new_hub_def)

lemma loop_inv_step:
  assumes "hub_step allow s s'" "loop_inv s" "channels_inv s"
  shows "loop_inv s'"
  using assms(1)
proof cases
  case (unregister r h)
  show ?thesis
    by (rule hub_unregister_cases [OF unregister(3)]; use unregister(1) in \<open>auto simp: loop_inv_def\<close>)
next
  case (broadcast_next m r rs h)
  show ?thesis
    by (rule broadcast_one_cases [OF broadcast_next(3)]; use assms(2) broadcast_next(1,2) in \<open>auto simp: loop_inv_def hub_defs\<close>)
next
  case (delivered i r m h)
  show ?thesis
    by (rule deliver_sent [OF delivered(3)])
      (use assms(2) delivered(1) in \<open>auto simp: loop_inv_def hub_defs split: loop_state.splits\<close>)
next
  case (refused i r m h)
  then show ?thesis using assms(2) deliver_refused [OF refused(3)] by (auto simp: loop_inv_def split: loop_state.splits)
next
  case (ping r h)
  show ?thesis
    by (rule read_ping [OF ping(3)]) (use assms(2) ping(1) in \<open>auto simp: loop_inv_def hub_defs split: loop_state.splits\<close>)
next
  case (entered r h)
  show ?thesis
    by (rule enter_host_cases [OF entered(4)])
      (use assms(2) entered(1,2) in \<open>auto simp: loop_inv_def hub_defs split: loop_state.splits\<close>)
next
  case (read r msg h)
  show ?thesis
    by (rule read_other [OF read(5,3,4)]) (use assms(2) read(1) in \<open>auto simp: loop_inv_def hub_defs split: loop_state.splits\<close>)
qed (use assms(2,3) in \<open>auto simp: loop_inv_def channels_inv_def hub_defs announce_id Let_def split: loop_state.splits if_splits\<close>)

lemma channels_inv_step:
  assumes "hub_step allow s s'" "channels_inv s" "loop_inv s"
  shows "channels_inv s'"
  using assms(1)
proof cases
  case (unregister r h)
  show ?thesis
    by (rule hub_unregister_cases [OF unregister(3)];
      use assms(2,3) unregister(1,2) in \<open>auto simp: channels_inv_def loop_inv_def channel_ok_def hub_defs\<close>)
next
  case (broadcast_next m r rs h)
  show ?thesis
    by (rule broadcast_one_cases [OF broadcast_next(3)];
      use assms(2,3) broadcast_next(1,2) in \<open>auto simp: channels_inv_def loop_inv_def channel_ok_def hub_defs\<close>)
next
  case (delivered i r m h)
  show ?thesis
    by (rule deliver_sent [OF delivered(3)])
      (use assms(2) delivered(1) in \<open>auto simp: channels_inv_def channel_ok_def hub_defs dest: notin_set_remove1\<close>)
next
  case (refused i r m h)
  then show ?thesis
    using assms(2) deliver_refused [OF refused(3)] by (auto simp: channels_inv_def channel_ok_def) (meson notin_set_remove1)
next
  case (ping r h)
  show ?thesis
    by (rule read_ping [OF ping(3)]) (use assms(2) ping(1) in \<open>auto simp: channels_inv_def channel_ok_def hub_defs\<close>)
next
  case (entered r h)
  show ?thesis
    by (rule enter_host_cases [OF entered(4)])
      (use assms(2) entered(1,2) in \<open>auto simp: channels_inv_def channel_ok_def hub_defs\<close>)
next
  case (read r msg h)
  show ?thesis
    by (rule read_other [OF read(5,3,4)]) (use assms(2) read(1) in \<open>auto simp: channels_inv_def channel_ok_def hub_defs\<close>)
next
  case (take r c m c')
  show ?thesis
    by (rule take_message_cases [OF take(5)])
      (use assms(2) take(1-4) in \<open>fastforce simp: channels_inv_def channel_ok_def hub_defs\<close>)
next
  case (take_fails r c m c')
  show ?thesis
    by (rule take_message_cases [OF take_fails(4)])
      (use assms(2) take_fails(1-3) in \<open>fastforce simp: channels_inv_def channel_ok_def hub_defs\<close>)
next
  case (receive r n ms c m c')
  show ?thesis
    by (rule take_message_cases [OF receive(4)])
      (use assms(2) receive(1-3) in \<open>fastforce simp: channels_inv_def channel_ok_def hub_defs\<close>)
next
  case (register r c)
  then show ?thesis using assms(2) by (fastforce simp: channels_inv_def channel_ok_def hub_defs Let_def)
next
  case (broadcast_start m ms order)
  then show ?thesis using assms(2) by (fastforce simp: channels_inv_def channel_ok_def)
next
  case (look_up i r m)
  then show ?thesis using assms(2) by (fastforce simp: channels_inv_def channel_ok_def)
qed (use assms(2,3) in \<open>fastforce simp: channels_inv_def loop_inv_def channel_ok_def hub_defs announce_id split: if_splits\<close>)+

section \<open>The map of the hosts\<close>

text \<open>
  While every client announces its own host: an entry of the map is a connection authenticated as that
  host and not unregistered since, and so are the connections the senders have found.
\<close>

definition is_host :: "hub_system \<Rightarrow> nat \<Rightarrow> nat \<Rightarrow> bool" where
  "is_host s r i \<longleftrightarrow> 0 < i \<and> (\<exists>w. hs_who s r = Some w \<and> wi_host_id w = i) \<and> hb_store (hs_hub s) r \<noteq> None"

definition hosts_inv :: "hub_system \<Rightarrow> bool" where
  "hosts_inv s \<longleftrightarrow>
     (\<forall>i r. hb_hosts (hs_hub s) i = Some r \<longrightarrow>
        is_host s r i \<and> (hs_reader s r = Gone \<longrightarrow> hs_loop s = Unregistering r)) \<and>
     (\<forall>r c. hb_store (hs_hub s) r = Some c \<longrightarrow>
        (\<exists>w. hs_who s r = Some w \<and> wi_host_id c = wi_host_id w) \<and> (hs_reader s r = Entering \<longrightarrow> 0 < wi_host_id c)) \<and>
     (\<forall>i r m. (i, r, m) \<in> set (hs_sends s) \<longrightarrow> is_host s r i)"

lemma hosts_inv_start: "hosts_inv hub_start"
  by (simp add: hosts_inv_def hub_start_def new_hub_def)

text \<open>Every step but three keeps the identities and adds nothing to the map.\<close>

lemma hosts_inv_frame:
  assumes "hosts_inv s" "hs_who s' = hs_who s"
    and ids: "\<And>r. map_option wi_host_id (hb_store (hs_hub s') r) = map_option wi_host_id (hb_store (hs_hub s) r)"
    and hosts: "\<And>i r. hb_hosts (hs_hub s') i = Some r \<Longrightarrow>
      hb_hosts (hs_hub s) i = Some r \<and> (hs_reader s' r = Gone \<longrightarrow> hs_loop s' = Unregistering r)"
    and "set (hs_sends s') \<subseteq> set (hs_sends s)"
    and "\<And>r. hs_reader s' r = Entering \<Longrightarrow>
      hs_reader s r = Entering \<or> (\<exists>w. hs_who s r = Some w \<and> 0 < wi_host_id w)"
  shows "hosts_inv s'"
proof -
  have same: "is_host s' r i = is_host s r i" for r i
    using ids [of r] assms(2) by (cases "hb_store (hs_hub s) r") (auto simp: is_host_def)
  have "\<exists>c. hb_store (hs_hub s) r = Some c \<and> wi_host_id c' = wi_host_id c" if "hb_store (hs_hub s') r = Some c'" for r c'
    using ids [of r] that by (cases "hb_store (hs_hub s) r") auto
  then have "\<forall>r c. hb_store (hs_hub s') r = Some c \<longrightarrow>
      (\<exists>w. hs_who s' r = Some w \<and> wi_host_id c = wi_host_id w) \<and> (hs_reader s' r = Entering \<longrightarrow> 0 < wi_host_id c)"
    using assms(1,2,6) by (simp add: hosts_inv_def) (metis option.inject)
  moreover have "\<forall>i r. hb_hosts (hs_hub s') i = Some r \<longrightarrow>
      is_host s' r i \<and> (hs_reader s' r = Gone \<longrightarrow> hs_loop s' = Unregistering r)"
    using assms(1) hosts same by (simp add: hosts_inv_def)
  moreover have "\<forall>i r m. (i, r, m) \<in> set (hs_sends s') \<longrightarrow> is_host s' r i"
    using assms(1,5) unfolding hosts_inv_def same by blast
  ultimately show ?thesis by (simp add: hosts_inv_def)
qed

lemma announces_own:
  assumes "announces_itself s r (Register_host_message nm (Some n))"
  shows "\<exists>w. hs_who s r = Some w \<and> 0 < n \<and> wi_host_id w = n"
  using assms by (cases "hs_who s r") (simp_all add: announces_itself_def)

lemma hosts_inv_keeps:
  assumes "hosts_inv s" "hs_who s' = hs_who s" "hb_hosts (hs_hub s') = hb_hosts (hs_hub s)"
    and "\<And>r. map_option wi_host_id (hb_store (hs_hub s') r) = map_option wi_host_id (hb_store (hs_hub s) r)"
    and "set (hs_sends s') \<subseteq> set (hs_sends s)" "hs_reader s' = hs_reader s"
    and "\<And>r. hs_loop s = Unregistering r \<Longrightarrow> hs_loop s' = Unregistering r"
  shows "hosts_inv s'"
  by (rule hosts_inv_frame [OF assms(1)]) (use assms in \<open>auto simp: hosts_inv_def\<close>)

lemma hosts_inv_step:
  assumes "hub_step announces_itself s s'" "hosts_inv s" "channels_inv s" "loop_inv s"
  shows "hosts_inv s'"
  using assms(1)
proof cases
  case (connect r i)
  have "hb_hosts (hs_hub s) j \<noteq> Some r" "is_host s x j \<Longrightarrow> x \<noteq> r" "hs_reader s r = Listening" for j x
    using assms(3) connect(3) by (fastforce simp: channels_inv_def is_host_def)+
  then show ?thesis
    using assms(2) connect(1,2) by (auto simp: hosts_inv_def is_host_def hub_defs) metis+
next
  case (register r c)
  then show ?thesis
    using assms(2,4) by (auto simp: hosts_inv_def is_host_def loop_inv_def hub_defs Let_def) metis
next
  case (receive_unregister r)
  then show ?thesis
    by (intro hosts_inv_frame [OF assms(2)]) (use assms(2) in \<open>auto simp: hosts_inv_def hub_defs split: if_splits\<close>)
next
  case (unregister r h)
  obtain c where c: "hb_store (hs_hub s) r = Some c" "h = drop_host c (close_client r c (hs_hub s)) \<or> h = drop_host c (hs_hub s)"
    using hub_unregister_cases [OF unregister(3)] by metis
  have pos: "0 < i \<and> (\<exists>w. hs_who s x = Some w \<and> wi_host_id w = i)" if "hb_hosts (hs_hub s) i = Some x" for i x
    using assms(2) that by (auto simp: hosts_inv_def is_host_def)
  have hosts: "hb_hosts (hs_hub s) i = Some x \<and> i \<noteq> wi_host_id c" if "hb_hosts h i = Some x" for i x
    using c(2) that pos [of i x] by (auto simp: close_client_def set_client_def drop_host_def split: if_splits)
  have ids: "map_option wi_host_id (hb_store h x) = map_option wi_host_id (hb_store (hs_hub s) x)" for x
    using c by (auto simp: close_client_def set_client_def drop_host_def)
  have "hs_reader s x \<noteq> Gone" if "hb_hosts h i = Some x" for i x
  proof
    assume "hs_reader s x = Gone"
    then have "x = r" using hosts [OF that] assms(2) unregister(2) by (auto simp: hosts_inv_def)
    moreover obtain w where "hs_who s r = Some w" "wi_host_id c = wi_host_id w"
      using assms(2) c(1) unfolding hosts_inv_def by blast
    ultimately show False using hosts [OF that] pos [of i x] by auto
  qed
  then show ?thesis
    by (intro hosts_inv_frame [OF assms(2)]) (use unregister(1) hosts ids in auto)
next
  case (broadcast_start m ms order)
  then show ?thesis by (intro hosts_inv_keeps [OF assms(2)]) auto
next
  case (broadcast_next m r rs h)
  show ?thesis
    by (rule broadcast_one_cases [OF broadcast_next(3)]; rule hosts_inv_frame [OF assms(2)];
      use assms(2) broadcast_next(1,2) in \<open>force simp: hosts_inv_def hub_defs split: if_splits\<close>)
next
  case (look_up i r m)
  then show ?thesis using assms(2) by (auto simp: hosts_inv_def is_host_def)
next
  case (delivered i r m h)
  show ?thesis
    by (rule deliver_sent [OF delivered(3)]; rule hosts_inv_keeps [OF assms(2)])
      (use delivered(1) in \<open>auto simp: hub_defs set_remove1_subset\<close>)
next
  case (refused i r m h)
  then show ?thesis
    using deliver_refused [OF refused(3)] by (intro hosts_inv_keeps [OF assms(2)]) (auto simp: set_remove1_subset)
next
  case (ping r h)
  show ?thesis
    by (rule read_ping [OF ping(3)]; rule hosts_inv_keeps [OF assms(2)]) (use ping(1) in \<open>auto simp: hub_defs\<close>)
next
  case (announced r c nm n)
  obtain w where w: "hs_who s r = Some w" "0 < n" "wi_host_id w = n"
    using announces_own [OF announced(4)] by blast
  have "wi_host_id c = n" using w assms(2) announced(3) unfolding hosts_inv_def by fastforce
  with w show ?thesis
    by (intro hosts_inv_frame [OF assms(2)])
      (use announced(1-3) assms(2) in \<open>auto simp: hub_defs announce_id hosts_inv_def split: if_splits\<close>)
next
  case (entered r h)
  show ?thesis
    by (rule enter_host_cases [OF entered(4)])
      (use assms(2) entered(1,2) in \<open>auto simp: hosts_inv_def is_host_def hub_defs; metis\<close>)
next
  case (read r msg h)
  show ?thesis
    by (rule read_other [OF read(5,3,4)]; rule hosts_inv_keeps [OF assms(2)]) (use read(1) in \<open>auto simp: hub_defs\<close>)
next
  case (leave r)
  then show ?thesis
    by (intro hosts_inv_frame [OF assms(2)]) (use assms(2) in \<open>auto simp: hosts_inv_def hub_defs split: if_splits\<close>)
next
  case (take r c m c')
  show ?thesis
    by (rule take_message_cases [OF take(5)]; rule hosts_inv_keeps [OF assms(2)]) (use take(1-4) in \<open>auto simp: hub_defs\<close>)
next
  case (take_fails r c m c')
  show ?thesis
    by (rule take_message_cases [OF take_fails(4)]; rule hosts_inv_keeps [OF assms(2)])
      (use take_fails(1-3) in \<open>auto simp: hub_defs\<close>)
next
  case (receive r n ms c m c')
  show ?thesis
    by (rule take_message_cases [OF receive(4)]; rule hosts_inv_keeps [OF assms(2)])
      (use receive(1-3) in \<open>auto simp: hub_defs\<close>)
qed (rule hosts_inv_keeps [OF assms(2)]; auto simp: hub_defs)+

text \<open>The three invariants in every reachable state.\<close>

lemma hub_reachable:
  assumes "(hub_step allow)\<^sup>*\<^sup>* hub_start s"
  shows "channels_inv s \<and> loop_inv s"
  using assms by (induction rule: rtranclp_induct) (auto intro: inv_start channels_inv_step loop_inv_step)

lemma hub_reachable_hosts:
  assumes "(hub_step announces_itself)\<^sup>*\<^sup>* hub_start s"
  shows "hosts_inv s"
  using assms
proof (induction rule: rtranclp_induct)
  case (step s s')
  then show ?case using hub_reachable [OF step(1)] hosts_inv_step by blast
qed (rule hosts_inv_start)

lemma hub_reachable_channel:
  assumes "(hub_step allow)\<^sup>*\<^sup>* hub_start s" "hb_store (hs_hub s) r = Some c"
  shows "channel_ok s r c"
  using hub_reachable [OF assms(1)] assms(2) by (simp add: channels_inv_def)

section \<open>Undisturbed runs\<close>

text \<open>The functions of \<open>Ws_Hub\<close> that put several steps together are runs of these steps.\<close>

lemma receive_run:
  assumes "hs_writer s r = Writing (Some (length ms)) fs" "hb_store (hs_hub s) r = Some c" "wc_send c = ms"
  shows "\<exists>s'. (hub_step allow)\<^sup>*\<^sup>* s s' \<and> hs_writer s' r = Writing (Some 0) (fs @ ms) \<and>
    hb_store (hs_hub s') r = Some (c\<lparr>wc_send := []\<rparr>) \<and>
    hs_frames s' = hs_frames s \<and> hs_accepted s' = hs_accepted s \<and> hs_shut s' = hs_shut s"
  using assms
proof (induction ms arbitrary: s fs c)
  case Nil
  then show ?case by (intro exI [of _ s]) simp
next
  case (Cons m ms)
  let ?s = "set_writer r (Writing (Some (length ms)) (fs @ [m])) (c\<lparr>wc_send := ms\<rparr>) s"
  have step: "hub_step allow s ?s"
    using Cons.prems by (intro hub_step.receive) (auto simp: take_message_def)
  have "\<exists>s'. (hub_step allow)\<^sup>*\<^sup>* ?s s' \<and> hs_writer s' r = Writing (Some 0) ((fs @ [m]) @ ms) \<and>
      hb_store (hs_hub s') r = Some (c\<lparr>wc_send := ms\<rparr>\<lparr>wc_send := []\<rparr>) \<and>
      hs_frames s' = hs_frames ?s \<and> hs_accepted s' = hs_accepted ?s \<and> hs_shut s' = hs_shut ?s"
    by (rule Cons.IH) (simp_all add: hub_defs)
  then obtain s' where s': "(hub_step allow)\<^sup>*\<^sup>* ?s s'" "hs_writer s' r = Writing (Some 0) (fs @ m # ms)"
      "hb_store (hs_hub s') r = Some (c\<lparr>wc_send := []\<rparr>)" "hs_frames s' = hs_frames s" "hs_accepted s' = hs_accepted s"
      "hs_shut s' = hs_shut s"
    by (auto simp: hub_defs)
  from step s'(1) have "(hub_step allow)\<^sup>*\<^sup>* s s'" by (rule converse_rtranclp_into_rtranclp)
  with s'(2-) show ?case by blast
qed

lemma write_turn_run:
  assumes "hs_writer s r = Waiting" "r \<notin> hs_shut s" "hb_store (hs_hub s) r = Some c"
    and "write_pump (Channel_ready True True) c = Frame ms c'"
  shows "\<exists>s'. (hub_step allow)\<^sup>*\<^sup>* s s' \<and> hs_writer s' r = Waiting \<and> hb_store (hs_hub s') r = Some c' \<and>
    hs_frames s' r = hs_frames s r @ [ms] \<and> hs_accepted s' = hs_accepted s"
proof -
  obtain m rest where m: "wc_send c = m # rest" "ms = m # rest" "c' = c\<lparr>wc_send := []\<rparr>"
    using assms(4) by (auto simp: write_pump_def take_message_def Let_def split: list.splits if_splits)
  let ?c1 = "c\<lparr>wc_send := rest\<rparr>"
  let ?s1 = "set_writer r (Writing None [m]) ?c1 s"
  let ?s2 = "set_writer r (Writing (Some (length (wc_send ?c1))) [m]) ?c1 ?s1"
  have s1: "hub_step allow s ?s1" by (rule hub_step.take) (use assms m in \<open>auto simp: take_message_def\<close>)
  have s2: "hub_step allow ?s1 ?s2" by (rule hub_step.count) (simp_all add: hub_defs)
  obtain s3 where s3: "(hub_step allow)\<^sup>*\<^sup>* ?s2 s3" "hs_writer s3 r = Writing (Some 0) ms" "hb_store (hs_hub s3) r = Some c'"
      "hs_frames s3 = hs_frames s" "hs_accepted s3 = hs_accepted s" "hs_shut s3 = hs_shut s"
    using receive_run [of ?s2 r rest "[m]" ?c1 allow] m by (auto simp: hub_defs)
  let ?s4 = "set_writer r Waiting c' s3\<lparr>hs_frames := (hs_frames s3)(r := hs_frames s3 r @ [ms])\<rparr>"
  have "hub_step allow s3 ?s4" by (rule hub_step.flush) (use s3 assms(2) in auto)
  with s1 s2 s3(1) have "(hub_step allow)\<^sup>*\<^sup>* s ?s4" by (meson converse_rtranclp_into_rtranclp rtranclp.rtrancl_into_rtrancl)
  then show ?thesis using s3 by (intro exI [of _ ?s4]) (simp add: hub_defs)
qed

lemma broadcast_run:
  assumes "hs_loop s = Broadcasting m rs" "broadcast_loop m rs (hs_hub s) = Some h"
  shows "\<exists>s'. (hub_step allow)\<^sup>*\<^sup>* s s' \<and> hs_loop s' = Idle \<and> hs_hub s' = h"
  using assms
proof (induction rs arbitrary: s)
  case Nil
  then show ?case using hub_step.broadcast_end [of s m allow] by (intro exI [of _ "s\<lparr>hs_loop := Idle\<rparr>"]) auto
next
  case (Cons r rs)
  then obtain h1 where h1: "broadcast_one m r (hs_hub s) = Some h1" "broadcast_loop m rs h1 = Some h"
    by (auto split: option.splits)
  let ?s = "accept ({r} \<inter> hb_clients h1) m s\<lparr>hs_hub := h1, hs_loop := Broadcasting m rs\<rparr>"
  have "hub_step allow s ?s" by (rule hub_step.broadcast_next [OF Cons.prems(1) h1(1)])
  moreover obtain s' where "(hub_step allow)\<^sup>*\<^sup>* ?s s'" "hs_loop s' = Idle" "hs_hub s' = h"
    using Cons.IH [of ?s] h1(2) by (auto simp: accept_def)
  ultimately show ?case by (blast intro: converse_rtranclp_into_rtranclp)
qed

lemma hub_broadcast_run:
  assumes "hs_loop s = Idle" "hb_broadcast (hs_hub s) = m # ms" "distinct order" "set order = hb_clients (hs_hub s)"
    and "hub_broadcast order (hs_hub s) = Some h"
  shows "\<exists>s'. (hub_step allow)\<^sup>*\<^sup>* s s' \<and> hs_loop s' = Idle \<and> hs_hub s' = h"
proof -
  let ?s = "s\<lparr>hs_hub := (hs_hub s)\<lparr>hb_broadcast := ms\<rparr>, hs_loop := Broadcasting m order\<rparr>"
  have "hub_step allow s ?s" by (rule hub_step.broadcast_start [OF assms(1-4)])
  moreover have "broadcast_loop m order (hs_hub ?s) = Some h" using assms(2,5) by (simp add: hub_broadcast_def)
  then obtain s' where "(hub_step allow)\<^sup>*\<^sup>* ?s s'" "hs_loop s' = Idle" "hs_hub s' = h"
    using broadcast_run [of ?s m order h allow] by auto
  ultimately show ?thesis by (blast intro: converse_rtranclp_into_rtranclp)
qed

lemma announce_run:
  assumes "hs_reader s r = Listening" "\<forall>m rs. hs_loop s \<noteq> Broadcasting m rs" "hb_store (hs_hub s) r = Some c"
    and "allow s r (Register_host_message nm (Some n))"
    and "read_message r (Register_host_message nm (Some n)) (hs_hub s) = Continue h"
  shows "\<exists>s'. (hub_step allow)\<^sup>*\<^sup>* s s' \<and> hs_reader s' r = Listening \<and> hs_hub s' = h"
proof -
  let ?s = "set_reader r Entering s\<lparr>hs_hub := announce r nm (Some n) c (hs_hub s)\<rparr>"
  have "hub_step allow s ?s" by (rule hub_step.announced [of s r c allow nm n]) (use assms in auto)
  moreover have "hub_step allow ?s (set_reader r Listening ?s\<lparr>hs_hub := h\<rparr>)"
    by (rule hub_step.entered) (use assms in \<open>auto simp: read_message_def set_reader_def Let_def split: option.splits\<close>)
  ultimately have "(hub_step allow)\<^sup>*\<^sup>* s (set_reader r Listening ?s\<lparr>hs_hub := h\<rparr>)" by simp
  then show ?thesis by (intro exI [of _ "set_reader r Listening ?s\<lparr>hs_hub := h\<rparr>"]) (simp add: set_reader_def)
qed

section \<open>No panic in the loop\<close>

lemma hub_unregister_total:
  assumes "channels_inv s" "loop_inv s" "hs_loop s = Unregistering r"
  shows "hub_unregister r (hs_hub s) \<noteq> None"
proof -
  obtain c where "hb_store (hs_hub s) r = Some c" using assms(2,3) by (auto simp: loop_inv_def)
  then show ?thesis using assms(1) by (auto simp: channels_inv_def channel_ok_def hub_unregister_def)
qed

lemma broadcast_one_total: "hb_store h r = Some c \<Longrightarrow> \<not> wc_closed c \<Longrightarrow> broadcast_one m r h \<noteq> None"
  by (cases "try_send m c") (auto simp: broadcast_one_def dest: try_send_cases)

lemma registered_open:
  assumes "channels_inv s" "r \<in> hb_clients (hs_hub s)"
  obtains c where "hb_store (hs_hub s) r = Some c" "\<not> wc_closed c"
  using assms by (cases "hb_store (hs_hub s) r") (auto simp: channels_inv_def channel_ok_def)

text \<open>A broadcast with nothing in between: what it does to one client.\<close>

lemma broadcast_loop_total:
  assumes "distinct order" "\<forall>r \<in> set order. \<exists>c. hb_store h r = Some c \<and> \<not> wc_closed c"
  shows "\<exists>h'. broadcast_loop m order h = Some h' \<and> (\<forall>r. r \<notin> set order \<longrightarrow> hb_store h' r = hb_store h r)"
  using assms
proof (induction order arbitrary: h)
  case (Cons r rs)
  then obtain c where "hb_store h r = Some c" "\<not> wc_closed c" by auto
  then obtain h1 where h1: "broadcast_one m r h = Some h1" using broadcast_one_total by blast
  have keep: "hb_store h1 x = hb_store h x" if "x \<noteq> r" for x
    by (rule broadcast_one_cases [OF h1]; use that in \<open>simp add: hub_defs\<close>)
  moreover have "x \<noteq> r" if "x \<in> set rs" for x using that Cons.prems(1) by auto
  ultimately have "\<forall>x \<in> set rs. \<exists>c. hb_store h1 x = Some c \<and> \<not> wc_closed c" using Cons.prems(2) by auto
  then show ?case using Cons.IH [of h1] Cons.prems(1) h1 keep by auto
qed simp

lemma broadcast_loop_full:
  assumes "distinct order" "\<forall>r \<in> set order. \<exists>c. hb_store h r = Some c \<and> \<not> wc_closed c"
    and "r \<in> set order" "hb_store h r = Some c" "channel_size \<le> length (wc_send c)"
  shows "\<exists>h'. broadcast_loop m order h = Some h' \<and> hb_store h' r = Some (c\<lparr>wc_closed := True\<rparr>)"
  using assms
proof (induction order arbitrary: h)
  case (Cons x rs)
  from Cons.prems(2) obtain d where d: "hb_store h x = Some d" "\<not> wc_closed d" by auto
  then obtain h1 where h1: "broadcast_one m x h = Some h1" using broadcast_one_total by blast
  have keep: "hb_store h1 y = hb_store h y" if "y \<noteq> x" for y
    by (rule broadcast_one_cases [OF h1]; use that in \<open>simp add: hub_defs\<close>)
  moreover have "y \<noteq> x" if "y \<in> set rs" for y using that Cons.prems(1) by auto
  ultimately have rest: "\<forall>r \<in> set rs. \<exists>c. hb_store h1 r = Some c \<and> \<not> wc_closed c" using Cons.prems(2) by auto
  show ?case
  proof (cases "r = x")
    case True
    then have "hb_store h1 r = Some (c\<lparr>wc_closed := True\<rparr>)"
      using h1 Cons.prems(4,5) d by (auto simp: broadcast_one_def try_send_def hub_defs split: if_splits)
    then show ?thesis using broadcast_loop_total [OF _ rest, of m] Cons.prems(1) True h1 by auto
  next
    case False
    then show ?thesis using Cons.IH [OF _ rest] Cons.prems(1,3-5) keep [of r] h1 by auto
  qed
qed simp

section \<open>Properties\<close>

text \<open>
  C5. Messages are written once and in order: in any run of the hub, whatever its clients send, what
  was accepted for a client is what its frames hold, then what its writer has taken and not yet
  flushed or has lost with a failing write, then what waits in its channel, which never exceeds 256 messages;
  nothing is lost before the writer has ended. And while the writer waits on an open connection with
  messages queued, one turn of \<open>writePump\<close> whose writes succeed is a run of the system after which
  everything accepted is written.
\<close>

theorem hub_writes_in_order:
  assumes "(hub_step allow)\<^sup>*\<^sup>* hub_start s" "hb_store (hs_hub s) r = Some c"
  shows "hs_accepted s r = concat (hs_frames s r) @ unflushed (hs_writer s r) @ hs_lost s r @ wc_send c \<and>
    length (wc_send c) \<le> 256 \<and> (hs_lost s r \<noteq> [] \<longrightarrow> hs_writer s r = Ended) \<and>
    (hs_writer s r = Waiting \<and> r \<notin> hs_shut s \<and> wc_send c \<noteq> [] \<longrightarrow>
      (\<exists>ms c' s'. write_pump (Channel_ready True True) c = Frame ms c' \<and> (hub_step allow)\<^sup>*\<^sup>* s s' \<and>
         hb_store (hs_hub s') r = Some c' \<and> hs_frames s' r = hs_frames s r @ [ms] \<and>
         hs_accepted s' r = hs_accepted s r \<and> concat (hs_frames s' r) = hs_accepted s r))"
proof -
  have ok: "channel_ok s r c" by (rule hub_reachable_channel [OF assms])
  have "\<exists>ms c' s'. write_pump (Channel_ready True True) c = Frame ms c' \<and> (hub_step allow)\<^sup>*\<^sup>* s s' \<and>
      hb_store (hs_hub s') r = Some c' \<and> hs_frames s' r = hs_frames s r @ [ms] \<and>
      hs_accepted s' r = hs_accepted s r \<and> concat (hs_frames s' r) = hs_accepted s r"
    if w: "hs_writer s r = Waiting" "r \<notin> hs_shut s" "wc_send c \<noteq> []"
  proof -
    have turn: "write_pump (Channel_ready True True) c = Frame (wc_send c) (c\<lparr>wc_send := []\<rparr>)"
      using w(3) by (cases "wc_send c") (auto simp: write_pump_def take_message_def)
    from write_turn_run [OF w(1,2) assms(2) this] obtain s' where
      "(hub_step allow)\<^sup>*\<^sup>* s s'" "hb_store (hs_hub s') r = Some (c\<lparr>wc_send := []\<rparr>)"
      "hs_frames s' r = hs_frames s r @ [wc_send c]" "hs_accepted s' = hs_accepted s" by blast
    moreover from this ok w have "concat (hs_frames s' r) = hs_accepted s r" by (simp add: channel_ok_def)
    ultimately show ?thesis using turn by auto
  qed
  then show ?thesis using ok by (auto simp: channel_ok_def channel_size_def)
qed

text \<open>What a writer does on its own with the messages of its channel.\<close>

lemma pump_loop_account:
  assumes "pump_loop evs c = (fs, e)"
  shows "case e of
      Pump_running c' \<Rightarrow> wc_send c = concat fs @ wc_send c' \<and> Ping_due False \<notin> set evs \<and>
        (wc_closed c \<longrightarrow> length (filter channel_event evs) < (if wc_send c = [] then 1 else 2))
    | Pump_closed \<Rightarrow> wc_send c = concat fs \<and> wc_closed c
    | Pump_failed lost c' \<Rightarrow> wc_send c = concat fs @ lost @ wc_send c' \<and> (\<exists>ev \<in> set evs. write_fault ev)"
  using assms
proof (induction evs arbitrary: c fs e)
  case (Cons ev evs)
  show ?case
  proof (cases "write_pump ev c")
    case (Frame ms c1)
    then have ev: "ev = Channel_ready True True" "wc_send c = ms" "ms \<noteq> []" "c1 = c\<lparr>wc_send := []\<rparr>"
      by (auto simp: write_pump_def take_message_def Let_def split: write_event.splits list.splits if_splits)
    obtain gs where "pump_loop evs c1 = (gs, e)" "fs = ms # gs"
      using Cons.prems Frame by (auto split: prod.splits)
    with Cons.IH [of c1 gs e] ev show ?thesis by (auto split: pump_end.splits)
  next
    case (Stops lost c1)
    then have "write_fault ev" "wc_send c = lost @ wc_send c1"
      by (auto simp: write_pump_def take_message_def Let_def split: write_event.splits list.splits if_splits)
    with Stops Cons.prems show ?thesis by auto
  next
    case Close_frame
    then have "wc_closed c" "wc_send c = []"
      by (auto simp: write_pump_def take_message_def Let_def split: write_event.splits list.splits if_splits)
    with Close_frame Cons.prems show ?thesis by auto
  next
    case Goes_on
    then have "ev = Ping_due True \<or> channel_event ev \<and> wc_send c = [] \<and> \<not> wc_closed c"
      by (auto simp: write_pump_def take_message_def Let_def split: write_event.splits list.splits if_splits)
    with Goes_on Cons.prems Cons.IH [of c fs e] show ?thesis
      by (cases ev) (auto split: pump_end.splits if_splits)
  qed
qed simp

text \<open>
  C10. How the writer of a client ends: take any state of a run in which the writer waits, and any
  sequence of what becomes ready for it while nobody else uses its channel. If the loop of \<open>writePump\<close>
  still runs then no ping has failed and, where the hub has let go of the client, the channel was ready at most
  once: within two turns the writer ends. It ends with its close frame only when the hub has let go of the
  client, and has then written everything accepted. Otherwise it ends only at a failing write, and
  then exactly the messages taken for that write and those still queued are unwritten.
\<close>

theorem write_pump_ends:
  assumes "(hub_step allow)\<^sup>*\<^sup>* hub_start s" "hb_store (hs_hub s) r = Some c" "hs_writer s r = Waiting"
    and "pump_loop evs c = (fs, e)"
  shows "case e of
      Pump_running c' \<Rightarrow>
        hs_accepted s r = concat (hs_frames s r @ fs) @ wc_send c' \<and> Ping_due False \<notin> set evs \<and>
        (r \<in> hb_clients (hs_hub s) \<or> hs_loop s = Registering r \<or> length (filter channel_event evs) < 2)
    | Pump_closed \<Rightarrow>
        hs_accepted s r = concat (hs_frames s r @ fs) \<and> r \<notin> hb_clients (hs_hub s) \<and> hs_loop s \<noteq> Registering r
    | Pump_failed lost c' \<Rightarrow>
        hs_accepted s r = concat (hs_frames s r @ fs) @ lost @ wc_send c' \<and> (\<exists>ev \<in> set evs. write_fault ev)"
proof -
  have "hs_accepted s r = concat (hs_frames s r) @ wc_send c"
    "wc_closed c \<longleftrightarrow> r \<notin> hb_clients (hs_hub s) \<and> hs_loop s \<noteq> Registering r"
    using hub_reachable_channel [OF assms(1,2)] assms(3) by (auto simp: channel_ok_def)
  with pump_loop_account [OF assms(4)] show ?thesis by (auto split: pump_end.splits if_splits)
qed

text \<open>
  What a reader's events say, apart from the code: those before its loop ends, the pings among them, the
  host ids announced, and the status reports, each for the host id announced last before it.
\<close>

fun ends_reading :: "read_event \<Rightarrow> bool" where
  "ends_reading Read_fails \<longleftrightarrow> True"
| "ends_reading (Read_gives n msg) \<longleftrightarrow> 512 < n"

definition heard :: "read_event list \<Rightarrow> read_event list" where
  "heard es = takeWhile (\<lambda>e. \<not> ends_reading e) es"

fun pings :: "read_event list \<Rightarrow> nat" where
  "pings [] = 0"
| "pings (Read_gives n (Some Ping_message) # es) = Suc (pings es)"
| "pings (_ # es) = pings es"

fun announced_ids :: "read_event list \<Rightarrow> nat list" where
  "announced_ids [] = []"
| "announced_ids (Read_gives n (Some (Register_host_message nm (Some i))) # es) = i # announced_ids es"
| "announced_ids (_ # es) = announced_ids es"

fun reports :: "nat \<Rightarrow> read_event list \<Rightarrow> hub_message list" where
  "reports i [] = []"
| "reports i (Read_gives n (Some (Status_update_message (Some st))) # es) = Host_status_update i st # reports i es"
| "reports i (Read_gives n (Some (Register_host_message nm (Some j))) # es) = reports j es"
| "reports i (_ # es) = reports i es"

definition reader_result :: "nat \<Rightarrow> ws_client \<Rightarrow> read_event list \<Rightarrow> bool \<Rightarrow> hub \<Rightarrow> hub \<Rightarrow> bool" where
  "reader_result r c es left h h' \<longleftrightarrow>
     (let i = last (wi_host_id c # announced_ids es) in
      (\<exists>c'. hb_store h' r = Some c' \<and> wc_send c' = wc_send c @ replicate (pings es) Pong \<and>
         wc_closed c' = left \<and> wi_host_id c' = i) \<and>
      (\<forall>x. x \<noteq> r \<longrightarrow> hb_store h' x = hb_store h x) \<and>
      hb_broadcast h' = hb_broadcast h @ reports (wi_host_id c) es \<and>
      hb_clients h' = (if left then hb_clients h - {r} else hb_clients h) \<and>
      (\<forall>j. hb_hosts h' j = (if left \<and> 0 < i \<and> j = i then None
         else if j \<in> set (announced_ids es) then Some r else hb_hosts h j)))"

text \<open>One message for which there is room, as the first of several.\<close>

lemma reader_message:
  assumes "hb_store h r = Some c" "\<not> wc_closed c" "length (wc_send c) + pings [Read_gives n (Some x)] \<le> channel_size"
    and "length (hb_broadcast h) + length (reports (wi_host_id c) [Read_gives n (Some x)]) \<le> channel_size"
  shows "\<exists>h1 c1. read_message r x h = Continue h1 \<and> hb_store h1 r = Some c1 \<and> \<not> wc_closed c1 \<and> hb_clients h1 = hb_clients h \<and>
    length (wc_send c1) = length (wc_send c) + pings [Read_gives n (Some x)] \<and>
    length (hb_broadcast h1) = length (hb_broadcast h) + length (reports (wi_host_id c) [Read_gives n (Some x)]) \<and>
    wi_host_id c1 = last (wi_host_id c # announced_ids [Read_gives n (Some x)]) \<and>
    (\<forall>es left h'. reader_result r c1 es left h1 h' \<longrightarrow> reader_result r c (Read_gives n (Some x) # es) left h h')"
proof (cases x)
  case Ping_message
  let ?c = "c\<lparr>wc_send := wc_send c @ [Pong]\<rparr>"
  have "read_message r x h = Continue (set_client r ?c h)"
    using Ping_message assms(1-3) by (simp add: read_message_def try_send_def)
  then show ?thesis
    using Ping_message assms(2)
    by (intro exI [of _ "set_client r ?c h"] exI [of _ ?c])
      (auto simp: reader_result_def set_client_def Let_def cong: if_cong)
next
  case (Register_host_message nm i)
  let ?c = "(case nm of Some s \<Rightarrow> c\<lparr>wi_hostname := s\<rparr> | None \<Rightarrow> c)"
  show ?thesis
  proof (cases i)
    case None
    then have "read_message r x h = Continue (set_client r ?c h)"
      using assms(1) Register_host_message by (auto simp: read_message_def announce_def Let_def)
    then show ?thesis
      using Register_host_message None assms(2)
      by (intro exI [of _ "set_client r ?c h"] exI [of _ ?c]; cases nm)
        (auto simp: reader_result_def set_client_def Let_def cong: if_cong)
  next
    case (Some k)
    let ?h = "(set_client r (?c\<lparr>wi_host_id := k\<rparr>) h)\<lparr>hb_hosts := (hb_hosts h)(k \<mapsto> r)\<rparr>"
    have "read_message r x h = Continue ?h"
      using assms(1) Register_host_message Some
      by (auto simp: read_message_def announce_def enter_host_def set_client_def Let_def)
    then show ?thesis
      using Register_host_message Some assms(2)
      by (intro exI [of _ ?h] exI [of _ "?c\<lparr>wi_host_id := k\<rparr>"]; cases nm)
        (auto simp: reader_result_def set_client_def Let_def cong: if_cong)
  qed
next
  case (Status_update_message st)
  show ?thesis
  proof (cases st)
    case None
    then show ?thesis
      using assms(1,2) Status_update_message
      by (intro exI [of _ h] exI [of _ c]) (simp add: read_message_def reader_result_def Let_def)
  next
    case (Some t)
    let ?h = "h\<lparr>hb_broadcast := hb_broadcast h @ [Host_status_update (wi_host_id c) t]\<rparr>"
    show ?thesis
      using assms(1,2,4) Status_update_message Some
      by (intro exI [of _ ?h] exI [of _ c])
        (simp add: read_message_def broadcast_host_status_def send_to_all_def reader_result_def Let_def)
  qed
next
  case Other_message
  then show ?thesis
    using assms(1,2)
    by (intro exI [of _ h] exI [of _ c]) (simp add: read_message_def reader_result_def Let_def)
qed

text \<open>What a first message adds to what is expected of the rest.\<close>

lemma reader_first:
  "pings (Read_gives n (Some x) # es) = pings [Read_gives n (Some x)] + pings es"
  "length (reports i (Read_gives n (Some x) # es)) = length (reports i [Read_gives n (Some x)]) +
     length (reports (last (i # announced_ids [Read_gives n (Some x)])) es)"
proof -
  show "pings (Read_gives n (Some x) # es) = pings [Read_gives n (Some x)] + pings es" by (cases x) simp_all
  show "length (reports i (Read_gives n (Some x) # es)) = length (reports i [Read_gives n (Some x)]) +
     length (reports (last (i # announced_ids [Read_gives n (Some x)])) es)"
  proof (cases x)
    case (Register_host_message nm k)
    then show ?thesis by (cases k) simp_all
  next
    case (Status_update_message st)
    then show ?thesis by (cases st) simp_all
  qed simp_all
qed

lemma reader_leaves:
  assumes "hb_store h r = Some c" "\<not> wc_closed c" "r \<in> hb_clients h"
  shows "\<exists>h'. read_deferred r h = Unregistered h' \<and> reader_result r c [] True h h'"
  using assms by (simp add: read_deferred_def hub_unregister_def reader_result_def hub_defs)

text \<open>
  C15. What \<open>readPump\<close> does with everything a connection sends, if nobody else uses its client meanwhile:
  a registered client whose channel and the broadcast channel have room for the answers is answered one
  pong for each ping, has its status reports broadcast under the host id announced last before them, and
  is found under every host id it announced; and the loop ends exactly at the first read error or message of
  more than 512 bytes, and has then unregistered the client, closed its channel and removed its entry under
  its last host id. Nothing after that is heard.
\<close>

theorem reader_answers_and_leaves:
  assumes "hb_store h r = Some c" "\<not> wc_closed c" "r \<in> hb_clients h"
    and "length (wc_send c) + pings (heard es) \<le> 256"
    and "length (hb_broadcast h) + length (reports (wi_host_id c) (heard es)) \<le> 256"
  shows "\<exists>h'. read_pump r es h = (if \<exists>e \<in> set es. ends_reading e then Unregistered h' else Reading h') \<and>
    reader_result r c (heard es) (\<exists>e \<in> set es. ends_reading e) h h'"
  using assms
proof (induction es arbitrary: h c)
  case Nil
  then show ?case by (auto simp: reader_result_def heard_def)
next
  case (Cons e es)
  show ?case
  proof (cases "ends_reading e")
    case True
    then have "read_pump r (e # es) h = read_deferred r h" by (cases e) auto
    then show ?thesis using reader_leaves [OF Cons.prems(1-3)] True by (auto simp: heard_def)
  next
    case False
    then obtain n msg where e: "e = Read_gives n msg" "\<not> 512 < n" by (cases e) auto
    have heard: "heard (e # es) = e # heard es" using False by (simp add: heard_def)
    show ?thesis
    proof (cases msg)
      case None
      have "reader_result r c (Read_gives n None # heard es) = reader_result r c (heard es)"
        by (simp add: fun_eq_iff reader_result_def)
      then show ?thesis using Cons.IH [OF Cons.prems(1-3)] Cons.prems(4,5) e heard None by simp
    next
      case (Some x)
      let ?e = "Read_gives n (Some x)"
      have first: "heard (e # es) = ?e # heard es" using heard e Some by simp
      have room: "length (wc_send c) + (pings [?e] + pings (heard es)) \<le> 256"
        "length (hb_broadcast h) + (length (reports (wi_host_id c) [?e]) +
           length (reports (last (wi_host_id c # announced_ids [?e])) (heard es))) \<le> 256"
        using Cons.prems(4,5)
        by (simp_all only: first reader_first(1) [of n x "heard es"] reader_first(2) [of "wi_host_id c" n x "heard es"])
      then have "length (wc_send c) + pings [?e] \<le> channel_size"
        "length (hb_broadcast h) + length (reports (wi_host_id c) [?e]) \<le> channel_size"
        by (simp_all add: channel_size_def)
      from reader_message [OF Cons.prems(1,2) this] obtain h1 c1 where h1: "read_message r x h = Continue h1"
        "hb_store h1 r = Some c1" "\<not> wc_closed c1" "hb_clients h1 = hb_clients h"
        "length (wc_send c1) = length (wc_send c) + pings [?e]"
        "length (hb_broadcast h1) = length (hb_broadcast h) + length (reports (wi_host_id c) [?e])"
        "wi_host_id c1 = last (wi_host_id c # announced_ids [?e])"
        "\<And>es left h'. reader_result r c1 es left h1 h' \<Longrightarrow> reader_result r c (?e # es) left h h'" by blast
      have clients: "r \<in> hb_clients h1" using h1(4) Cons.prems(3) by simp
      have r1: "length (wc_send c1) + pings (heard es) \<le> 256" using room(1) h1(5) by linarith
      have r2: "length (hb_broadcast h1) + length (reports (wi_host_id c1) (heard es)) \<le> 256"
        using room(2) unfolding h1(6,7) by linarith
      obtain h' where h': "read_pump r es h1 = (if \<exists>e \<in> set es. ends_reading e then Unregistered h' else Reading h')"
          "reader_result r c1 (heard es) (\<exists>e \<in> set es. ends_reading e) h1 h'"
        by (rule exE [OF Cons.IH [OF h1(2,3) clients r1 r2]]) blast
      have run: "read_pump r (e # es) h = read_pump r es h1" using h1(1) e Some by simp
      have ends: "(\<exists>e \<in> set (e # es). ends_reading e) = (\<exists>e \<in> set es. ends_reading e)" using e by simp
      have "reader_result r c (heard (e # es)) (\<exists>e \<in> set es. ends_reading e) h h'"
        unfolding first by (rule h1(8) [OF h'(2)])
      then show ?thesis unfolding run ends using h'(1) by blast
    qed
  qed
qed

text \<open>
  C4. As long as the clients announce only the host they were authenticated for, the loop of the hub
  does not panic and a message for a host goes to that host or nowhere. Every entry of the host map
  is a connection authenticated as that host whose end the hub has not handled yet, and so is every
  connection that \<open>SendToHost\<close> has found and not sent to yet, at any later time. The send then puts the message
  at the end of that connection's channel and changes nothing else, if the connection is
  still registered and the channel has room; it is refused if the channel is full; and it panics
  exactly if the hub has let go of the connection since.
\<close>

theorem hub_reaches_only_the_host:
  assumes "(hub_step announces_itself)\<^sup>*\<^sup>* hub_start s"
  shows "(\<forall>r. hs_loop s = Unregistering r \<longrightarrow> hub_unregister r (hs_hub s) \<noteq> None) \<and>
    (\<forall>m r rs. hs_loop s = Broadcasting m (r # rs) \<longrightarrow> broadcast_one m r (hs_hub s) \<noteq> None) \<and>
    (\<forall>i r. hb_hosts (hs_hub s) i = Some r \<longrightarrow>
       (\<exists>w. hs_who s r = Some w \<and> wi_host_id w = i \<and> 0 < i) \<and> (hs_reader s r = Gone \<longrightarrow> hs_loop s = Unregistering r)) \<and>
    (\<forall>i r m. (i, r, m) \<in> set (hs_sends s) \<longrightarrow>
       (\<exists>w c. hs_who s r = Some w \<and> wi_host_id w = i \<and> 0 < i \<and> hb_store (hs_hub s) r = Some c \<and>
          deliver r m (hs_hub s) =
            (if r \<in> hb_clients (hs_hub s) \<or> hs_loop s = Registering r then
               if length (wc_send c) < 256 then Some (True, set_client r (c\<lparr>wc_send := wc_send c @ [m]\<rparr>) (hs_hub s))
               else Some (False, hs_hub s)
             else None)))"
proof -
  have inv: "channels_inv s" "loop_inv s" and hosts: "hosts_inv s"
    using hub_reachable hub_reachable_hosts assms by blast+
  have next_one: "broadcast_one m r (hs_hub s) \<noteq> None" if "hs_loop s = Broadcasting m (r # rs)" for m r rs
  proof -
    have "r \<in> hb_clients (hs_hub s)" using inv(2) that by (simp add: loop_inv_def)
    then obtain c where "hb_store (hs_hub s) r = Some c" "\<not> wc_closed c" by (rule registered_open [OF inv(1)])
    then show ?thesis by (rule broadcast_one_total)
  qed
  have send: "\<exists>w c. hs_who s r = Some w \<and> wi_host_id w = i \<and> 0 < i \<and> hb_store (hs_hub s) r = Some c \<and>
      deliver r m (hs_hub s) =
        (if r \<in> hb_clients (hs_hub s) \<or> hs_loop s = Registering r then
           if length (wc_send c) < 256 then Some (True, set_client r (c\<lparr>wc_send := wc_send c @ [m]\<rparr>) (hs_hub s))
           else Some (False, hs_hub s)
         else None)" if "(i, r, m) \<in> set (hs_sends s)" for i r m
  proof -
    have "is_host s r i" using hosts that unfolding hosts_inv_def by blast
    then obtain w c where wc: "hs_who s r = Some w" "wi_host_id w = i" "0 < i" "hb_store (hs_hub s) r = Some c"
      by (auto simp: is_host_def)
    have "wc_closed c \<longleftrightarrow> r \<notin> hb_clients (hs_hub s) \<and> hs_loop s \<noteq> Registering r"
      using hub_reachable_channel [OF assms wc(4)] by (simp add: channel_ok_def)
    with wc show ?thesis by (auto simp: deliver_def try_send_def channel_size_def)
  qed
  have entry: "(\<exists>w. hs_who s r = Some w \<and> wi_host_id w = i \<and> 0 < i) \<and> (hs_reader s r = Gone \<longrightarrow> hs_loop s = Unregistering r)"
    if "hb_hosts (hs_hub s) i = Some r" for i r
    using hosts that by (auto simp: hosts_inv_def is_host_def)
  show ?thesis by (intro conjI allI impI hub_unregister_total [OF inv] next_one entry send)
qed

text \<open>
  The panic is reached: a sender that has looked up a host's only connection, which is then
  unregistered before the send, sends on a closed channel.
\<close>

lemma send_after_close_panics:
  fixes w :: ws_identity
  assumes "0 < wi_host_id w"
  shows "\<exists>s. (hub_step announces_itself)\<^sup>*\<^sup>* hub_start s \<and> (wi_host_id w, r, m) \<in> set (hs_sends s) \<and>
    deliver r m (hs_hub s) = None"
proof -
  let ?c = "new_client w"
  let ?h1 = "set_client r ?c new_hub"
  let ?s1 = "hub_start\<lparr>hs_hub := ?h1, hs_who := [r \<mapsto> w], hs_loop := Registering r\<rparr>"
  let ?s2 = "?s1\<lparr>hs_hub := hub_register r ?c ?h1, hs_loop := Idle\<rparr>"
  let ?s3 = "?s2\<lparr>hs_sends := [(wi_host_id w, r, m)]\<rparr>"
  let ?s4 = "set_reader r Leaving ?s3"
  let ?s5 = "(set_reader r Gone ?s4)\<lparr>hs_loop := Unregistering r\<rparr>"
  let ?h6 = "drop_host ?c (close_client r ?c (hub_register r ?c ?h1))"
  let ?s6 = "?s5\<lparr>hs_hub := ?h6, hs_loop := Idle\<rparr>"
  have "hub_step announces_itself hub_start ?s1"
    using hub_step.connect [of hub_start r announces_itself w] by (simp add: hub_start_def new_hub_def)
  moreover have "hub_step announces_itself ?s1 ?s2"
    using hub_step.register [of ?s1 r ?c announces_itself] by (simp add: set_client_def)
  moreover have "hub_step announces_itself ?s2 ?s3"
    using hub_step.look_up [of ?s2 "wi_host_id w" r announces_itself m] assms
    by (simp add: hub_start_def hub_defs Let_def)
  moreover have "hub_step announces_itself ?s3 ?s4"
    using hub_step.leave [of ?s3 r announces_itself] by (simp add: hub_start_def hub_defs Let_def)
  moreover have "hub_step announces_itself ?s4 ?s5"
    using hub_step.receive_unregister [of ?s4 r announces_itself] by (simp add: set_reader_def)
  moreover have "hub_step announces_itself ?s5 ?s6"
    using hub_step.unregister [of ?s5 r ?h6 announces_itself] assms
    by (simp add: set_reader_def hub_unregister_def hub_start_def new_hub_def hub_defs Let_def)
  ultimately have "(hub_step announces_itself)\<^sup>*\<^sup>* hub_start ?s6"
    by (meson rtranclp.rtrancl_into_rtrancl rtranclp.rtrancl_refl)
  moreover have "deliver r m (hs_hub ?s6) = None"
    by (simp add: deliver_def try_send_def hub_defs)
  ultimately show ?thesis by (intro exI [of _ ?s6]) (simp add: set_reader_def)
qed

text \<open>
  C30. Two things break the map of the hosts. When a host connects again before its old connection is
  unregistered, unregistering the old one removes the new one's entry: the host is registered but
  every message for it is refused. When a client announces another host than its own, its entry for
  its own host survives it, and the next message for that host is sent on a closed channel, which
  panics.
\<close>

theorem hub_stale_hosts:
  assumes "hb_store h r1 = None" "hb_store h r2 = None" "r1 \<noteq> r2"
    and "wi_host_id w1 = i" "wi_host_id w2 = i" "0 < i" "j \<noteq> i"
  shows "(\<exists>h1. hub_unregister r1 (hub_connect r2 w2 (hub_connect r1 w1 h)) = Some h1 \<and>
      r2 \<in> hb_clients h1 \<and> send_to_host i m h1 = Some (False, h1)) \<and>
    (\<exists>h1 h2. read_message r1 (Register_host_message nm (Some j)) (hub_connect r1 w1 h) = Continue h1 \<and>
      hub_unregister r1 h1 = Some h2 \<and> send_to_host i m h2 = None)"
  using assms
  by (auto simp: hub_unregister_def read_message_def send_to_host_def deliver_def announce_def enter_host_def
      try_send_def hub_defs Let_def split: option.splits)

text \<open>
  C17. A client that does not read can stop the server: in any run, if its channel is full when a
  broadcast is delivered, the hub closes the channel, and a ping that the client has sent is then
  answered on the closed channel in \<open>readPump\<close>, which nothing recovers.
\<close>

theorem full_channel_ping_crashes:
  assumes "(hub_step allow)\<^sup>*\<^sup>* hub_start s" "r \<in> hb_clients (hs_hub s)"
    and "hb_store (hs_hub s) r = Some c" "length (wc_send c) = 256"
    and "hb_broadcast (hs_hub s) = m # ms" "distinct order" "set order = hb_clients (hs_hub s)"
  shows "\<exists>h. hub_broadcast order (hs_hub s) = Some h \<and> read_message r Ping_message h = Crashes"
proof -
  let ?h = "(hs_hub s)\<lparr>hb_broadcast := ms\<rparr>"
  have "\<exists>c. hb_store ?h x = Some c \<and> \<not> wc_closed c" if "x \<in> set order" for x
    using registered_open [of s x] hub_reachable [OF assms(1)] assms(7) that by auto
  then obtain h where "broadcast_loop m order ?h = Some h" "hb_store h r = Some (c\<lparr>wc_closed := True\<rparr>)"
    using broadcast_loop_full [of order ?h r c m] assms(2-4,6,7) by (auto simp: channel_size_def)
  then show ?thesis using assms(5) by (simp add: hub_broadcast_def read_message_def try_send_def)
qed

section \<open>Witnesses\<close>

text \<open>A run: host 7 connects and sends \<open>n\<close> pings that its connection does not take.\<close>

definition demo_id :: ws_identity where
  "demo_id = \<lparr>wi_host_id = 7, wi_hostname = ''h'', wi_session = [], wi_is_host = True\<rparr>"

definition demo_hub :: "hub_message list \<Rightarrow> hub_message list \<Rightarrow> hub" where
  "demo_hub q b =
     \<lparr>hb_store = [1 \<mapsto> \<lparr>wi_host_id = 7, wi_hostname = ''h'', wi_session = [], wi_is_host = True,
        wc_send = q, wc_closed = False\<rparr>],
      hb_clients = {1}, hb_hosts = [7 \<mapsto> 1], hb_broadcast = b\<rparr>"

definition demo_state :: "nat \<Rightarrow> hub_message list \<Rightarrow> hub_system" where
  "demo_state n b =
     \<lparr>hs_hub = demo_hub (replicate n Pong) b, hs_loop = Idle, hs_reader = (\<lambda>_. Listening), hs_writer = (\<lambda>_. Waiting),
      hs_sends = [], hs_shut = {}, hs_who = [1 \<mapsto> demo_id],
      hs_accepted = (\<lambda>r. if r = 1 then replicate n Pong else []), hs_frames = (\<lambda>_. []), hs_lost = (\<lambda>_. [])\<rparr>"

lemma demo_pings: "n \<le> 256 \<Longrightarrow> (hub_step announces_itself)\<^sup>*\<^sup>* hub_start (demo_state n [])"
proof (induction n)
  case 0
  let ?s = "hub_start\<lparr>hs_hub := set_client 1 (new_client demo_id) new_hub, hs_who := [1 \<mapsto> demo_id], hs_loop := Registering 1\<rparr>"
  have "hub_step announces_itself hub_start ?s"
    using hub_step.connect [of hub_start 1 announces_itself demo_id] by (simp add: hub_start_def new_hub_def)
  moreover have "hub_step announces_itself ?s (demo_state 0 [])"
    using hub_step.register [of ?s 1 "new_client demo_id" announces_itself]
    by (simp add: hub_start_def new_hub_def demo_state_def demo_hub_def demo_id_def hub_defs cong: if_cong)
  ultimately show ?case by auto
next
  case (Suc n)
  have "read_message 1 Ping_message (hs_hub (demo_state n [])) = Continue (demo_hub (replicate (Suc n) Pong) [])"
    using Suc.prems
    by (simp add: read_message_def try_send_def demo_state_def demo_hub_def channel_size_def set_client_def
        replicate_append_same flip: replicate_Suc)
  then have "hub_step announces_itself (demo_state n [])
      (accept {1} Pong (demo_state n [])\<lparr>hs_hub := demo_hub (replicate (Suc n) Pong) []\<rparr>)"
    by (intro hub_step.ping) (simp_all add: demo_state_def)
  moreover have "accept {1} Pong (demo_state n [])\<lparr>hs_hub := demo_hub (replicate (Suc n) Pong) []\<rparr> = demo_state (Suc n) []"
    by (simp add: demo_state_def accept_def fun_eq_iff replicate_append_same)
  ultimately have "hub_step announces_itself (demo_state n []) (demo_state (Suc n) [])" by simp
  then show ?case using Suc by auto
qed

lemma demo_status: "n \<le> 256 \<Longrightarrow> (hub_step announces_itself)\<^sup>*\<^sup>* hub_start (demo_state n [Host_status_update 7 ''up''])"
proof -
  assume "n \<le> 256"
  let ?msg = "Status_update_message (Some ''up'')"
  have "read_message 1 ?msg (hs_hub (demo_state n [])) = Continue (demo_hub (replicate n Pong) [Host_status_update 7 ''up''])"
    by (simp add: read_message_def broadcast_host_status_def send_to_all_def demo_state_def demo_hub_def
        channel_size_def)
  then have "hub_step announces_itself (demo_state n [])
      (demo_state n []\<lparr>hs_hub := demo_hub (replicate n Pong) [Host_status_update 7 ''up'']\<rparr>)"
    by (intro hub_step.read [of _ 1 ?msg]) (simp_all add: demo_state_def announces_itself_def)
  then have "hub_step announces_itself (demo_state n []) (demo_state n [Host_status_update 7 ''up''])"
    by (simp add: demo_state_def)
  then show ?thesis using demo_pings [OF \<open>n \<le> 256\<close>] by auto
qed

text \<open>A message for host 7 that has been looked up and not been sent yet.\<close>

lemma demo_sends: "(hub_step announces_itself)\<^sup>*\<^sup>* hub_start (demo_state 0 []\<lparr>hs_sends := [(7, 1, Pong)]\<rparr>)"
proof -
  have "hub_step announces_itself (demo_state 0 []) (demo_state 0 []\<lparr>hs_sends := [(7, 1, Pong)]\<rparr>)"
    using hub_step.look_up [of "demo_state 0 []" 7 1 announces_itself Pong] by (simp add: demo_state_def demo_hub_def)
  then show ?thesis using demo_pings [of 0] by auto
qed

lemma hub_writes_in_order_witness:
  "\<exists>s'. (hub_step announces_itself)\<^sup>*\<^sup>* (demo_state 2 []) s' \<and> hs_frames s' 1 = [[Pong, Pong]]"
proof -
  have "(hub_step announces_itself)\<^sup>*\<^sup>* hub_start (demo_state 2 [])" by (rule demo_pings) simp
  from hub_writes_in_order [OF this, of 1] show ?thesis
    by (auto simp: demo_state_def demo_hub_def numeral_2_eq_2 write_pump_def take_message_def)
qed

lemma write_pump_ends_witness:
  "pump_loop [Channel_ready True False] (the (hb_store (hs_hub (demo_state 1 [])) 1)) =
     ([], Pump_failed [Pong] (the (hb_store (demo_hub [] []) 1))) \<and>
   hs_accepted (demo_state 1 []) 1 = [Pong]"
proof -
  have "(hub_step announces_itself)\<^sup>*\<^sup>* hub_start (demo_state 1 [])" by (rule demo_pings) simp
  moreover have p: "pump_loop [Channel_ready True False] (the (hb_store (hs_hub (demo_state 1 [])) 1)) =
      ([], Pump_failed [Pong] (the (hb_store (demo_hub [] []) 1)))"
    by (simp add: demo_state_def demo_hub_def write_pump_def take_message_def)
  ultimately show ?thesis
    using write_pump_ends [of announces_itself "demo_state 1 []" 1 _ "[Channel_ready True False]"]
    by (simp add: demo_state_def demo_hub_def)
qed

lemma reader_answers_and_leaves_witness:
  "\<exists>h. read_pump 1 [Read_gives 15 (Some Ping_message), Read_gives 600 None, Read_fails] (demo_hub [] []) = Unregistered h \<and>
     1 \<notin> hb_clients h \<and> hb_hosts h 7 = None \<and> map_option wc_send (hb_store h 1) = Some [Pong]"
proof -
  let ?es = "[Read_gives 15 (Some Ping_message), Read_gives 600 None, Read_fails]"
  have "heard ?es = [Read_gives 15 (Some Ping_message)]" by (simp add: heard_def)
  then show ?thesis
    using reader_answers_and_leaves [of "demo_hub [] []" 1 "the (hb_store (demo_hub [] []) 1)" ?es]
    by (auto simp: demo_hub_def reader_result_def simp del: read_pump.simps)
qed

lemma hub_reaches_only_the_host_witness:
  "\<exists>h. deliver 1 Pong (hs_hub (demo_state 0 []\<lparr>hs_sends := [(7, 1, Pong)]\<rparr>)) = Some (True, h)"
  using hub_reaches_only_the_host [OF demo_sends] by (simp add: demo_state_def demo_hub_def)

lemma hub_stale_hosts_witness:
  "\<exists>h1. hub_unregister 1 (hub_connect 2 demo_id (hub_connect 1 demo_id new_hub)) = Some h1 \<and>
     2 \<in> hb_clients h1 \<and> send_to_host 7 Pong h1 = Some (False, h1)"
  using hub_stale_hosts [of new_hub 1 2 demo_id 7 demo_id 8] by (simp add: new_hub_def demo_id_def)

lemma full_channel_ping_crashes_witness:
  "\<exists>h. hub_broadcast [1] (demo_hub (replicate 256 Pong) [Host_status_update 7 ''up'']) = Some h \<and>
     read_message 1 Ping_message h = Crashes"
proof -
  have "(hub_step announces_itself)\<^sup>*\<^sup>* hub_start (demo_state 256 [Host_status_update 7 ''up''])"
    by (rule demo_status) simp
  from full_channel_ping_crashes [OF this, of 1 _ _ _ "[1]"] show ?thesis
    by (simp add: demo_state_def demo_hub_def)
qed

end
