(* ===== verification/Agent_Config.thy ===== *)
theory Agent_Config
  imports Json_Value
begin

text \<open>
  The configuration manager of the host agent (\<open>host-agent/internal/config/manager.go\<close>). The
  callback that applies a configuration is an argument with a state of its own; a nil callback is one
  that succeeds and does nothing. \<open>DeepCopy\<close> is not
  modelled: the variable \<open>copy\<close> hides the built-in it calls, so it is no Go program.
\<close>

record local_config =
  lc_dns_servers :: "string list"
  lc_whitelist :: "string list"
  lc_blacklist :: "string list"
  lc_default_ttl :: int
  lc_max_ttl :: int
  lc_min_ttl :: int
  lc_refresh_interval :: int
  lc_restrict :: bool
  lc_interface :: string
  lc_use_ebpf :: bool
  lc_use_iptables :: bool

record config_manager =
  cm_current :: "local_config option"
  cm_path :: string
  cm_source :: string
  cm_updated :: time

section \<open>Start\<close>

definition fallback_config :: local_config where
  "fallback_config =
     \<lparr>lc_dns_servers = [''8.8.8.8:53'', ''1.1.1.1:53''], lc_whitelist = [], lc_blacklist = [],
      lc_default_ttl = 300, lc_max_ttl = 86400, lc_min_ttl = 5, lc_refresh_interval = 300,
      lc_restrict = True, lc_interface = ''eth0'', lc_use_ebpf = True, lc_use_iptables = False\<rparr>"

text \<open>\<open>file\<close> is the decoded content of the configuration file, or the error of reading or decoding it.\<close>

definition load_local_config :: "(string \<Rightarrow> string + local_config) \<Rightarrow> config_manager \<Rightarrow> string ret \<times> config_manager" where
  "load_local_config file cm =
     (if cm_path cm = [] then (Err ''config path not set'', cm)
      else (case file (cm_path cm) of
              Inl e \<Rightarrow> (Err e, cm)
            | Inr c \<Rightarrow> (Nil_ret, cm\<lparr>cm_current := Some c, cm_source := ''local''\<rparr>)))"

definition new_config_manager ::
  "(string \<Rightarrow> string + local_config) \<Rightarrow> string \<Rightarrow> clock \<Rightarrow> config_manager \<times> clock" where
  "new_config_manager file path ck =
     (let (t, ck1) = now ck;
          cm = \<lparr>cm_current = None, cm_path = path, cm_source = ''local'', cm_updated = t\<rparr>
      in (case load_local_config file cm of
            (Nil_ret, cm1) \<Rightarrow> (cm1, ck1)
          | (_, cm1) \<Rightarrow> (cm1\<lparr>cm_current := Some fallback_config\<rparr>, ck1)))"

section \<open>Comparison\<close>

definition string_slices_equal :: "string list \<Rightarrow> string list \<Rightarrow> bool" where
  "string_slices_equal a b \<longleftrightarrow> length a = length b \<and> list_all (\<lambda>s. s \<in> set a) b"

fun configs_equal :: "local_config option \<Rightarrow> local_config option \<Rightarrow> bool" where
  "configs_equal None None = True"
| "configs_equal (Some a) (Some b) \<longleftrightarrow>
     string_slices_equal (lc_dns_servers a) (lc_dns_servers b) \<and>
     string_slices_equal (lc_whitelist a) (lc_whitelist b) \<and>
     string_slices_equal (lc_blacklist a) (lc_blacklist b) \<and>
     lc_default_ttl a = lc_default_ttl b \<and> lc_max_ttl a = lc_max_ttl b \<and> lc_min_ttl a = lc_min_ttl b \<and>
     lc_refresh_interval a = lc_refresh_interval b \<and> lc_restrict a = lc_restrict b \<and>
     lc_interface a = lc_interface b \<and> lc_use_ebpf a = lc_use_ebpf b \<and>
     lc_use_iptables a = lc_use_iptables b"
| "configs_equal _ _ = False"

section \<open>Setting a configuration\<close>

text \<open>
  \<open>SetConfig\<close>. A \<open>nil\<close> configuration that differs from the current one is stored and then
  dereferenced by the log of the changes, which panics. A callback that fails puts the old
  configuration back, but not the source and the time.
\<close>

definition set_config ::
  "(local_config \<Rightarrow> 'st \<Rightarrow> string option \<times> 'st) \<Rightarrow> local_config option \<Rightarrow> string \<Rightarrow>
   config_manager \<Rightarrow> 'st \<Rightarrow> clock \<Rightarrow> string ret \<times> config_manager \<times> 'st \<times> clock" where
  "set_config apply config source cm st ck =
     (if configs_equal (cm_current cm) config then (Nil_ret, cm, st, ck)
      else
        (let old = cm_current cm; (t, ck1) = now ck;
             cm1 = cm\<lparr>cm_current := config, cm_source := source, cm_updated := t\<rparr>
         in (case config of
               None \<Rightarrow> (Panic ''nil pointer dereference'', cm1, st, ck1)
             | Some c \<Rightarrow>
                 (case apply c st of
                    (Some e, st1) \<Rightarrow> (Err e, cm1\<lparr>cm_current := old\<rparr>, st1, ck1)
                  | (None, st1) \<Rightarrow> (Nil_ret, cm1, st1, ck1)))))"

definition only_strings :: "json_value list \<Rightarrow> string list" where
  "only_strings vs = List.map_filter as_string vs"

text \<open>\<open>convertToLocalConfig\<close>: the fields with the wrong type keep their default.\<close>

definition convert_to_local_config :: "json_value \<Rightarrow> local_config option" where
  "convert_to_local_config v =
     (case as_object v of
        None \<Rightarrow> None
      | Some sc \<Rightarrow>
          (let texts = (\<lambda>k. case field as_list k sc of Some vs \<Rightarrow> only_strings vs | None \<Rightarrow> []);
               num = (\<lambda>k d. case field as_number k sc of Some n \<Rightarrow> n | None \<Rightarrow> d)
           in Some
             \<lparr>lc_dns_servers = texts ''allowed_dns_resolvers'', lc_whitelist = texts ''whitelisted_domains'',
              lc_blacklist = texts ''blacklisted_domains'',
              lc_default_ttl = num ''default_ttl'' 300, lc_max_ttl = num ''max_ttl'' 86400,
              lc_min_ttl = num ''min_ttl'' 5, lc_refresh_interval = num ''refresh_interval'' 300,
              lc_restrict = (case field as_bool ''restrict_to_allowed_dns'' sc of Some b \<Rightarrow> b | None \<Rightarrow> True),
              lc_interface = ''eth0'', lc_use_ebpf = True, lc_use_iptables = False\<rparr>))"

definition set_server_config ::
  "(local_config \<Rightarrow> 'st \<Rightarrow> string option \<times> 'st) \<Rightarrow> json_value \<Rightarrow>
   config_manager \<Rightarrow> 'st \<Rightarrow> clock \<Rightarrow> string ret \<times> config_manager \<times> 'st \<times> clock" where
  "set_server_config apply v cm st ck = set_config apply (convert_to_local_config v) ''server'' cm st ck"

text \<open>\<open>SaveToFile\<close>: the content it writes, if the directory and the file can be written.\<close>

definition save_to_file ::
  "(string \<Rightarrow> string option) \<Rightarrow> (string \<Rightarrow> local_config option \<Rightarrow> string option) \<Rightarrow> config_manager \<Rightarrow> string ret" where
  "save_to_file mkdir_for write cm =
     (if cm_path cm = [] then Err ''config path not set''
      else (case mkdir_for (cm_path cm) of
              Some e \<Rightarrow> Err e
            | None \<Rightarrow> (case write (cm_path cm) (cm_current cm) of Some e \<Rightarrow> Err e | None \<Rightarrow> Nil_ret)))"

section \<open>Lemmas\<close>

lemma as_list_strings [simp]: "as_list (strings ss) = Some (map Json_string ss)"
  by (simp add: strings_def)

lemma only_strings_map [simp]: "only_strings (map Json_string ss) = ss"
  by (simp add: only_strings_def List.map_filter_def filter_map comp_def)

text \<open>For a new list without repetitions, the comparison is equality up to the order.\<close>

lemma string_slices_equal_distinct:
  assumes "distinct b"
  shows "string_slices_equal a b \<longleftrightarrow> distinct a \<and> set a = set b"
proof
  assume e: "string_slices_equal a b"
  then have sub: "set b \<subseteq> set a" and len: "length a = length b"
    by (auto simp: string_slices_equal_def list_all_iff)
  have cb: "card (set b) = length a" using assms len by (simp add: distinct_card)
  have "set b = set a" by (rule card_seteq [OF finite_set sub]) (use cb in \<open>simp add: card_length\<close>)
  then show "distinct a \<and> set a = set b" using cb by (auto intro: card_distinct)
next
  assume "distinct a \<and> set a = set b"
  then show "string_slices_equal a b"
    using assms by (auto simp: string_slices_equal_def list_all_iff simp flip: distinct_card)
qed

lemma string_slices_equal_refl [simp]: "string_slices_equal a a"
  by (auto simp: string_slices_equal_def list_all_iff)

lemma configs_equal_refl [simp]: "configs_equal c c"
  by (cases c) auto

end
