(* ===== verification/Agent_Client.thy ===== *)
theory Agent_Client
  imports Agent_Config Go_Strings Json_Doc
begin

text \<open>
  The host agent's client of the configuration server (\<open>host-agent/internal/config/client.go\<close>). What
  the transport delivers is an argument: an answer to an HTTP request, the outcome of a WebSocket
  dial, the decoded messages. The callback for a configuration is a function on a state of its own;
  the other callbacks only report and are left out, as are log lines.
\<close>

record agent =
  ag_server_url :: string
  ag_hostname :: string
  ag_host_id :: int
  ag_certificate :: string
  ag_ws :: bool
  ag_connected :: bool
  ag_stopped :: bool
  ag_reconnect :: bool
  ag_monitors :: nat

text \<open>
  \<open>ag_ws\<close>: a connection is open; \<open>ag_stopped\<close>: \<open>stopChan\<close> is closed; \<open>ag_reconnect\<close>: the channel of
  one reconnection token is full; \<open>ag_monitors\<close>: how often the goroutines \<open>keepalive\<close> and
  \<open>monitorConnection\<close> were started.
\<close>

definition new_config_client :: "string \<Rightarrow> string \<Rightarrow> string + string \<Rightarrow> string + agent" where
  "new_config_client url hostname os_hostname =
     (if url = [] then Inl ''server URL is required''
      else
        (let url1 = (if \<not> has_suffix url ''/'' then url @ ''/'' else url);
             made = (\<lambda>nm. \<lparr>ag_server_url = url1, ag_hostname = nm, ag_host_id = 0, ag_certificate = [],
               ag_ws = False, ag_connected = False, ag_stopped = False, ag_reconnect = False, ag_monitors = 0\<rparr>)
         in if hostname = [] then
              (case os_hostname of Inl e \<Rightarrow> Inl (''failed to get hostname: '' @ e) | Inr nm \<Rightarrow> Inr (made nm))
            else Inr (made hostname)))"

section \<open>Registration\<close>

text \<open>An answer: its status and its body, decoded as a JSON object or not decodable.\<close>

datatype http_answer = No_answer string | Answer nat "(string \<times> json_value) list option"

text \<open>The body of the request.\<close>

definition registration_data :: "agent \<Rightarrow> (string \<times> json_doc) list" where
  "registration_data a =
     [(''hostname'', Doc_string (ag_hostname a)), (''ip_address'', Doc_string ''127.0.0.1''),
      (''status'', Doc_string ''unconfigured'')] @
     (if ag_certificate a \<noteq> [] then [(''certificate_fingerprint'', Doc_string (''placeholder-'' @ ag_hostname a))]
      else [])"

text \<open>The inner type assertion has no second result: it panics when \<open>data\<close> is no object.\<close>

definition register_agent :: "http_answer \<Rightarrow> agent \<Rightarrow> string ret \<times> agent" where
  "register_agent ans a =
     (case ans of
        No_answer e \<Rightarrow> (Err e, a)
      | Answer code body \<Rightarrow>
          if code \<noteq> 200 \<and> code \<noteq> 201 then (Err ''registration failed'', a)
          else
            (case body of
               None \<Rightarrow> (Err ''invalid response'', a)
             | Some response \<Rightarrow>
                 (case field as_object ''data'' response of
                    None \<Rightarrow> (Panic ''interface conversion'', a)
                  | Some data \<Rightarrow>
                      (case field as_number ''id'' data of
                         Some i \<Rightarrow> (Nil_ret, a\<lparr>ag_host_id := i\<rparr>)
                       | None \<Rightarrow> (Err ''no host ID in registration response'', a)))))"

section \<open>Connection\<close>

text \<open>\<open>connectWebSocket\<close>: \<open>dial\<close> is the error of dialling, if any. Then a registration is announced.\<close>

definition connect_web_socket :: "string option \<Rightarrow> agent \<Rightarrow> string ret \<times> agent" where
  "connect_web_socket dial a = (case dial of Some e \<Rightarrow> (Err e, a) | None \<Rightarrow> (Nil_ret, a\<lparr>ag_ws := True\<rparr>))"

definition announcement :: "agent \<Rightarrow> (string \<times> json_value) list" where
  "announcement a =
     [(''type'', Json_string ''register_host''), (''hostname'', Json_string (ag_hostname a)),
      (''host_id'', Json_number (ag_host_id a))]"

definition agent_connect :: "http_answer \<Rightarrow> string option \<Rightarrow> agent \<Rightarrow> string ret \<times> agent" where
  "agent_connect ans dial a =
     (if ag_connected a then (Nil_ret, a)
      else
        (case register_agent ans a of
           (Err e, a1) \<Rightarrow> (Err (''failed to register host: '' @ e), a1)
         | (Panic e, a1) \<Rightarrow> (Panic e, a1)
         | (Nil_ret, a1) \<Rightarrow>
             (case connect_web_socket dial a1 of
                (Err e, a2) \<Rightarrow> (Err (''failed to connect WebSocket: '' @ e), a2)
              | (Panic e, a2) \<Rightarrow> (Panic e, a2)
              | (Nil_ret, a2) \<Rightarrow> (Nil_ret, a2\<lparr>ag_connected := True, ag_monitors := ag_monitors a2 + 1\<rparr>))))"

text \<open>Closing \<open>stopChan\<close> a second time panics; nothing makes a new one.\<close>

definition disconnect :: "agent \<Rightarrow> unit ret \<times> agent" where
  "disconnect a =
     (if \<not> ag_connected a then (Nil_ret, a)
      else if ag_stopped a then (Panic ''close of closed channel'', a)
      else (Nil_ret, a\<lparr>ag_stopped := True, ag_ws := False, ag_connected := False\<rparr>))"

definition trigger_reconnect :: "agent \<Rightarrow> agent" where
  "trigger_reconnect a = a\<lparr>ag_reconnect := True\<rparr>"

text \<open>
  A turn of \<open>monitorConnection\<close> that takes a token: it connects again and puts the token back when
  that fails; a panic in \<open>Connect\<close> ends the process.
\<close>

definition monitor_turn :: "http_answer \<Rightarrow> string option \<Rightarrow> agent \<Rightarrow> string ret \<times> agent" where
  "monitor_turn ans dial a =
     (case agent_connect ans dial (a\<lparr>ag_reconnect := False, ag_connected := False\<rparr>) of
        (Err e, a1) \<Rightarrow> (Err e, trigger_reconnect a1)
      | r \<Rightarrow> r)"

text \<open>A tick of \<open>keepalive\<close>: \<open>sent\<close> is the error of the write. It sends only while connected.\<close>

definition keepalive_tick :: "string option \<Rightarrow> agent \<Rightarrow> agent" where
  "keepalive_tick sent a =
     (if ag_ws a \<and> ag_connected a then (case sent of Some _ \<Rightarrow> trigger_reconnect a | None \<Rightarrow> a) else a)"

text \<open>\<open>SetTLSConfig\<close>; of the three paths only the certificate's is read again.\<close>

definition set_tls_config :: "string \<Rightarrow> agent \<Rightarrow> agent" where
  "set_tls_config cert a = a\<lparr>ag_certificate := cert\<rparr>"

section \<open>Messages and polling\<close>

text \<open>
  What \<open>handleWebSocketMessages\<close> does with a message it has read: \<open>None\<close> is text that is not one
  JSON object. A configuration that is converted goes to the callback, whose error is only reported.
\<close>

definition handle_configuration_update ::
  "(local_config \<Rightarrow> 'st \<Rightarrow> string option \<times> 'st) \<Rightarrow> (string \<times> json_value) list \<Rightarrow> 'st \<Rightarrow> 'st" where
  "handle_configuration_update on_update config st =
     (case convert_to_local_config (Json_object config) of None \<Rightarrow> st | Some c \<Rightarrow> snd (on_update c st))"

definition handle_message ::
  "(local_config \<Rightarrow> 'st \<Rightarrow> string option \<times> 'st) \<Rightarrow> (string \<times> json_value) list option \<Rightarrow> 'st \<Rightarrow> 'st" where
  "handle_message on_update message st =
     (case message of
        None \<Rightarrow> st
      | Some msg \<Rightarrow>
          (case field as_string ''type'' msg of
             None \<Rightarrow> st
           | Some ty \<Rightarrow>
               if ty = ''configuration_update'' then
                 (case field as_object ''configuration'' msg of
                    Some config \<Rightarrow> handle_configuration_update on_update config st
                  | None \<Rightarrow> st)
               else st))"

text \<open>\<open>GetConfiguration\<close>; \<open>reg\<close> answers the registration it starts with when it has no id yet.\<close>

definition fetch_configuration ::
  "http_answer \<Rightarrow> http_answer \<Rightarrow> agent \<Rightarrow> (string ret + local_config) \<times> agent" where
  "fetch_configuration reg ans a =
     (case (if ag_host_id a = 0 then register_agent reg a else (Nil_ret, a)) of
        (Nil_ret, a1) \<Rightarrow>
          (case ans of
             No_answer e \<Rightarrow> (Inl (Err e), a1)
           | Answer code body \<Rightarrow>
               if code \<noteq> 200 then (Inl (Err ''failed to get configuration''), a1)
               else
                 (case body of
                    None \<Rightarrow> (Inl (Err ''invalid response''), a1)
                  | Some response \<Rightarrow>
                      (case field as_object ''data'' response of
                         Some data \<Rightarrow>
                           (case convert_to_local_config (Json_object data) of
                              Some c \<Rightarrow> (Inr c, a1)
                            | None \<Rightarrow> (Inl (Err ''no configuration in response''), a1))
                       | None \<Rightarrow> (Inl (Err ''no configuration in response''), a1))))
      | (r, a1) \<Rightarrow> (Inl r, a1))"

text \<open>A tick of \<open>PollConfiguration\<close>; \<open>None\<close> is a panic, which nothing recovers there.\<close>

definition poll_tick ::
  "(local_config \<Rightarrow> 'st \<Rightarrow> string option \<times> 'st) \<Rightarrow> http_answer \<Rightarrow> http_answer \<Rightarrow> agent \<Rightarrow> 'st \<Rightarrow>
   (agent \<times> 'st) option" where
  "poll_tick on_update reg ans a st =
     (case fetch_configuration reg ans a of
        (Inr c, a1) \<Rightarrow> Some (a1, snd (on_update c st))
      | (Inl (Panic _), a1) \<Rightarrow> None
      | (Inl _, a1) \<Rightarrow> Some (a1, st))"

end
