(* ===== verification/Agent_Link.thy ===== *)
theory Agent_Link
  imports Server_Json Agent_Client Json_Request
begin

text \<open>
  The host agent's client against the configuration server: what the server's answers and messages,
  as \<open>Server_Json\<close> writes them, do to the client of \<open>Agent_Client\<close>.
\<close>

section \<open>Both ends together\<close>

text \<open>The server's answers to the agent's two requests. The router's parameter is the text of the id.\<close>

definition registration_answer ::
  "(time \<Rightarrow> string) \<Rightarrow> request_headers \<Rightarrow> agent \<Rightarrow> database \<Rightarrow> clock \<Rightarrow> http_answer \<times> database \<times> clock" where
  "registration_answer tt hdr a db ck =
     (let ((code, resp), db1, ck1) = register_host hdr (register_body [] (Some (Doc_object (registration_data a)))) db ck
      in (Answer code (Some (response_fields (json_of_host_data tt) resp)), db1, ck1))"

definition configuration_answer :: "(time \<Rightarrow> string) \<Rightarrow> string \<Rightarrow> database \<Rightarrow> http_answer \<times> database" where
  "configuration_answer tt idstr db =
     (let ((code, resp), db1) = get_host_configuration idstr db
      in (Answer code (Some (response_fields (json_of_host_data tt) resp)), db1))"

record 'st link =
  ln_agent :: agent
  ln_db :: database
  ln_clock :: clock
  ln_state :: 'st

text \<open>
  The steps of an agent and a server: the agent connects, its monitor reconnects, its keepalive
  ticks, it disconnects, it polls, it is given a certificate; a request may get no answer at all, dialling may have any
  outcome, a poll may be answered in any way. Others may change the database.
\<close>

inductive link_step ::
  "(time \<Rightarrow> string) \<Rightarrow> (local_config \<Rightarrow> 'st \<Rightarrow> string option \<times> 'st) \<Rightarrow> 'st link \<Rightarrow> 'st link \<Rightarrow> bool" for tt upd where
  connect: "registration_answer tt hdr (ln_agent l) (ln_db l) (ln_clock l) = (ans, db, ck) \<Longrightarrow>
    agent_connect ans dial (ln_agent l) = (r, a) \<Longrightarrow>
    link_step tt upd l (l\<lparr>ln_agent := a, ln_db := db, ln_clock := ck\<rparr>)"
| connect_unanswered: "agent_connect (No_answer e) dial (ln_agent l) = (r, a) \<Longrightarrow>
    link_step tt upd l (l\<lparr>ln_agent := a\<rparr>)"
| monitor: "registration_answer tt hdr (ln_agent l) (ln_db l) (ln_clock l) = (ans, db, ck) \<Longrightarrow>
    monitor_turn ans dial (ln_agent l) = (r, a) \<Longrightarrow>
    link_step tt upd l (l\<lparr>ln_agent := a, ln_db := db, ln_clock := ck\<rparr>)"
| keepalive: "link_step tt upd l (l\<lparr>ln_agent := keepalive_tick sent (ln_agent l)\<rparr>)"
| reconnect: "link_step tt upd l (l\<lparr>ln_agent := trigger_reconnect (ln_agent l)\<rparr>)"
| disconnect: "disconnect (ln_agent l) = (r, a) \<Longrightarrow> link_step tt upd l (l\<lparr>ln_agent := a\<rparr>)"
| poll: "registration_answer tt hdr (ln_agent l) (ln_db l) (ln_clock l) = (reg, db, ck) \<Longrightarrow>
    poll_tick upd reg ans (ln_agent l) (ln_state l) = Some (a, st) \<Longrightarrow>
    link_step tt upd l (l\<lparr>ln_agent := a, ln_db := db, ln_clock := ck, ln_state := st\<rparr>)"
| tls: "link_step tt upd l (l\<lparr>ln_agent := set_tls_config cert (ln_agent l)\<rparr>)"
| others: "link_step tt upd l (l\<lparr>ln_db := db\<rparr>)"

section \<open>Lemmas\<close>

lemma response_data:
  "field as_object ''data'' (response_fields enc r) = (case ar_data r of Some d \<Rightarrow> as_object (enc d) | None \<Rightarrow> None)"
  by (auto simp: response_fields_def split: option.splits)

text \<open>A registration that succeeds is answered with the host below \<open>host\<close>.\<close>

definition host_reply :: "host_data http_result \<times> 'x \<Rightarrow> bool" where
  "host_reply r \<longleftrightarrow> (fst (fst r) \<in> {200, 201} \<longrightarrow> (\<exists>h. ar_data (snd (fst r)) = Some (Host_data h)))"

lemma host_reply_leaf:
  "code \<noteq> 200 \<and> code \<noteq> 201 \<Longrightarrow> ensures host_reply (write_error code msg e, x)"
  "ensures host_reply (write_ok code msg (Some (Host_data h)), x)"
  by (simp_all add: ensures_def host_reply_def write_error_def write_ok_def new_success_response_def)

text \<open>The server decodes the agent's registration without error.\<close>

lemma registration_decoded:
  "register_body wording (Some (Doc_object (registration_data a))) = Inr
     \<lparr>rr_hostname = ag_hostname a, rr_ip = ''127.0.0.1'',
      rr_fingerprint = (if ag_certificate a \<noteq> [] then ''placeholder-'' @ ag_hostname a else []),
      rr_status = ''unconfigured''\<rparr>"
  by (simp add: register_body_def decode_body_def registration_data_def field_of_def)

lemma register_host_data:
  assumes "register_host hdr body db ck = ((code, resp), db', ck')"
  shows "code \<in> {200, 201} \<longrightarrow> (\<exists>h. ar_data resp = Some (Host_data h))"
proof -
  have "ensures host_reply (register_host hdr body db ck)"
    unfolding register_host_def by (intro ensures_tree; rule host_reply_leaf; simp (no_asm))
  from ensuresD [OF this assms] show ?thesis by (simp add: host_reply_def)
qed

lemma register_agent_fails:
  assumes "registration_answer tt hdr a db ck = (ans, db', ck')"
  shows "\<exists>e. register_agent ans a' = (Err e, a')"
proof -
  obtain code resp db1 ck1 where r: "register_host hdr (register_body [] (Some (Doc_object (registration_data a)))) db ck =
      ((code, resp), db1, ck1)"
    by (metis prod.exhaust)
  then have ans: "ans = Answer code (Some (response_fields (json_of_host_data tt) resp))"
    using assms by (simp add: registration_answer_def)
  show ?thesis
  proof (cases "code \<in> {200, 201}")
    case True
    then obtain h where "ar_data resp = Some (Host_data h)" using register_host_data [OF r] by blast
    with True show ?thesis by (auto simp: ans register_agent_def response_data)
  qed (simp add: ans register_agent_def)
qed

definition unconnected :: "agent \<Rightarrow> bool" where
  "unconnected a \<longleftrightarrow> \<not> ag_connected a \<and> \<not> ag_ws a \<and> ag_monitors a = 0 \<and> ag_host_id a = 0"

lemma agent_connect_fails:
  assumes "\<exists>e. register_agent ans a = (Err e, a)" "\<not> ag_connected a"
  shows "\<exists>e. agent_connect ans dial a = (Err e, a)"
  using assms by (auto simp: agent_connect_def)

lemma link_step_unconnected:
  assumes "link_step tt upd l l'" "unconnected (ln_agent l)"
  shows "unconnected (ln_agent l') \<and> ln_state l' = ln_state l"
  using assms(1)
proof cases
  case (connect hdr ans db ck dial r a)
  obtain e where "agent_connect ans dial (ln_agent l) = (Err e, ln_agent l)"
    using agent_connect_fails register_agent_fails [OF connect(2)] assms(2) unfolding unconnected_def by metis
  with connect assms(2) show ?thesis by simp
next
  case (connect_unanswered e dial r a)
  then show ?thesis using assms(2) by (auto simp: agent_connect_def register_agent_def unconnected_def)
next
  case (monitor hdr ans db ck dial r a)
  let ?a = "(ln_agent l)\<lparr>ag_reconnect := False, ag_connected := False\<rparr>"
  obtain e where "agent_connect ans dial ?a = (Err e, ?a)"
    using agent_connect_fails [of ans ?a] register_agent_fails [OF monitor(2), of ?a] by auto
  with monitor assms(2) show ?thesis by (auto simp: monitor_turn_def trigger_reconnect_def unconnected_def)
next
  case (keepalive sent)
  then show ?thesis using assms(2) by (simp add: keepalive_tick_def unconnected_def)
next
  case reconnect
  then show ?thesis using assms(2) by (simp add: trigger_reconnect_def unconnected_def)
next
  case (disconnect r a)
  then show ?thesis using assms(2) by (auto simp: disconnect_def unconnected_def)
next
  case (poll hdr reg db ck ans a st)
  obtain e where "register_agent reg (ln_agent l) = (Err e, ln_agent l)" using register_agent_fails [OF poll(2)] by blast
  with poll assms(2) show ?thesis by (auto simp: poll_tick_def fetch_configuration_def unconnected_def)
next
  case (tls cert)
  then show ?thesis using assms(2) by (simp add: set_tls_config_def unconnected_def)
next
  case (others db)
  then show ?thesis using assms(2) by simp
qed

lemma link_unconnected:
  assumes "(link_step tt upd)\<^sup>*\<^sup>* l0 l" "unconnected (ln_agent l0)"
  shows "unconnected (ln_agent l) \<and> ln_state l = ln_state l0"
  using assms by (induction rule: rtranclp_induct) (use link_step_unconnected in fastforce)+

lemma new_config_client_unconnected: "new_config_client url nm os = Inr a \<Longrightarrow> unconnected a"
  by (auto simp: new_config_client_def Let_def unconnected_def split: if_splits sum.splits)

text \<open>What a configuration of the server is for the agent.\<close>

definition agent_view :: "configuration \<Rightarrow> local_config" where
  "agent_view c =
     \<lparr>lc_dns_servers = cf_dns_servers c, lc_whitelist = cf_whitelist c, lc_blacklist = cf_blacklist c,
      lc_default_ttl = cf_default_ttl c, lc_max_ttl = cf_max_ttl c, lc_min_ttl = cf_min_ttl c,
      lc_refresh_interval = cf_refresh_interval c, lc_restrict = cf_restrict c,
      lc_interface = ''eth0'', lc_use_ebpf = True, lc_use_iptables = False\<rparr>"

lemma convert_egress:
  assumes "\<bar>cf_default_ttl c\<bar> < 2 ^ 53" "\<bar>cf_max_ttl c\<bar> < 2 ^ 53" "\<bar>cf_min_ttl c\<bar> < 2 ^ 53"
    "\<bar>cf_refresh_interval c\<bar> < 2 ^ 53"
  shows "convert_to_local_config (json_of_egress (convert_to_egress_config c)) = Some (agent_view c)"
  using assms [THEN float53_exact]
  by (simp add: convert_to_local_config_def json_of_egress_def convert_to_egress_config_def agent_view_def Let_def)

lemma json_of_egress_object: "\<exists>fs. json_of_egress e = Json_object fs"
  by (simp add: json_of_egress_def)

lemma handle_pushed:
  assumes "convert_to_local_config (json_of_egress e) = Some lc"
  shows "handle_message upd (decode_frame stamp [Full_configuration e]) st = snd (upd lc st)"
proof -
  obtain fs where "json_of_egress e = Json_object fs" using json_of_egress_object by blast
  with assms show ?thesis by (simp add: handle_message_def handle_configuration_update_def)
qed

section \<open>Properties\<close>

text \<open>
  C7. Against this server the agent never connects: from its start on, whatever it and others do,
  it has no host id, no connection and no reconnecting monitor, its callback has never received a
  configuration, and every further attempt fails without changing it. A registration the server has
  carried out fails too, since the agent looks for \<open>data.id\<close> and the server answers \<open>data.host.id\<close>.
\<close>

theorem agent_never_connects:
  assumes "new_config_client url nm os = Inr a0"
    and "(link_step tt upd)\<^sup>*\<^sup>* \<lparr>ln_agent = a0, ln_db = db0, ln_clock = ck0, ln_state = st0\<rparr> l"
    and "registration_answer tt hdr (ln_agent l) (ln_db l) (ln_clock l) = (ans, db, ck)"
  shows "\<not> ag_connected (ln_agent l) \<and> ag_host_id (ln_agent l) = 0 \<and> ag_monitors (ln_agent l) = 0 \<and>
    ln_state l = st0 \<and> (\<exists>e. agent_connect ans dial (ln_agent l) = (Err e, ln_agent l))"
proof -
  have u: "unconnected (ln_agent l)" "ln_state l = st0"
    using link_unconnected [OF assms(2)] new_config_client_unconnected [OF assms(1)] by simp_all
  then have "\<exists>e. agent_connect ans dial (ln_agent l) = (Err e, ln_agent l)"
    using agent_connect_fails register_agent_fails [OF assms(3)] by (simp add: unconnected_def)
  with u show ?thesis by (simp add: unconnected_def)
qed

text \<open>What the comparison of \<open>SetConfig\<close> says of a list it keeps instead of the new one.\<close>

definition kept_for :: "string list \<Rightarrow> string list \<Rightarrow> bool" where
  "kept_for new old \<longleftrightarrow> length old = length new \<and> set new \<subseteq> set old \<and> (distinct new \<longrightarrow> distinct old \<and> set old = set new)"

lemma slices_kept: "string_slices_equal old new \<Longrightarrow> kept_for new old"
  using string_slices_equal_distinct [of new old]
  by (auto simp: kept_for_def string_slices_equal_def list_all_iff)

lemma configs_kept:
  assumes "configs_equal (Some old) (Some new)"
  obtains d w b where "old = new\<lparr>lc_dns_servers := d, lc_whitelist := w, lc_blacklist := b\<rparr>"
    "kept_for (lc_dns_servers new) d" "kept_for (lc_whitelist new) w" "kept_for (lc_blacklist new) b"
proof
  show "old = new\<lparr>lc_dns_servers := lc_dns_servers old, lc_whitelist := lc_whitelist old, lc_blacklist := lc_blacklist old\<rparr>"
    using assms by (cases old; cases new) simp
qed (use assms slices_kept in auto)

lemma set_config_accepted:
  assumes "set_config app (Some v) src cm st ck = (Nil_ret, cm1, st1, ck1)"
  shows "if configs_equal (cm_current cm) (Some v) then cm1 = cm \<and> st1 = st
    else cm_current cm1 = Some v \<and> app v st = (None, st1)"
  using assms by (auto simp: set_config_def Let_def split: if_splits prod.splits option.splits)

text \<open>
  C9. A pushed configuration arrives as it is stored: the agent decodes the server's JSON of a
  configuration into exactly its lists, times and flag, given times below \<open>2 ^ 53\<close> seconds, and hands
  that to its callback when the frame holds this message alone. Once its manager has accepted
  it, either it is the current configuration and has been applied; or nothing has changed, because the
  current one has the same times and flags and lists of the same lengths that hold every entry of
  the new ones: the same entries if the new list has no repetition, and possibly others if it has.
  Receiving it again changes nothing and applies nothing.
\<close>

theorem pushed_configuration_round_trip:
  assumes "\<bar>cf_default_ttl c\<bar> < 2 ^ 53" "\<bar>cf_max_ttl c\<bar> < 2 ^ 53" "\<bar>cf_min_ttl c\<bar> < 2 ^ 53"
    "\<bar>cf_refresh_interval c\<bar> < 2 ^ 53"
    and "set_server_config app (json_of_egress (convert_to_egress_config c)) cm st ck = (Nil_ret, cm1, st1, ck1)"
  shows "handle_message upd (decode_frame stamp [Full_configuration (convert_to_egress_config c)]) s = snd (upd (agent_view c) s) \<and>
    (cm_current cm1 = Some (agent_view c) \<and> app (agent_view c) st = (None, st1) \<or>
     cm1 = cm \<and> st1 = st \<and>
       (\<exists>d w b. cm_current cm = Some ((agent_view c)\<lparr>lc_dns_servers := d, lc_whitelist := w, lc_blacklist := b\<rparr>) \<and>
          kept_for (cf_dns_servers c) d \<and> kept_for (cf_whitelist c) w \<and> kept_for (cf_blacklist c) b)) \<and>
    set_server_config app (json_of_egress (convert_to_egress_config c)) cm1 st2 ck2 = (Nil_ret, cm1, st2, ck2)"
proof -
  have conv: "convert_to_local_config (json_of_egress (convert_to_egress_config c)) = Some (agent_view c)"
    by (rule convert_egress [OF assms(1-4)])
  then have acc: "if configs_equal (cm_current cm) (Some (agent_view c)) then cm1 = cm \<and> st1 = st
      else cm_current cm1 = Some (agent_view c) \<and> app (agent_view c) st = (None, st1)"
    using set_config_accepted [of app "agent_view c" "''server''" cm st ck cm1 st1 ck1] assms(5)
    by (simp add: set_server_config_def)
  have "configs_equal (cm_current cm1) (Some (agent_view c))" using acc by (metis configs_equal_refl)
  moreover have "\<exists>d w b. cm_current cm = Some ((agent_view c)\<lparr>lc_dns_servers := d, lc_whitelist := w, lc_blacklist := b\<rparr>) \<and>
      kept_for (cf_dns_servers c) d \<and> kept_for (cf_whitelist c) w \<and> kept_for (cf_blacklist c) b"
    if eq: "configs_equal (cm_current cm) (Some (agent_view c))"
  proof -
    obtain old where old: "cm_current cm = Some old" using eq by (cases "cm_current cm") auto
    with eq have "configs_equal (Some old) (Some (agent_view c))" by simp
    then show ?thesis by (rule configs_kept) (use old in \<open>auto simp: agent_view_def\<close>)
  qed
  ultimately show ?thesis
    using conv handle_pushed [OF conv] acc by (auto simp: set_server_config_def set_config_def split: if_splits)
qed

text \<open>
  C21. An update of a host puts two messages into its channel, and when the writer takes its turn
  after both they leave as one frame, which the agent cannot decode: its callback is not called.
\<close>

theorem batched_push_lost:
  assumes "hb_hosts h i = Some r" "hb_store h r = Some cl" "\<not> wc_closed cl" "wc_send cl = []"
    and "notify_host i ho db = ([Config_update i k, Send_config i e], db')"
  shows "\<exists>h' cl' ms. notify (fst (notify_host i ho db)) h = Some h' \<and> hb_store h' r = Some cl' \<and>
    write_pump (Channel_ready True True) cl' = Frame ms (cl'\<lparr>wc_send := []\<rparr>) \<and>
    ms = [Configuration_update k, Full_configuration e] \<and>
    handle_message upd (decode_frame stamp ms) st = st"
  using assms
  by (simp add: broadcast_configuration_update_def send_configuration_def send_to_host_def deliver_def
      try_send_def channel_size_def set_client_def write_pump_def take_message_def handle_message_def)

text \<open>
  Polling gives the agent a configuration with no DNS server, no domain and default times,
  whichever one the server has for its host, and also when it has none: the agent converts the
  answer's \<open>data\<close>, the configuration lies one level deeper.
\<close>

theorem polled_configuration_is_default:
  assumes "get_host_configuration idstr db = ((200, resp), db')" "ag_host_id a \<noteq> 0"
  shows "fetch_configuration reg (fst (configuration_answer tt idstr db)) a =
    (Inr \<lparr>lc_dns_servers = [], lc_whitelist = [], lc_blacklist = [], lc_default_ttl = 300, lc_max_ttl = 86400,
       lc_min_ttl = 5, lc_refresh_interval = 300, lc_restrict = True, lc_interface = ''eth0'',
       lc_use_ebpf = True, lc_use_iptables = False\<rparr>, a)"
proof -
  have "(\<exists>i. ar_data resp = Some (Unconfigured_data i)) \<or> (\<exists>i nm e. ar_data resp = Some (Configured_data i nm e))"
    using assms(1)
    by (auto simp: get_host_configuration_def with_host_def with_row_def write_error_def write_ok_def
        new_success_response_def split: option.splits sum.splits prod.splits)
  then show ?thesis
    using assms
    by (auto simp: configuration_answer_def fetch_configuration_def response_data convert_to_local_config_def)
qed

section \<open>Witnesses\<close>

definition demo_agent :: agent where
  "demo_agent = \<lparr>ag_server_url = ''http://s/'', ag_hostname = ''h'', ag_host_id = 0, ag_certificate = [],
     ag_ws = False, ag_connected = False, ag_stopped = False, ag_reconnect = False, ag_monitors = 0\<rparr>"

lemma demo_agent_new: "new_config_client ''http://s/'' ''h'' (Inr [])  = Inr demo_agent"
  by (simp add: new_config_client_def demo_agent_def has_suffix_def)

lemma agent_never_connects_witness:
  "\<exists>e. agent_connect (fst (registration_answer (\<lambda>_. []) \<lparr>rh_forwarded_for = [], rh_real_ip = [], rh_remote_addr = []\<rparr>
     demo_agent demo_db (\<lambda>_. 5))) None demo_agent = (Err e, demo_agent)"
proof -
  obtain ans db ck where ans: "registration_answer (\<lambda>_. []) \<lparr>rh_forwarded_for = [], rh_real_ip = [], rh_remote_addr = []\<rparr>
     demo_agent demo_db (\<lambda>_. 5) = (ans, db, ck)" by (rule prod_cases3)
  let ?l = "\<lparr>ln_agent = demo_agent, ln_db = demo_db, ln_clock = (\<lambda>_. 5), ln_state = ()\<rparr>"
  have run: "(link_step (\<lambda>_. []) (\<lambda>_ s. (None, s)))\<^sup>*\<^sup>* ?l ?l" by simp
  from agent_never_connects [OF demo_agent_new run, of _ ans db ck None] ans show ?thesis by auto
qed

lemma pushed_configuration_round_trip_witness:
  "let cm = \<lparr>cm_current = None, cm_path = [], cm_source = ''local'', cm_updated = 0\<rparr>;
       (r, cm1, st, ck) = set_server_config (\<lambda>_ s. (None, s)) (json_of_egress (convert_to_egress_config demo_config)) cm () (\<lambda>_. 5)
   in cm_current cm1 = Some (agent_view demo_config)"
proof -
  let ?cm = "\<lparr>cm_current = None, cm_path = [], cm_source = ''local'', cm_updated = 0\<rparr>"
  have b: "\<bar>cf_default_ttl demo_config\<bar> < 2 ^ 53" "\<bar>cf_max_ttl demo_config\<bar> < 2 ^ 53"
    "\<bar>cf_min_ttl demo_config\<bar> < 2 ^ 53" "\<bar>cf_refresh_interval demo_config\<bar> < 2 ^ 53"
    by (simp_all add: demo_config_def)
  have s: "set_server_config (\<lambda>_ s. (None, s)) (json_of_egress (convert_to_egress_config demo_config)) ?cm () (\<lambda>_. 5) =
      (Nil_ret, ?cm\<lparr>cm_current := Some (agent_view demo_config), cm_source := ''server'', cm_updated := 5\<rparr>, (), \<lambda>_. 5)"
    using convert_egress [OF b] by (simp add: set_server_config_def set_config_def now_def)
  from pushed_configuration_round_trip [OF b s] show ?thesis unfolding Let_def s by simp
qed

lemma batched_push_lost_witness:
  "let h = hub_connect 3 \<lparr>wi_host_id = 1, wi_hostname = ''h'', wi_session = [], wi_is_host = True\<rparr> new_hub
   in \<exists>h' cl' ms. notify (fst (notify_host 1 (demo_host\<lparr>ho_config := Some 1\<rparr>) demo_db)) h = Some h' \<and>
     hb_store h' 3 = Some cl' \<and> write_pump (Channel_ready True True) cl' = Frame ms (cl'\<lparr>wc_send := []\<rparr>) \<and>
     handle_message (\<lambda>c _. (None, Some c)) (decode_frame [] ms) None = None"
proof -
  let ?w = "\<lparr>wi_host_id = 1, wi_hostname = ''h'', wi_session = [], wi_is_host = True\<rparr>"
  let ?c = "\<lparr>wi_host_id = 1, wi_hostname = ''h'', wi_session = [], wi_is_host = True, wc_send = [], wc_closed = False\<rparr>"
  have h: "hb_hosts (hub_connect 3 ?w new_hub) 1 = Some 3" "hb_store (hub_connect 3 ?w new_hub) 3 = Some ?c"
    by (simp_all add: hub_connect_def hub_register_def set_client_def new_client_def ws_identity.defs new_hub_def Let_def)
  have n: "\<exists>e db'. notify_host 1 (demo_host\<lparr>ho_config := Some 1\<rparr>) demo_db = ([Config_update 1 1, Send_config 1 e], db')"
    by (simp add: notify_host_def config_get_by_id_def get_by_id_def query_row_def wrap_error_def demo_db_def
        good_conn_def demo_tables_def demo_host_def demo_row_id demo_config_def arg_ok_def Let_def)
  then obtain e db' where n: "notify_host 1 (demo_host\<lparr>ho_config := Some 1\<rparr>) demo_db =
      ([Config_update 1 1, Send_config 1 e], db')" by blast
  show ?thesis
    unfolding Let_def using batched_push_lost [OF h _ _ n, of "\<lambda>c _. (None, Some c)" "[]" None] by auto
qed

lemma polled_configuration_is_default_witness:
  "let db = demo_db\<lparr>db_tables := demo_tables\<lparr>tb_hosts := [demo_host\<lparr>ho_config := Some 1\<rparr>]\<rparr>\<rparr>;
       a = demo_agent\<lparr>ag_host_id := 1\<rparr>
   in \<exists>c. fetch_configuration (No_answer []) (fst (configuration_answer (\<lambda>_. []) ''1'' db)) a = (Inr c, a) \<and>
     lc_dns_servers c = []"
proof -
  let ?db = "demo_db\<lparr>db_tables := demo_tables\<lparr>tb_hosts := [demo_host\<lparr>ho_config := Some 1\<rparr>]\<rparr>\<rparr>"
  have sc: "sscan_uint ''1'' = Some 1"
    by (simp add: sscan_uint_def is_space_def is_dec_digit_def digits_value_def Let_def)
  have "\<exists>resp db'. get_host_configuration ''1'' ?db = ((200, resp), db')"
    by (simp add: get_host_configuration_def with_host_def with_row_def sc host_get_by_id_def get_by_id_def query_row_def
        wrap_error_def demo_db_def good_conn_def demo_tables_def demo_host_def host_effective_config_def
        config_get_by_id_def demo_row_id demo_config_def write_ok_def arg_ok_def Let_def)
  then obtain resp db' where "get_host_configuration ''1'' ?db = ((200, resp), db')" by blast
  from polled_configuration_is_default [OF this, of "demo_agent\<lparr>ag_host_id := 1\<rparr>"] show ?thesis
    unfolding Let_def by (simp add: demo_agent_def)
qed

end
