(* ===== verification/Server_Settings.thy ===== *)
theory Server_Settings
  imports Http_Common Session_Store Agent_Config
begin

text \<open>
  The settings of the configuration server and of the host agent
  (\<open>config-server/internal/config/config.go\<close>) and the start of the server
  (\<open>config-server/cmd/server/main.go\<close>). Decoding YAML, the environment and the file system are
  arguments. The agent's \<open>LocalEgressConfig\<close> is declared here a second time with the same fields, so
  it is the record \<open>local_config\<close> of \<open>Agent_Config\<close>.
\<close>

record server_settings =
  ss_port :: int
  ss_database_path :: string
  ss_cert_file :: string
  ss_key_file :: string
  ss_ca_cert_file :: string
  ss_allowed_subnets :: "string list"
  ss_dev_mode :: bool
  ss_log_level :: string
  ss_password :: string
  ss_session_timeout :: int

definition default_server_config :: server_settings where
  "default_server_config =
     \<lparr>ss_port = 8443, ss_database_path = ''./data/config-server.db'', ss_cert_file = ''./certs/server.crt'',
      ss_key_file = ''./certs/server.key'', ss_ca_cert_file = ''./certs/ca.crt'',
      ss_allowed_subnets = [''10.0.0.0/8'', ''172.16.0.0/12'', ''192.168.0.0/16'', ''127.0.0.0/8''],
      ss_dev_mode = False, ss_log_level = ''info'', ss_password = [], ss_session_timeout = 30\<rparr>"

text \<open>\<open>file\<close> is the decoded content of a file, absent keys being zero, or the error of reading or decoding it.\<close>

definition load_server_config :: "(string \<Rightarrow> string + server_settings) \<Rightarrow> string \<Rightarrow> string + server_settings" where
  "load_server_config file path =
     (case file path of
        Inl e \<Rightarrow> Inl e
      | Inr c \<Rightarrow> Inr
          (c\<lparr>ss_port := (if ss_port c = 0 then ss_port default_server_config else ss_port c),
             ss_database_path :=
               (if ss_database_path c = [] then ss_database_path default_server_config else ss_database_path c),
             ss_allowed_subnets :=
               (if ss_allowed_subnets c = [] then ss_allowed_subnets default_server_config
                else ss_allowed_subnets c)\<rparr>))"

text \<open>\<open>SaveServerConfig\<close>: the directory it makes is the one of the environment, not the file's.\<close>

definition save_server_config ::
  "(server_settings \<Rightarrow> string + string) \<Rightarrow> (string \<Rightarrow> string) \<Rightarrow> (string \<Rightarrow> string option) \<Rightarrow>
   (string \<Rightarrow> string \<Rightarrow> string option) \<Rightarrow> string \<Rightarrow> server_settings \<Rightarrow> string ret" where
  "save_server_config yaml env mkdir write path c =
     (case yaml c of
        Inl e \<Rightarrow> Err e
      | Inr data \<Rightarrow>
          (let dir = (if env ''CONFIG_DIR'' = [] then ''.'' else env ''CONFIG_DIR'')
           in case mkdir dir of
                Some e \<Rightarrow> Err e
              | None \<Rightarrow> (case write path data of Some e \<Rightarrow> Err e | None \<Rightarrow> Nil_ret)))"

definition marshal_server_config :: "server_settings \<Rightarrow> (string \<times> json_value) list" where
  "marshal_server_config s =
     [(''port'', Json_number (float53 (ss_port s))), (''database_path'', Json_string (ss_database_path s)),
      (''cert_file'', Json_string (ss_cert_file s)), (''key_file'', Json_string (ss_key_file s)),
      (''ca_cert_file'', Json_string (ss_ca_cert_file s)), (''allowed_subnets'', strings (ss_allowed_subnets s)),
      (''dev_mode'', Json_bool (ss_dev_mode s)), (''log_level'', Json_string (ss_log_level s))]"

section \<open>The settings of the host agent\<close>

record agent_settings =
  as_server_url :: string
  as_cert_file :: string
  as_key_file :: string
  as_ca_cert_file :: string
  as_hostname :: string
  as_config_server_url :: string
  as_poll_interval :: int
  as_log_level :: string
  as_dev_mode :: bool
  as_local_config :: "local_config option"
  as_managed_mode :: bool

definition go_hostname :: "string + string \<Rightarrow> string" where
  "go_hostname os = (case os of Inl _ \<Rightarrow> ''unknown'' | Inr h \<Rightarrow> h)"

definition default_agent_config :: "string + string \<Rightarrow> agent_settings" where
  "default_agent_config os =
     \<lparr>as_server_url = ''https://localhost:8443'', as_cert_file = ''./certs/client.crt'',
      as_key_file = ''./certs/client.key'', as_ca_cert_file = ''./certs/ca.crt'', as_hostname = go_hostname os,
      as_config_server_url = [], as_poll_interval = 30, as_log_level = ''info'', as_dev_mode = False,
      as_local_config = Some
        \<lparr>lc_dns_servers = [''8.8.8.8:53'', ''1.1.1.1:53''], lc_whitelist = [], lc_blacklist = [],
         lc_default_ttl = 300, lc_max_ttl = 86400, lc_min_ttl = 5, lc_refresh_interval = 300,
         lc_restrict = True, lc_interface = ''eth0'', lc_use_ebpf = True, lc_use_iptables = False\<rparr>,
      as_managed_mode = False\<rparr>"

definition load_agent_config ::
  "string + string \<Rightarrow> (string \<Rightarrow> string + agent_settings) \<Rightarrow> string \<Rightarrow> string + agent_settings" where
  "load_agent_config os file path =
     (case file path of
        Inl e \<Rightarrow> Inl e
      | Inr c \<Rightarrow> Inr
          (c\<lparr>as_server_url := (if as_server_url c = [] then as_server_url (default_agent_config os) else as_server_url c),
             as_poll_interval :=
               (if as_poll_interval c = 0 then as_poll_interval (default_agent_config os) else as_poll_interval c),
             as_hostname := (if as_hostname c = [] then go_hostname os else as_hostname c)\<rparr>))"

definition save_agent_config ::
  "(agent_settings \<Rightarrow> string + string) \<Rightarrow> (string \<Rightarrow> string \<Rightarrow> string option) \<Rightarrow> string \<Rightarrow> agent_settings \<Rightarrow>
   string ret" where
  "save_agent_config yaml write path c =
     (case yaml c of
        Inl e \<Rightarrow> Err e
      | Inr data \<Rightarrow> (case write path data of Some e \<Rightarrow> Err e | None \<Rightarrow> Nil_ret))"

definition json_of_local_config :: "local_config \<Rightarrow> json_value" where
  "json_of_local_config c = Json_object
     [(''allowed_dns_resolvers'', strings (lc_dns_servers c)), (''whitelisted_domains'', strings (lc_whitelist c)),
      (''blacklisted_domains'', strings (lc_blacklist c)), (''default_ttl'', Json_number (float53 (lc_default_ttl c))),
      (''max_ttl'', Json_number (float53 (lc_max_ttl c))), (''min_ttl'', Json_number (float53 (lc_min_ttl c))),
      (''refresh_interval'', Json_number (float53 (lc_refresh_interval c))),
      (''restrict_to_allowed_dns'', Json_bool (lc_restrict c)), (''interface'', Json_string (lc_interface c)),
      (''use_ebpf'', Json_bool (lc_use_ebpf c)), (''use_iptables'', Json_bool (lc_use_iptables c))]"

definition marshal_agent_config :: "agent_settings \<Rightarrow> (string \<times> json_value) list" where
  "marshal_agent_config a =
     [(''server_url'', Json_string (as_server_url a)), (''cert_file'', Json_string (as_cert_file a)),
      (''key_file'', Json_string (as_key_file a)), (''ca_cert_file'', Json_string (as_ca_cert_file a)),
      (''hostname'', Json_string (as_hostname a)), (''config_server_url'', Json_string (as_config_server_url a)),
      (''poll_interval'', Json_number (float53 (as_poll_interval a))), (''log_level'', Json_string (as_log_level a)),
      (''managed_mode'', Json_bool (as_managed_mode a)),
      (''local_config'', case as_local_config a of Some c \<Rightarrow> json_of_local_config c | None \<Rightarrow> Json_null)]"

section \<open>The environment\<close>

text \<open>
  \<open>fmt.Sscanf(s, "%d", &n)\<close> for an \<open>int\<close>: blanks, a sign, decimal digits; on an error the variable
  keeps its value, which the caller does not notice.
\<close>

definition sscan_int :: "string \<Rightarrow> int option" where
  "sscan_int s =
     (case skip_blanks s of
        None \<Rightarrow> None
      | Some t \<Rightarrow>
          (let neg = (case t of c # _ \<Rightarrow> c = CHR ''-'' | [] \<Rightarrow> False);
               u = (case t of c # r \<Rightarrow> if c = CHR ''-'' \<or> c = CHR ''+'' then r else t | [] \<Rightarrow> []);
               ds = takeWhile is_dec_digit u;
               n = (if neg then - int (digits_value ds) else int (digits_value ds))
           in if ds = [] \<or> n < - (2 ^ 63) \<or> 2 ^ 63 \<le> n then None else Some n))"

definition load_config_from_env :: "string + string \<Rightarrow> (string \<Rightarrow> string) \<Rightarrow> server_settings \<times> agent_settings" where
  "load_config_from_env os env =
     (let s = default_server_config; a = default_agent_config os;
          over = (\<lambda>k v. if env k \<noteq> [] then env k else v)
      in (s\<lparr>ss_port :=
              (if env ''SERVER_PORT'' \<noteq> [] then
                 (case sscan_int (env ''SERVER_PORT'') of Some n \<Rightarrow> n | None \<Rightarrow> ss_port s)
               else ss_port s),
            ss_database_path := over ''DATABASE_PATH'' (ss_database_path s),
            ss_cert_file := over ''SERVER_CERT'' (ss_cert_file s),
            ss_key_file := over ''SERVER_KEY'' (ss_key_file s),
            ss_ca_cert_file := over ''CA_CERT'' (ss_ca_cert_file s)\<rparr>,
          a\<lparr>as_config_server_url := over ''CONFIG_SERVER_URL'' (as_config_server_url a),
            as_server_url := over ''CONFIG_SERVER_URL'' (as_server_url a),
            as_managed_mode := (env ''MANAGED_MODE'' = ''true'' \<or> as_managed_mode a)\<rparr>))"

section \<open>The start of the server\<close>

record server_flags =
  fl_config :: string
  fl_db :: string
  fl_port :: int
  fl_dev :: bool
  fl_password :: string
  fl_session_timeout :: int

text \<open>A flag counts only if it differs from its own default.\<close>

definition effective_settings :: "(string \<Rightarrow> string + server_settings) \<Rightarrow> server_flags \<Rightarrow> server_settings" where
  "effective_settings file fl =
     (let s = (case load_server_config file (fl_config fl) of Inr c \<Rightarrow> c | Inl _ \<Rightarrow> default_server_config);
          s1 = (if fl_port fl \<noteq> 8443 then s\<lparr>ss_port := fl_port fl\<rparr> else s);
          s2 = (if fl_db fl \<noteq> ''./data/config-server.db'' then s1\<lparr>ss_database_path := fl_db fl\<rparr> else s1);
          s3 = (if fl_password fl \<noteq> [] then s2\<lparr>ss_password := fl_password fl\<rparr> else s2)
      in if fl_session_timeout fl \<noteq> 30 then s3\<lparr>ss_session_timeout := fl_session_timeout fl\<rparr> else s3)"

definition minute :: duration where
  "minute = 60000000000"

text \<open>\<open>d / 2\<close> on durations, which truncates towards zero.\<close>

definition half :: "duration \<Rightarrow> duration" where
  "half d = word_of_int (if sint d < 0 then - ((- sint d) div 2) else sint d div 2)"

text \<open>\<open>time.NewTicker\<close> panics on an interval that is not positive.\<close>

definition new_ticker :: "duration \<Rightarrow> string option" where
  "new_ticker d = (if sint d \<le> 0 then Some ''non-positive interval for NewTicker'' else None)"

text \<open>The goroutine of \<open>StartCleanup\<close> makes its ticker first.\<close>

definition start_cleanup :: "session_store \<Rightarrow> string option" where
  "start_cleanup s = new_ticker (half (st_timeout s))"

definition new_auth_service_with_password :: "string \<Rightarrow> duration \<Rightarrow> (string + auth_service)" where
  "new_auth_service_with_password pw timeout =
     (let a = new_auth_service pw timeout
      in case start_cleanup (au_store a) of Some p \<Rightarrow> Inl p | None \<Rightarrow> Inr a)"

datatype server_outcome =
    Fatal_exit string
  | Crashed string
  | Serving auth_service server_settings bool

text \<open>
  \<open>main\<close> up to its call of \<open>ListenAndServe\<close> or \<open>ListenAndServeTLS\<close>: \<open>open_db\<close> and \<open>init_db\<close> are the errors of opening the database and of its
  schema. A panic in the cleanup goroutine ends the process. The last component of \<open>Serving\<close> says
  whether the server speaks plain HTTP. \<open>server_process\<close> adds that call, with the error \<open>listen\<close> it returns,
  as for a port that is taken or a certificate that cannot be read; \<open>None\<close> says that it has not returned.
\<close>

definition server_main ::
  "(string \<Rightarrow> string + server_settings) \<Rightarrow> (string \<Rightarrow> string option) \<Rightarrow> string option \<Rightarrow> server_flags \<Rightarrow>
   server_outcome" where
  "server_main file open_db init_db fl =
     (let s = effective_settings file fl
      in case open_db (ss_database_path s) of
           Some e \<Rightarrow> Fatal_exit (''Failed to initialize database: '' @ e)
         | None \<Rightarrow>
             (case init_db of
                Some e \<Rightarrow> Fatal_exit (''Failed to initialize database schema: '' @ e)
              | None \<Rightarrow>
                  if ss_password s = [] then
                    Fatal_exit ''Error: Password is required. Use --password flag or set in config file.''
                  else
                    (case new_auth_service_with_password (ss_password s)
                            (word_of_int (ss_session_timeout s) * minute) of
                       Inl p \<Rightarrow> Crashed p
                     | Inr a \<Rightarrow> Serving a s (fl_dev fl \<or> ss_dev_mode s))))"

definition server_process ::
  "(string \<Rightarrow> string + server_settings) \<Rightarrow> (string \<Rightarrow> string option) \<Rightarrow> string option \<Rightarrow>
   (bool \<Rightarrow> server_settings \<Rightarrow> string option) \<Rightarrow> server_flags \<Rightarrow> server_outcome" where
  "server_process file open_db init_db listen fl =
     (case server_main file open_db init_db fl of
        Serving a s plain \<Rightarrow>
          (case listen plain s of
             Some e \<Rightarrow> Fatal_exit (''Failed to start server: '' @ e)
           | None \<Rightarrow> Serving a s plain)
      | other \<Rightarrow> other)"

text \<open>A tick of the hourly cleanup of hosts not seen for 24 hours.\<close>

definition host_cleanup_tick :: "database \<Rightarrow> clock \<Rightarrow> repo_error option \<times> database \<times> clock" where
  "host_cleanup_tick db ck =
     (let (t, ck1) = now ck; (e, db1) = host_update_last_seen (time_add t (- (24 * 60 * minute))) db
      in (e, db1, ck1))"

section \<open>Lemmas\<close>






text \<open>The process serves only where \<open>main\<close> gets to the call and the call does not return.\<close>

lemma server_process_serves:
  "server_process file open_db init_db listen fl = Serving a s plain \<longleftrightarrow>
     server_main file open_db init_db fl = Serving a s plain \<and> listen plain s = None"
  by (auto simp: server_process_def split: server_outcome.splits option.splits)

section \<open>Properties\<close>


section \<open>Witnesses\<close>


end
