(* ===== verification/Agent_Ebpf.thy ===== *)
theory Agent_Ebpf
  imports Ebpf_Manager Server_Settings
begin

text \<open>
  The host agent's eBPF manager (\<open>host-agent/internal/ebpf/manager.go\<close>) and its \<open>main\<close>
  (\<open>host-agent/cmd/agent/main.go\<close>). The kernel and the library are the record \<open>bpf_api\<close> of
  \<open>Ebpf_Manager\<close>; \<open>filepath.Glob\<close> on a path without wildcards finds the path or nothing.
\<close>

record 'k host_manager =
  hm_collection :: "string option"
  hm_programs :: "string \<rightharpoonup> nat"
  hm_links :: "nat list"
  hm_maps :: "string \<rightharpoonup> nat"
  hm_interface :: string
  hm_stop_closed :: bool
  hm_closed :: bool
  hm_current :: "local_config option"
  hm_kernel :: 'k

definition new_host_manager :: "string option \<Rightarrow> agent_settings \<Rightarrow> 'k \<Rightarrow> fw_error + 'k host_manager" where
  "new_host_manager memlock hc k =
     (case memlock of
        Some e \<Rightarrow> Inl (Setup_failed ''failed to remove memlock'' e)
      | None \<Rightarrow>
          Inr \<lparr>hm_collection = None, hm_programs = Map.empty, hm_links = [], hm_maps = Map.empty,
            hm_interface =
              (case as_local_config hc of
                 Some c \<Rightarrow> if lc_interface c \<noteq> [] then lc_interface c else ''eth0''
               | None \<Rightarrow> ''eth0''),
            hm_stop_closed = False, hm_closed = False, hm_current = None, hm_kernel = k\<rparr>)"

section \<open>Setup\<close>

definition hm_store :: "(string \<times> nat) list \<Rightarrow> (string \<times> nat) list \<Rightarrow> 'k host_manager \<Rightarrow> 'k host_manager" where
  "hm_store progs maps m = m\<lparr>hm_programs := hm_programs m ++ map_of progs, hm_maps := hm_maps m ++ map_of maps\<rparr>"

text \<open>The connection filter is optional: a missing or broken one leaves the manager without it.\<close>

definition hm_load_conn :: "'k bpf_api \<Rightarrow> string \<Rightarrow> string \<Rightarrow> 'k host_manager \<Rightarrow> 'k host_manager" where
  "hm_load_conn api dns_path conn_path m =
     (if \<not> stat_missing api conn_path then
        (case load_collection api conn_path (hm_kernel m) of
           (Inl e, k) \<Rightarrow> m\<lparr>hm_kernel := k\<rparr>
         | (Inr (progs, maps), k) \<Rightarrow>
             (hm_store progs maps (m\<lparr>hm_kernel := k\<rparr>))\<lparr>hm_collection := Some conn_path\<rparr>)
      else m\<lparr>hm_collection := Some dns_path\<rparr>)"

definition hm_dns_program :: "string list \<Rightarrow> 'k host_manager \<Rightarrow> nat option" where
  "hm_dns_program order m =
     (case hm_programs m ''xdp_dns'' of
        Some p \<Rightarrow> Some p
      | None \<Rightarrow> (case order of [] \<Rightarrow> None | s # _ \<Rightarrow> hm_programs m s))"

definition hm_attach_conn :: "'k bpf_api \<Rightarrow> nat \<Rightarrow> nat \<Rightarrow> 'k host_manager \<Rightarrow> 'k host_manager" where
  "hm_attach_conn api dns_prog iface m =
     (case (case hm_programs m ''xdp_filter'' of Some p \<Rightarrow> Some p | None \<Rightarrow> hm_programs m ''conn_filter'') of
        None \<Rightarrow> m
      | Some p \<Rightarrow>
          if p = dns_prog then m
          else (case attach_xdp api p iface (hm_kernel m) of
                  (Inl e, k) \<Rightarrow> m\<lparr>hm_kernel := k\<rparr>
                | (Inr l, k) \<Rightarrow> m\<lparr>hm_kernel := k, hm_links := hm_links m @ [l]\<rparr>))"

definition hm_setup :: "'k bpf_api \<Rightarrow> string list \<Rightarrow> 'k host_manager \<Rightarrow> fw_error ret \<times> 'k host_manager" where
  "hm_setup api order m =
     (let dns_path = path_join ''./ebpf/compiled'' ''dns_intercept.o'';
          conn_path = path_join ''./ebpf/compiled'' ''conn_filter.o''
      in case load_collection api dns_path (hm_kernel m) of
           (Inl e, k) \<Rightarrow> (Err (Setup_failed ''failed to load DNS intercept'' e), m\<lparr>hm_kernel := k\<rparr>)
         | (Inr (progs, maps), k) \<Rightarrow>
             (let m1 = hm_load_conn api dns_path conn_path (hm_store progs maps (m\<lparr>hm_kernel := k\<rparr>))
              in case interface_by_name api (hm_interface m1) of
                   Inl e \<Rightarrow> (Err (Setup_failed ''failed to get interface'' e), m1)
                 | Inr iface \<Rightarrow>
                     (case hm_dns_program order m1 of
                        None \<Rightarrow> (Err (Setup_failed ''no DNS program found'' []), m1)
                      | Some p \<Rightarrow>
                          (case attach_xdp api p iface (hm_kernel m1) of
                             (Inl e, k2) \<Rightarrow> (Err (Setup_failed ''failed to attach XDP'' e), m1\<lparr>hm_kernel := k2\<rparr>)
                           | (Inr l, k2) \<Rightarrow>
                               (Nil_ret, hm_attach_conn api p iface
                                  (m1\<lparr>hm_kernel := k2, hm_links := hm_links m1 @ [l]\<rparr>))))))"

section \<open>The maps\<close>

definition hm_put ::
  "'k bpf_api \<Rightarrow> string \<Rightarrow> 'k host_manager \<Rightarrow> ip \<Rightarrow> bpf_value \<Rightarrow> fw_error ret \<times> 'k host_manager" where
  "hm_put api mapname m ip v =
     (case hm_maps m mapname of
        None \<Rightarrow> (Err (Map_not_found mapname), m)
      | Some h \<Rightarrow>
          (case ip_key_of ip of
             None \<Rightarrow> (Panic slice_panic, m)
           | Some k \<Rightarrow>
               (case map_put api h k v (hm_kernel m) of
                  (Some e, kn) \<Rightarrow> (Err (Store_failed e), m\<lparr>hm_kernel := kn\<rparr>)
                | (None, kn) \<Rightarrow> (Nil_ret, m\<lparr>hm_kernel := kn\<rparr>))))"

text \<open>\<open>AllowIPWithTTL\<close>. The reading of the clock, taken after the key is made, is \<open>t\<close>.\<close>

definition hm_allow_ttl ::
  "'k bpf_api \<Rightarrow> 'k host_manager \<Rightarrow> time \<Rightarrow> ip \<Rightarrow> duration \<Rightarrow> fw_error ret \<times> 'k host_manager" where
  "hm_allow_ttl api m t ip ttl =
     (if hm_closed m then (Err Manager_closed, m)
      else hm_put api ''ip_whitelist'' m ip (Entry_value (word_of_int t + ttl)))"

definition hm_allow :: "'k bpf_api \<Rightarrow> 'k host_manager \<Rightarrow> time \<Rightarrow> ip \<Rightarrow> fw_error ret \<times> 'k host_manager" where
  "hm_allow api m t ip = hm_allow_ttl api m t ip
     (case hm_current m of
        Some c \<Rightarrow> if 0 < lc_default_ttl c then word_of_int (lc_default_ttl c) * second else 300 * second
      | None \<Rightarrow> 300 * second)"

definition hm_remove :: "'k bpf_api \<Rightarrow> 'k host_manager \<Rightarrow> ip \<Rightarrow> fw_error ret \<times> 'k host_manager" where
  "hm_remove api m ip =
     (if hm_closed m then (Err Manager_closed, m)
      else case hm_maps m ''ip_whitelist'' of
        None \<Rightarrow> (Err (Map_not_found ''ip_whitelist''), m)
      | Some h \<Rightarrow>
          (case ip_key_of ip of
             None \<Rightarrow> (Panic slice_panic, m)
           | Some k \<Rightarrow> (Nil_ret, m\<lparr>hm_kernel := map_delete api h k (hm_kernel m)\<rparr>)))"

definition hm_allow_dns_server :: "'k bpf_api \<Rightarrow> 'k host_manager \<Rightarrow> ip \<Rightarrow> fw_error ret \<times> 'k host_manager" where
  "hm_allow_dns_server api m ip =
     (if hm_closed m then (Err Manager_closed, m)
      else hm_put api ''allowed_dns_servers'' m ip (Byte_value 1))"

section \<open>Applying a configuration\<close>

text \<open>The address of a server: a plain address, or the part before the only colon.\<close>

definition parse_ip_from_server :: "string \<Rightarrow> ip option" where
  "parse_ip_from_server server =
     (case parse_ip server of
        Some ip \<Rightarrow> Some ip
      | None \<Rightarrow>
          if contains_str server '':'' then
            (if 1 < count_list server CHR '':'' then parse_ip server
             else parse_ip (hd (split_on CHR '':'' server)))
          else None)"

fun hm_allow_servers :: "'k bpf_api \<Rightarrow> string list \<Rightarrow> 'k host_manager \<Rightarrow> fw_error ret \<times> 'k host_manager" where
  "hm_allow_servers api [] m = (Nil_ret, m)"
| "hm_allow_servers api (s # ss) m =
     (case parse_ip_from_server s of
        None \<Rightarrow> hm_allow_servers api ss m
      | Some ip \<Rightarrow>
          (case hm_allow_dns_server api m ip of
             (Panic p, m1) \<Rightarrow> (Panic p, m1)
           | (_, m1) \<Rightarrow> hm_allow_servers api ss m1))"

definition hm_apply_config :: "'k bpf_api \<Rightarrow> local_config \<Rightarrow> 'k host_manager \<Rightarrow> fw_error ret \<times> 'k host_manager" where
  "hm_apply_config api c m = hm_allow_servers api (lc_dns_servers c) (m\<lparr>hm_current := Some c\<rparr>)"

definition hm_cleanup :: "'k bpf_api \<Rightarrow> 'k host_manager \<Rightarrow> fw_error ret \<times> 'k host_manager" where
  "hm_cleanup api m =
     (if hm_closed m then (Nil_ret, m)
      else if hm_stop_closed m then (Panic ''close of closed channel'', m\<lparr>hm_closed := True\<rparr>)
      else
        (let k1 = fold (link_close api) (hm_links m) (hm_kernel m);
             k2 = (case hm_collection m of None \<Rightarrow> k1 | Some c \<Rightarrow> collection_close api c k1)
         in (Nil_ret, m\<lparr>hm_closed := True, hm_stop_closed := True, hm_links := [],
                       hm_collection := None, hm_kernel := k2\<rparr>)))"

section \<open>The agent's main\<close>

record agent_flags =
  af_config :: string
  af_server :: string
  af_password :: string
  af_dev :: bool
  af_standalone :: bool

definition effective_agent ::
  "string + string \<Rightarrow> (string \<Rightarrow> string + agent_settings) \<Rightarrow> agent_flags \<Rightarrow> agent_settings" where
  "effective_agent os file fl =
     (let a = (case load_agent_config os file (af_config fl) of Inr c \<Rightarrow> c | Inl _ \<Rightarrow> default_agent_config os);
          a1 = (if af_server fl \<noteq> [] then a\<lparr>as_config_server_url := af_server fl, as_server_url := af_server fl\<rparr> else a);
          a2 = (if af_dev fl then a1\<lparr>as_dev_mode := True\<rparr> else a1)
      in if af_standalone fl then a2\<lparr>as_managed_mode := False\<rparr> else a2)"

definition validate_agent :: "agent_settings \<Rightarrow> string option" where
  "validate_agent a =
     (if as_hostname a = [] then Some ''hostname is required''
      else if as_managed_mode a \<and> as_config_server_url a = [] then
        Some ''config server URL is required in managed mode''
      else None)"

datatype 'k agent_outcome =
    Agent_fatal string
  | Agent_panic string
  | Agent_running "'k host_manager"

text \<open>
  Both modes apply the local configuration and are done; a nil manager panics at its first field.
  What follows is the wait for a signal.
\<close>

definition run_standalone ::
  "'k bpf_api \<Rightarrow> agent_settings \<Rightarrow> 'k host_manager option \<Rightarrow> 'k agent_outcome" where
  "run_standalone api a m =
     (case as_local_config a of
        None \<Rightarrow> Agent_fatal ''local config is required in standalone mode''
      | Some c \<Rightarrow>
          (case m of
             None \<Rightarrow> Agent_panic ''nil pointer dereference''
           | Some m0 \<Rightarrow>
               (case hm_apply_config api c m0 of
                  (Nil_ret, m1) \<Rightarrow> Agent_running m1
                | (Err e, m1) \<Rightarrow> Agent_fatal ''failed to apply local config to eBPF''
                | (Panic p, m1) \<Rightarrow> Agent_panic p)))"

definition run_managed ::
  "'k bpf_api \<Rightarrow> agent_settings \<Rightarrow> 'k host_manager option \<Rightarrow> 'k agent_outcome" where
  "run_managed api a m = run_standalone api a m"

definition agent_main ::
  "'k bpf_api \<Rightarrow> string + string \<Rightarrow> (string \<Rightarrow> string + agent_settings) \<Rightarrow> string option \<Rightarrow> agent_flags \<Rightarrow> 'k \<Rightarrow>
   'k agent_outcome" where
  "agent_main api os file memlock fl k =
     (let a = effective_agent os file fl
      in case validate_agent a of
           Some e \<Rightarrow> Agent_fatal (''Invalid configuration: '' @ e)
         | None \<Rightarrow>
             (let m = (case new_host_manager memlock a k of Inl _ \<Rightarrow> None | Inr m \<Rightarrow> Some m)
              in if as_managed_mode a \<and> as_config_server_url a \<noteq> [] then run_managed api a m
                 else run_standalone api a m))"

section \<open>Lemmas\<close>

text \<open>Without a map every server is refused, which is only logged.\<close>

lemma hm_allow_servers_no_map:
  assumes "hm_maps m ''allowed_dns_servers'' = None"
  shows "hm_allow_servers api ss m = (Nil_ret, m)"
  using assms
  by (induction ss) (auto simp: hm_allow_dns_server_def hm_put_def split: option.splits)

lemma hm_allow_servers_nil_or_panic:
  "hm_allow_servers api ss m = (r, m') \<Longrightarrow> r = Nil_ret \<or> (\<exists>p. r = Panic p)"
  by (induction api ss m rule: hm_allow_servers.induct) (auto split: option.splits prod.splits ret.splits)

lemma run_standalone_cases:
  assumes "new_host_manager memlock a k = Inr m"
  shows "run_standalone api a (Some m) =
    (case as_local_config a of
       None \<Rightarrow> Agent_fatal ''local config is required in standalone mode''
     | Some c \<Rightarrow> Agent_running (m\<lparr>hm_current := Some c\<rparr>))"
proof -
  have "hm_maps m = Map.empty" using assms by (auto simp: new_host_manager_def split: option.splits)
  then show ?thesis
    by (auto simp: run_standalone_def hm_apply_config_def hm_allow_servers_no_map split: option.splits)
qed

section \<open>Properties\<close>

text \<open>
  C18. The agent enforces nothing: whatever its flags, its configuration file and the mode, once it
  runs, the kernel is as it found it, with no program loaded or attached and no map entry written,
  although it reports its configuration as applied; \<open>main\<close> never calls \<open>Setup\<close>, and without the maps
  every server is refused silently. When the memory limit cannot be lifted it does not go on without
  eBPF, as announced, but panics, if its configuration is valid.
\<close>

theorem agent_enforces_nothing:
  "(agent_main api os file memlock fl k = Agent_running m \<longrightarrow>
      memlock = None \<and> hm_kernel m = k \<and> hm_links m = [] \<and> hm_maps m = Map.empty \<and> hm_programs m = Map.empty \<and>
      hm_current m = as_local_config (effective_agent os file fl)) \<and>
    (memlock \<noteq> None \<and> validate_agent (effective_agent os file fl) = None \<and>
        as_local_config (effective_agent os file fl) \<noteq> None \<longrightarrow>
      agent_main api os file memlock fl k = Agent_panic ''nil pointer dereference'')"
proof (cases "validate_agent (effective_agent os file fl)")
  case None
  let ?a = "effective_agent os file fl"
  show ?thesis
  proof (cases memlock)
    case lifted: None
    then obtain m0 where m0: "new_host_manager memlock ?a k = Inr m0"
      "hm_kernel m0 = k" "hm_links m0 = []" "hm_maps m0 = Map.empty" "hm_programs m0 = Map.empty"
      by (simp add: new_host_manager_def)
    then show ?thesis
      using None lifted run_standalone_cases [OF m0(1), of api]
      by (auto simp: agent_main_def run_managed_def Let_def split: option.splits)
  next
    case (Some e)
    then show ?thesis
      using None
      by (auto simp: agent_main_def run_managed_def run_standalone_def new_host_manager_def Let_def
          split: option.splits)
  qed
qed (simp add: agent_main_def)

section \<open>Witnesses\<close>

lemma agent_enforces_nothing_witness:
  "\<forall>api. \<exists>m. agent_main api (Inr ''h'') (\<lambda>_. Inl ''no such file'') None
     \<lparr>af_config = ''a.yaml'', af_server = [], af_password = [], af_dev = False, af_standalone = False\<rparr> (5 :: nat) =
     Agent_running m \<and> hm_kernel m = 5 \<and> hm_maps m = Map.empty"
proof
  fix api :: "nat bpf_api"
  let ?fl = "\<lparr>af_config = ''a.yaml'', af_server = [], af_password = [], af_dev = False, af_standalone = False\<rparr>"
  let ?file = "\<lambda>_. Inl ''no such file''"
  have a: "effective_agent (Inr ''h'') ?file ?fl = default_agent_config (Inr ''h'')"
    by (simp add: effective_agent_def load_agent_config_def)
  obtain c where c: "as_local_config (default_agent_config (Inr ''h'')) = Some c"
    by (simp add: default_agent_config_def)
  obtain m0 where m0: "new_host_manager None (default_agent_config (Inr ''h'')) (5 :: nat) = Inr m0"
    by (simp add: new_host_manager_def)
  have "\<exists>m. agent_main api (Inr ''h'') ?file None ?fl 5 = Agent_running m"
    using run_standalone_cases [OF m0, of api] c m0
    by (simp add: agent_main_def a validate_agent_def default_agent_config_def go_hostname_def)
  then show "\<exists>m. agent_main api (Inr ''h'') ?file None ?fl 5 = Agent_running m \<and> hm_kernel m = 5 \<and> hm_maps m = Map.empty"
    using agent_enforces_nothing [of api "Inr ''h''" ?file None ?fl 5] by blast
qed

end
