(* ===== verification/Packet_Filter.thy ===== *)
theory Packet_Filter
  imports Ebpf_Manager
begin

unbundle bit_operations_syntax

text \<open>
  The connection filters of \<open>ebpf/src/conn_filter.c\<close> with the helpers of \<open>ebpf/include/common.h\<close>.
  A packet is the memory from \<open>data\<close> on, with the distance to \<open>data_end\<close>. The machine is little
  endian, as the targets of the build are, so a load takes the lowest address as the lowest byte;
  \<open>bpf_ntohs\<close> and \<open>bpf_ntohl\<close> exchange the bytes. The two maps are association lists; the clock
  \<open>bpf_ktime_get_ns\<close> is read once at most and is the argument \<open>t\<close>.
\<close>

record packet =
  pk_byte :: "nat \<Rightarrow> 8 word"
  pk_len :: nat

definition load :: "nat \<Rightarrow> packet \<Rightarrow> nat \<Rightarrow> 'a::len word" where
  "load n p i = be_word (rev (map (pk_byte p) [i..<i + n]))"

definition ntohs :: "16 word \<Rightarrow> 16 word" where
  "ntohs w = be_word (map (\<lambda>i. ucast (drop_bit (8 * i) w)) [0..<2])"

definition ntohl :: "32 word \<Rightarrow> 32 word" where
  "ntohl w = be_word (map (\<lambda>i. ucast (drop_bit (8 * i) w)) [0..<4])"

record bpf_maps_state =
  bm_whitelist :: "(ip_key \<times> 64 word) list"
  bm_dns_servers :: "(ip_key \<times> 8 word) list"

text \<open>\<open>bpf_map_lookup_elem\<close> and \<open>bpf_map_delete_elem\<close>.\<close>

definition whitelist_entry :: "ip_key \<Rightarrow> bpf_maps_state \<Rightarrow> 64 word option" where
  "whitelist_entry k s = map_of (bm_whitelist s) k"

definition whitelist_delete :: "ip_key \<Rightarrow> bpf_maps_state \<Rightarrow> bpf_maps_state" where
  "whitelist_delete k s = s\<lparr>bm_whitelist := filter (\<lambda>q. fst q \<noteq> k) (bm_whitelist s)\<rparr>"

section \<open>Helpers\<close>

definition is_in_network :: "32 word \<Rightarrow> 32 word \<Rightarrow> 32 word \<Rightarrow> bool" where
  "is_in_network ip network m \<longleftrightarrow> ip AND m = network AND m"

definition is_ipv4_always_allowed :: "32 word \<Rightarrow> bool" where
  "is_ipv4_always_allowed ip \<longleftrightarrow>
     ip = 0x7F000001 \<or> ip AND 0xFF000000 = 0x7F000000 \<or> is_in_network ip 0x0A000000 0xFF000000 \<or>
     is_in_network ip 0xAC100000 0xFFF00000 \<or> is_in_network ip 0xC0A80000 0xFFFF0000"

definition is_ipv6_always_allowed :: "64 word \<Rightarrow> 64 word \<Rightarrow> bool" where
  "is_ipv6_always_allowed hi lo \<longleftrightarrow>
     hi = 0 \<and> lo = 1 \<or>
     drop_bit 56 hi = 0xfc \<and> drop_bit 48 hi AND 0xfe = 0 \<or>
     drop_bit 56 hi = 0xfe \<and> drop_bit 48 hi AND 0xc0 = 0x80"

definition is_always_allowed :: "64 word \<Rightarrow> 64 word \<Rightarrow> bool" where
  "is_always_allowed hi lo =
     (if hi = 0 \<and> drop_bit 32 lo = 0xffff then is_ipv4_always_allowed (ucast lo)
      else if hi = 0 \<and> drop_bit 32 lo = 0 then is_ipv4_always_allowed (ucast lo)
      else is_ipv6_always_allowed hi lo)"

text \<open>An expired entry is deleted and the packet refused.\<close>

definition is_ip_allowed :: "64 word \<Rightarrow> 64 word \<Rightarrow> 64 word \<Rightarrow> bpf_maps_state \<Rightarrow> bool \<times> bpf_maps_state" where
  "is_ip_allowed t hi lo s =
     (if is_always_allowed hi lo then (True, s)
      else (case whitelist_entry (hi, lo) s of
              None \<Rightarrow> (False, s)
            | Some e \<Rightarrow> if e < t then (False, whitelist_delete (hi, lo) s) else (True, s)))"

definition is_dns_server_allowed :: "64 word \<Rightarrow> 64 word \<Rightarrow> bpf_maps_state \<Rightarrow> bool" where
  "is_dns_server_allowed hi lo s \<longleftrightarrow> map_of (bm_dns_servers s) (hi, lo) \<noteq> None"

definition is_dns_traffic_valid ::
  "64 word \<Rightarrow> 64 word \<Rightarrow> 64 word \<Rightarrow> 64 word \<Rightarrow> 16 word \<Rightarrow> 16 word \<Rightarrow> 8 word \<Rightarrow> bpf_maps_state \<Rightarrow> bool" where
  "is_dns_traffic_valid dest_hi dest_lo src_hi src_lo dport sport proto s =
     (if proto \<noteq> 17 \<and> proto \<noteq> 6 then True
      else if \<not> (dport = 53 \<or> sport = 53) then True
      else if dport = 53 \<and> sport \<noteq> 53 then is_dns_server_allowed dest_hi dest_lo s
      else if sport = 53 \<and> dport \<noteq> 53 then is_dns_server_allowed src_hi src_lo s
      else True)"

section \<open>The filters\<close>

datatype verdict = Pass | Drop

definition verdict_of :: "bool \<Rightarrow> verdict" where
  "verdict_of b = (if b then Pass else Drop)"

text \<open>
  The block after a UDP or TCP header of \<open>n\<close> bytes at \<open>off\<close>: with the header inside the packet and port
  53 at one end, the servers decide; else the filter goes on.
\<close>

definition dns_block ::
  "packet \<Rightarrow> nat \<Rightarrow> nat \<Rightarrow> 8 word \<Rightarrow> ip_key \<Rightarrow> ip_key \<Rightarrow> bpf_maps_state \<Rightarrow> verdict option" where
  "dns_block p off n proto dest src s =
     (let dport = ntohs (load 2 p (off + 2)); sport = ntohs (load 2 p off)
      in if off + n \<le> pk_len p \<and> (dport = 53 \<or> sport = 53) then
           Some (verdict_of (is_dns_traffic_valid (fst dest) (snd dest) (fst src) (snd src) dport sport proto s))
         else None)"

definition check_dest :: "64 word \<Rightarrow> ip_key \<Rightarrow> bpf_maps_state \<Rightarrow> verdict \<times> bpf_maps_state" where
  "check_dest t dest s = (let (ok, s1) = is_ip_allowed t (fst dest) (snd dest) s in (verdict_of ok, s1))"

definition htons_ip :: "16 word" where "htons_ip = ntohs 0x0800"
definition htons_ipv6 :: "16 word" where "htons_ipv6 = ntohs 0x86DD"

text \<open>The IPv4 addresses are taken as they lie in the packet, without exchanging their bytes.\<close>

definition ipv4_dest :: "packet \<Rightarrow> ip_key" where
  "ipv4_dest p = (0, ucast (load 4 p 30 :: 32 word))"

definition ipv4_src :: "packet \<Rightarrow> ip_key" where
  "ipv4_src p = (0, ucast (load 4 p 26 :: 32 word))"

definition ipv6_dest :: "packet \<Rightarrow> ip_key" where
  "ipv6_dest p = (load 8 p 38, load 8 p 46)"

definition ipv6_src :: "packet \<Rightarrow> ip_key" where
  "ipv6_src p = (load 8 p 22, load 8 p 30)"

definition socket_conn_filter :: "64 word \<Rightarrow> packet \<Rightarrow> bpf_maps_state \<Rightarrow> verdict \<times> bpf_maps_state" where
  "socket_conn_filter t p s =
     (if pk_len p < 14 then (Pass, s)
      else if load 2 p 12 \<noteq> htons_ip then
        (if load 2 p 12 \<noteq> htons_ipv6 then (Pass, s)
         else if pk_len p < 54 then (Pass, s)
         else (case (if pk_byte p 20 = 17 then dns_block p 54 8 17 (ipv6_dest p) (ipv6_src p) s
                     else if pk_byte p 20 = 6 then dns_block p 54 20 6 (ipv6_dest p) (ipv6_src p) s
                     else None) of
                 Some v \<Rightarrow> (v, s)
               | None \<Rightarrow> check_dest t (ipv6_dest p) s))
      else if pk_len p < 34 then (Pass, s)
      else (case (if pk_byte p 23 = 17 then dns_block p 34 8 17 (ipv4_dest p) (ipv4_src p) s
                  else if pk_byte p 23 = 6 then dns_block p 34 20 6 (ipv4_dest p) (ipv4_src p) s
                  else None) of
              Some v \<Rightarrow> (v, s)
            | None \<Rightarrow> check_dest t (ipv4_dest p) s))"

definition xdp_conn_filter :: "64 word \<Rightarrow> packet \<Rightarrow> bpf_maps_state \<Rightarrow> verdict \<times> bpf_maps_state" where
  "xdp_conn_filter t p s =
     (if pk_len p < 14 then (Pass, s)
      else if load 2 p 12 = htons_ip then
        (if pk_len p < 34 then (Pass, s)
         else (case (if pk_byte p 23 = 17 then
                       dns_block p 34 8 (pk_byte p 23) (ipv4_dest p) (ipv4_src p) s
                     else if pk_byte p 23 = 6 then
                       dns_block p 34 20 (pk_byte p 23) (ipv4_dest p) (ipv4_src p) s
                     else None) of
                 Some v \<Rightarrow> (v, s)
               | None \<Rightarrow> check_dest t (ipv4_dest p) s))
      else if load 2 p 12 = htons_ipv6 then
        (if pk_len p < 54 then (Pass, s)
         else (case (if pk_byte p 20 = 17 then dns_block p 54 8 17 (ipv6_dest p) (ipv6_src p) s
                     else if pk_byte p 20 = 6 then dns_block p 54 20 6 (ipv6_dest p) (ipv6_src p) s
                     else None) of
                 Some v \<Rightarrow> (v, s)
               | None \<Rightarrow> check_dest t (ipv6_dest p) s))
      else (Pass, s))"

text \<open>The filter for control groups exchanges the bytes, and knows neither IPv6 nor DNS.\<close>

definition cgroup_conn_filter :: "64 word \<Rightarrow> packet \<Rightarrow> bpf_maps_state \<Rightarrow> verdict \<times> bpf_maps_state" where
  "cgroup_conn_filter t p s =
     (if pk_len p < 14 then (Pass, s)
      else if load 2 p 12 \<noteq> htons_ip then (Pass, s)
      else if pk_len p < 34 then (Pass, s)
      else check_dest t (0, ucast (ntohl (load 4 p 30))) s)"

section \<open>Bytes\<close>

lemma byte_bounds: "0 \<le> uint (x :: 8 word)" "uint (x :: 8 word) < 256"
  using uint_lt2p [of x] by simp_all

lemma be_int_4: "be_int 0 [a, b, c, d] = ((uint a * 256 + uint b) * 256 + uint c) * 256 + uint d"
  by simp

lemma uint_be_word4:
  "uint (be_word [a, b, c, d] :: 32 word) = ((uint a * 256 + uint b) * 256 + uint c) * 256 + uint d"
proof -
  have "0 \<le> be_int 0 [a, b, c, d]" "be_int 0 [a, b, c, d] < 2 ^ 32"
    unfolding be_int_4 using byte_bounds [of a] byte_bounds [of b] byte_bounds [of c] byte_bounds [of d]
    by simp_all
  then have "uint (be_word [a, b, c, d] :: 32 word) = be_int 0 [a, b, c, d]"
    unfolding be_word_def by (simp only: uint_word_of_int mod_pos_pos_trivial len_num0 len_bit0 len_num1) simp
  then show ?thesis by (simp only: be_int_4)
qed

lemma last_byte:
  assumes "0 \<le> d" "d < (256 :: int)"
  shows "(x * 256 + d) mod 256 = d" "(x * 256 + d) div 256 = x"
proof -
  show "(x * 256 + d) mod 256 = d"
    by (simp only: mod_mult_self3 mod_pos_pos_trivial [OF assms])
  have "(x * 256 + d) div 256 = x + d div 256" by (rule div_mult_self3) simp
  then show "(x * 256 + d) div 256 = x" by (simp only: div_pos_pos_trivial [OF assms] add_0_right)
qed

lemma snoc_byte:
  assumes "0 \<le> d" "d < 256" "0 \<le> h" "h < (256 :: int)"
  shows "x * 256 + d = y * 256 + h \<longleftrightarrow> x = y \<and> d = h"
  using last_byte [OF assms(1,2), of x] last_byte [OF assms(3,4), of y] by metis

lemma be_word4_eq: "(be_word [a, b, c, d] :: 32 word) = be_word [e, f, g, h] \<longleftrightarrow> [a, b, c, d] = [e, f, g, h]"
proof -
  have "(be_word [a, b, c, d] :: 32 word) = be_word [e, f, g, h] \<longleftrightarrow>
    uint (be_word [a, b, c, d] :: 32 word) = uint (be_word [e, f, g, h] :: 32 word)"
    by (simp only: word_uint_eq_iff)
  also have "\<dots> \<longleftrightarrow> uint a = uint e \<and> uint b = uint f \<and> uint c = uint g \<and> uint d = uint h"
    unfolding uint_be_word4 by (simp only: snoc_byte byte_bounds conj_assoc)
  also have "\<dots> \<longleftrightarrow> [a, b, c, d] = [e, f, g, h]" by (simp add: word_uint_eq_iff)
  finally show ?thesis .
qed

lemma load4: "(load 4 p i :: 32 word) = be_word [pk_byte p (i + 3), pk_byte p (i + 2), pk_byte p (i + 1), pk_byte p i]"
  by (simp add: load_def upt_rec eval_nat_numeral)

text \<open>The byte \<open>i\<close> of a word, counted from the lowest.\<close>

lemma byte_of_be_word4:
  "uint (ucast (drop_bit (8 * i) (be_word [a, b, c, d] :: 32 word)) :: 8 word) =
     ((((uint a * 256 + uint b) * 256 + uint c) * 256 + uint d) div 256 ^ i) mod 256"
proof -
  have "uint (ucast (drop_bit (8 * i) w) :: 8 word) = (uint w div 256 ^ i) mod 256" for w :: "32 word"
  proof -
    have "uint w mod 4294967296 = uint w" using uint_lt2p [of w] by simp
    then show ?thesis
      unfolding unsigned_ucast_eq unsigned_drop_bit_eq
      by (simp add: take_bit_eq_mod drop_bit_eq_div power_mult)
  qed
  then show ?thesis by (simp only: uint_be_word4)
qed

lemma byte_digits:
  assumes "0 \<le> a" "0 \<le> b" "0 \<le> c" "0 \<le> d" "a < 256" "b < 256" "c < 256" "d < (256 :: int)"
  shows "(((a * 256 + b) * 256 + c) * 256 + d) div 256 ^ 0 mod 256 = d"
    "(((a * 256 + b) * 256 + c) * 256 + d) div 256 ^ 1 mod 256 = c"
    "(((a * 256 + b) * 256 + c) * 256 + d) div 256 ^ 2 mod 256 = b"
    "(((a * 256 + b) * 256 + c) * 256 + d) div 256 ^ 3 mod 256 = a"
  using assms
  by (simp_all only: numeral_2_eq_2 numeral_3_eq_3 power_Suc power_0 power_one_right mult_1_right
      div_by_1 zdiv_zmult2_eq last_byte mod_pos_pos_trivial)

lemma byte_of_be_word4_eqs:
  "ucast (be_word [a, b, c, d] :: 32 word) = d"
  "ucast (drop_bit 8 (be_word [a, b, c, d] :: 32 word)) = c"
  "ucast (drop_bit 16 (be_word [a, b, c, d] :: 32 word)) = b"
  "ucast (drop_bit 24 (be_word [a, b, c, d] :: 32 word)) = a"
proof -
  have e: "ucast (drop_bit (8 * i) (be_word [a, b, c, d] :: 32 word)) = [d, c, b, a] ! i" if "i < 4" for i
  proof (rule word_uint_eqI)
    have "i = 0 \<or> i = 1 \<or> i = 2 \<or> i = 3" using that by auto
    then show "uint (ucast (drop_bit (8 * i) (be_word [a, b, c, d] :: 32 word)) :: 8 word) = uint ([d, c, b, a] ! i)"
      unfolding byte_of_be_word4 by (elim disjE) (simp_all only: byte_digits byte_bounds nth.simps, simp_all)
  qed
  show "ucast (be_word [a, b, c, d] :: 32 word) = d" using e [of 0] by simp
  show "ucast (drop_bit 8 (be_word [a, b, c, d] :: 32 word)) = c" using e [of 1] by simp
  show "ucast (drop_bit 16 (be_word [a, b, c, d] :: 32 word)) = b" using e [of 2] by simp
  show "ucast (drop_bit 24 (be_word [a, b, c, d] :: 32 word)) = a" using e [of 3] by simp
qed

lemma ntohl_load4:
  "ntohl (load 4 p i) = be_word [pk_byte p i, pk_byte p (i + 1), pk_byte p (i + 2), pk_byte p (i + 3)]"
proof -
  have "[0..<4] = [0, 1, 2, 3 :: nat]" by (simp add: upt_rec)
  then show ?thesis unfolding ntohl_def load4 by (simp only: list.map) (simp add: byte_of_be_word4_eqs)
qed

lemma uint_be_word2: "uint (be_word [a, b] :: 16 word) = uint a * 256 + uint b"
proof -
  have "0 \<le> be_int 0 [a, b]" "be_int 0 [a, b] < 2 ^ 16"
    using byte_bounds [of a] byte_bounds [of b] by simp_all
  then have "uint (be_word [a, b] :: 16 word) = be_int 0 [a, b]"
    unfolding be_word_def by (simp only: uint_word_of_int mod_pos_pos_trivial len_num0 len_bit0 len_num1) simp
  then show ?thesis by simp
qed

lemma be_word2_eq: "(be_word [a, b] :: 16 word) = be_word [c, d] \<longleftrightarrow> a = c \<and> b = d"
proof -
  have "(be_word [a, b] :: 16 word) = be_word [c, d] \<longleftrightarrow>
    uint (be_word [a, b] :: 16 word) = uint (be_word [c, d] :: 16 word)"
    by (simp only: word_uint_eq_iff)
  also have "\<dots> \<longleftrightarrow> a = c \<and> b = d"
    unfolding uint_be_word2 by (simp only: snoc_byte byte_bounds word_uint_eq_iff)
  finally show ?thesis .
qed

lemma load2: "(load 2 p i :: 16 word) = be_word [pk_byte p (i + 1), pk_byte p i]"
  by (simp add: load_def upt_rec eval_nat_numeral)

lemma ntohs_be_word2: "ntohs (be_word [a, b]) = be_word [b, a]"
proof -
  have w: "uint (ucast w :: 8 word) = uint w mod 256" "uint (ucast (drop_bit 8 w) :: 8 word) = uint w div 256 mod 256"
    for w :: "16 word"
  proof -
    show "uint (ucast w :: 8 word) = uint w mod 256"
      unfolding unsigned_ucast_eq by (simp add: take_bit_eq_mod)
    have "uint w mod 65536 = uint w" using uint_lt2p [of w] by simp
    then show "uint (ucast (drop_bit 8 w) :: 8 word) = uint w div 256 mod 256"
      unfolding unsigned_ucast_eq unsigned_drop_bit_eq by (simp add: take_bit_eq_mod drop_bit_eq_div)
  qed
  have "ucast (be_word [a, b] :: 16 word) = b"
    by (rule word_uint_eqI) (simp only: w(1) uint_be_word2 last_byte byte_bounds)
  moreover have "ucast (drop_bit 8 (be_word [a, b] :: 16 word)) = a"
    by (rule word_uint_eqI)
      (simp only: w(2) uint_be_word2 last_byte byte_bounds mod_pos_pos_trivial)
  ultimately show ?thesis by (simp add: ntohs_def upt_rec)
qed

lemma ntohs_load2: "ntohs (load 2 p i) = be_word [pk_byte p i, pk_byte p (i + 1)]"
  by (simp only: load2 ntohs_be_word2)

section \<open>Always allowed addresses\<close>

lemma uint_and_high:
  fixes w :: "'a::len word"
  shows "uint (w AND NOT (mask n)) = uint w div 2 ^ n * 2 ^ n"
proof -
  have "uint (w AND NOT (mask n)) = push_bit n (drop_bit n (uint w))"
    by (rule bit_eqI) (auto simp: bit_simps dest: bit_imp_le_length)
  then show ?thesis by (simp only: push_bit_eq_mult drop_bit_eq_div)
qed

lemma masked_eq:
  assumes "m = NOT (mask n)" "uint v = k * 2 ^ n"
  shows "w AND m = v \<longleftrightarrow> uint w div 2 ^ n = k"
  unfolding word_uint_eq_iff assms(2) using uint_and_high [of w n] assms(1) by simp

lemma ipv4_masks:
  fixes w :: "32 word"
  shows "w AND 0xFF000000 = 0x7F000000 \<longleftrightarrow> uint w div 2 ^ 24 = 127"
    "w AND 0xFF000000 = 0x0A000000 \<longleftrightarrow> uint w div 2 ^ 24 = 10"
    "w AND 0xFFF00000 = 0xAC100000 \<longleftrightarrow> uint w div 2 ^ 20 = 0xAC1"
    "w AND 0xFFFF0000 = 0xC0A80000 \<longleftrightarrow> uint w div 2 ^ 16 = 0xC0A8"
  by (rule masked_eq; code_simp)+

lemma div_bytes:
  assumes "0 \<le> b" "0 \<le> c" "0 \<le> d" "b < 256" "c < 256" "d < (256 :: int)"
  shows "(((a * 256 + b) * 256 + c) * 256 + d) div 2 ^ 24 = a"
    "(((a * 256 + b) * 256 + c) * 256 + d) div 2 ^ 16 = a * 256 + b"
    "(((a * 256 + b) * 256 + c) * 256 + d) div 2 ^ 20 = a * 16 + b div 16"
proof -
  have p: "x div 2 ^ 16 = x div 256 div 256" "x div 2 ^ 24 = x div 256 div 256 div 256"
    "x div 2 ^ 20 = x div 256 div 256 div 16" for x :: int
    by (simp_all add: zdiv_zmult2_eq [symmetric])
  have "(a * 256 + b) div 16 = (a * 16 * 16 + b) div 16" by simp
  also have "\<dots> = a * 16 + b div 16" by (rule div_mult_self3) simp
  finally have "(a * 256 + b) div 16 = a * 16 + b div 16" .
  then show "(((a * 256 + b) * 256 + c) * 256 + d) div 2 ^ 24 = a"
    "(((a * 256 + b) * 256 + c) * 256 + d) div 2 ^ 16 = a * 256 + b"
    "(((a * 256 + b) * 256 + c) * 256 + d) div 2 ^ 20 = a * 16 + b div 16"
    unfolding p using assms by (simp_all only: last_byte)
qed

text \<open>The loopback and private networks, as sets of addresses.\<close>

definition private_ip :: "ip \<Rightarrow> bool" where
  "private_ip ip \<longleftrightarrow>
     ip ! 0 = 127 \<or> ip ! 0 = 10 \<or> ip ! 0 = 172 \<and> 16 \<le> ip ! 1 \<and> ip ! 1 < 32 \<or> ip ! 0 = 192 \<and> ip ! 1 = 168"

lemma div16_digit:
  assumes "0 \<le> (b :: int)" "b < 256"
  shows "a * 16 + b div 16 = 0xAC1 \<longleftrightarrow> a = 172 \<and> 16 \<le> b \<and> b < 32"
proof -
  have q: "a * 16 + q = 0xAC1 \<longleftrightarrow> a = 172 \<and> q = 1" if "0 \<le> q" "q < 16" for q :: int
    using that by presburger
  have "b div 16 = 1 \<longleftrightarrow> 16 \<le> b \<and> b < 32" by auto
  with q [of "b div 16"] assms show ?thesis by simp
qed

lemma ipv4_always_allowed_bytes: "is_ipv4_always_allowed (be_word [a, b, c, d]) \<longleftrightarrow> private_ip [a, b, c, d]"
proof -
  let ?w = "be_word [a, b, c, d] :: 32 word"
  note bs = byte_bounds [of a] byte_bounds [of b] byte_bounds [of c] byte_bounds [of d]
  have one: "?w AND 0xFF000000 = 0x7F000000 \<longleftrightarrow> a = 127" "?w AND 0xFF000000 = 0x0A000000 \<longleftrightarrow> a = 10"
    unfolding ipv4_masks uint_be_word4 div_bytes(1) [OF bs(3,5,7,4,6,8)] by (simp_all add: word_uint_eq_iff)
  have "uint a * 256 + uint b = 0xC0A8 \<longleftrightarrow> uint a = 192 \<and> uint b = 168"
    using snoc_byte [of "uint b" 168 "uint a" 192] bs by simp
  then have three: "?w AND 0xFFFF0000 = 0xC0A80000 \<longleftrightarrow> a = 192 \<and> b = 168"
    unfolding ipv4_masks uint_be_word4 div_bytes(2) [OF bs(3,5,7,4,6,8)] by (simp add: word_uint_eq_iff)
  have two: "?w AND 0xFFF00000 = 0xAC100000 \<longleftrightarrow> a = 172 \<and> 16 \<le> b \<and> b < 32"
    unfolding ipv4_masks uint_be_word4 div_bytes(3) [OF bs(3,5,7,4,6,8)] div16_digit [OF bs(3,4)]
    by (simp add: word_uint_eq_iff word_le_def word_less_def)
  have "?w = 0x7F000001 \<Longrightarrow> ?w AND 0xFF000000 = 0x7F000000" by simp
  then show ?thesis
    using one two three by (auto simp: is_ipv4_always_allowed_def is_in_network_def private_ip_def)
qed

section \<open>What the filters decide\<close>

text \<open>
  The fields of a packet as the protocols define them: bytes 12 and 13 are the type, the IPv4
  addresses are at 26 and 30, the ports follow the header of 20 bytes.
\<close>

definition ipv4_packet :: "packet \<Rightarrow> bool" where
  "ipv4_packet p \<longleftrightarrow> 34 \<le> pk_len p \<and> pk_byte p 12 = 8 \<and> pk_byte p 13 = 0"

definition ipv4_at :: "packet \<Rightarrow> nat \<Rightarrow> ip" where
  "ipv4_at p i = [pk_byte p i, pk_byte p (i + 1), pk_byte p (i + 2), pk_byte p (i + 3)]"

definition port53_at :: "packet \<Rightarrow> nat \<Rightarrow> bool" where
  "port53_at p i \<longleftrightarrow> pk_byte p i = 0 \<and> pk_byte p (i + 1) = 53"

definition dns_packet :: "packet \<Rightarrow> bool" where
  "dns_packet p \<longleftrightarrow>
     (pk_byte p 23 = 17 \<and> 42 \<le> pk_len p \<or> pk_byte p 23 = 6 \<and> 54 \<le> pk_len p) \<and>
     (port53_at p 34 \<or> port53_at p 36)"

definition may_reach :: "64 word \<Rightarrow> ip \<Rightarrow> bpf_maps_state \<Rightarrow> bool" where
  "may_reach t ip s \<longleftrightarrow>
     private_ip ip \<or>
     (case whitelist_entry (the (ip_key_of ip)) s of None \<Rightarrow> False | Some e \<Rightarrow> t \<le> e)"

definition dns_server :: "ip \<Rightarrow> bpf_maps_state \<Rightarrow> bool" where
  "dns_server ip s \<longleftrightarrow> map_of (bm_dns_servers s) (the (ip_key_of ip)) \<noteq> None"

lemma ip_key_of4: "ip_key_of [a, b, c, d] = Some (0, ucast (be_word [a, b, c, d] :: 32 word))"
  by (simp add: ip_key_of_def to4_def)

lemma is_always_allowed_ipv4: "is_always_allowed 0 (ucast (w :: 32 word)) = is_ipv4_always_allowed w"
proof -
  have "drop_bit 32 (ucast w :: 64 word) = 0"
    by (rule bit_eqI) (auto simp: bit_simps dest: bit_imp_le_length)
  moreover have "ucast (ucast w :: 64 word) = w"
    by (rule bit_eqI) (auto simp: bit_simps)
  ultimately show ?thesis by (simp add: is_always_allowed_def)
qed

lemma check_dest_reach:
  "fst (check_dest t (0, ucast (be_word [a, b, c, d] :: 32 word)) s) = verdict_of (may_reach t [a, b, c, d] s)"
  by (auto simp: check_dest_def is_ip_allowed_def is_always_allowed_ipv4 ipv4_always_allowed_bytes may_reach_def
      ip_key_of4 linorder_not_le [symmetric] split: option.splits)

lemma verdict_of_pass [simp]: "verdict_of b = Pass \<longleftrightarrow> b" "verdict_of b = Drop \<longleftrightarrow> \<not> b"
  by (simp_all add: verdict_of_def)

lemma port53: "ntohs (load 2 p i) = 53 \<longleftrightarrow> port53_at p i"
proof -
  have "(53 :: 16 word) = be_word [0, 53]" by code_simp
  then show ?thesis by (simp only: ntohs_load2 be_word2_eq port53_at_def)
qed

lemma htons_types:
  "load 2 p 12 = htons_ip \<longleftrightarrow> pk_byte p 12 = 8 \<and> pk_byte p 13 = 0"
  "load 2 p 12 = htons_ipv6 \<longleftrightarrow> pk_byte p 12 = 0x86 \<and> pk_byte p 13 = 0xDD"
proof -
  have h: "htons_ip = be_word [0, 8]" "htons_ipv6 = be_word [0xDD, 0x86]" by code_simp+
  have "12 + 1 = (13 :: nat)" by simp
  then show "load 2 p 12 = htons_ip \<longleftrightarrow> pk_byte p 12 = 8 \<and> pk_byte p 13 = 0"
    "load 2 p 12 = htons_ipv6 \<longleftrightarrow> pk_byte p 12 = 0x86 \<and> pk_byte p 13 = 0xDD"
    unfolding h load2 be_word2_eq by auto
qed

lemma ipv4_fields:
  "ipv4_dest p = the (ip_key_of (rev (ipv4_at p 30)))" "ipv4_src p = the (ip_key_of (rev (ipv4_at p 26)))"
  unfolding ipv4_dest_def ipv4_src_def load4 ipv4_at_def by (simp_all add: ip_key_of4)

lemma dns_block_verdict:
  "dns_block p off n proto dest src s =
     (if off + n \<le> pk_len p \<and> (port53_at p off \<or> port53_at p (off + 2)) then
        Some (verdict_of (is_dns_traffic_valid (fst dest) (snd dest) (fst src) (snd src)
          (ntohs (load 2 p (off + 2))) (ntohs (load 2 p off)) proto s))
      else None)"
  by (auto simp: dns_block_def Let_def port53)

lemma dns_traffic_verdict:
  assumes "proto = 17 \<or> proto = 6" "port53_at p i \<or> port53_at p j"
  shows "is_dns_traffic_valid (fst dest) (snd dest) (fst src) (snd src) (ntohs (load 2 p j)) (ntohs (load 2 p i)) proto s \<longleftrightarrow>
    (if port53_at p i then port53_at p j \<or> map_of (bm_dns_servers s) src \<noteq> None else map_of (bm_dns_servers s) dest \<noteq> None)"
  using assms by (auto simp: is_dns_traffic_valid_def is_dns_server_allowed_def port53)

lemma socket_is_xdp: "socket_conn_filter t p s = xdp_conn_filter t p s"
proof -
  have "htons_ipv6 \<noteq> htons_ip" by code_simp
  then show ?thesis
    unfolding socket_conn_filter_def xdp_conn_filter_def by (auto split: option.splits)
qed

lemma xdp_ipv4:
  assumes "ipv4_packet p"
  shows "xdp_conn_filter t p s =
    (if dns_packet p then
       (verdict_of (if port53_at p 34 then port53_at p 36 \<or> dns_server (rev (ipv4_at p 26)) s
                    else dns_server (rev (ipv4_at p 30)) s), s)
     else check_dest t (the (ip_key_of (rev (ipv4_at p 30)))) s)"
proof -
  have v: "dns_block p 34 n proto (the (ip_key_of (rev (ipv4_at p 30)))) (the (ip_key_of (rev (ipv4_at p 26)))) s =
    (if 34 + n \<le> pk_len p \<and> (port53_at p 34 \<or> port53_at p 36) then
       Some (verdict_of (if port53_at p 34 then port53_at p 36 \<or> dns_server (rev (ipv4_at p 26)) s
                         else dns_server (rev (ipv4_at p 30)) s))
     else None)" if "proto = 17 \<or> proto = 6" for n proto
    using dns_traffic_verdict [OF that, of p 34 36 "the (ip_key_of (rev (ipv4_at p 30)))"
      "the (ip_key_of (rev (ipv4_at p 26)))" s]
    by (auto simp: dns_block_verdict dns_server_def)
  have "(17 :: 8 word) \<noteq> 6" by simp
  then show ?thesis
    using assms unfolding ipv4_packet_def xdp_conn_filter_def htons_types ipv4_fields
    by (simp add: v [of 17] v [of 6] dns_packet_def)
qed

text \<open>
  C13. An IPv4 packet passes the XDP filter, or the socket filter, in these cases and no others. A
  UDP or TCP packet with port 53 at one end: both ports are 53, or the list of DNS servers has the
  reversed address of the server's end. Any other packet: the reversed destination is a loopback or
  private address or has an entry that has not expired. (The filters take the bytes of an address as they
  lie in the packet, while the keys Go writes, \<open>ip_key_of\<close>, are read most significant byte
  first: allowing a.b.c.d lets packets to d.c.b.a pass, and 1.2.3.10 counts as private.)
\<close>

theorem filter_reads_addresses_reversed:
  assumes "ipv4_packet p" "flt \<in> {xdp_conn_filter, socket_conn_filter}"
  shows "fst (flt t p s) = Pass \<longleftrightarrow>
    (if dns_packet p then
       (if port53_at p 34 then port53_at p 36 \<or> dns_server (rev (ipv4_at p 26)) s
        else dns_server (rev (ipv4_at p 30)) s)
     else may_reach t (rev (ipv4_at p 30)) s)"
proof -
  have c: "fst (check_dest t (the (ip_key_of (rev (ipv4_at p 30)))) s) = verdict_of (may_reach t (rev (ipv4_at p 30)) s)"
    unfolding ipv4_at_def by (simp add: ip_key_of4 check_dest_reach)
  from assms(2) have "flt t p s = xdp_conn_filter t p s" by (auto simp: socket_is_xdp)
  then show ?thesis by (simp add: xdp_ipv4 [OF assms(1)] c)
qed

text \<open>
  The filter for control groups lets an IPv4 packet pass exactly if its destination, in the
  order in which Go writes it, is a loopback or private address or has an unexpired entry. (No
  part of the program attaches it.)
\<close>

theorem cgroup_filter_follows_whitelist:
  assumes "ipv4_packet p"
  shows "fst (cgroup_conn_filter t p s) = Pass \<longleftrightarrow> may_reach t (ipv4_at p 30) s"
proof -
  have "cgroup_conn_filter t p s = check_dest t (0, ucast (be_word (ipv4_at p 30) :: 32 word)) s"
    using assms unfolding ipv4_packet_def cgroup_conn_filter_def htons_types ntohl_load4 ipv4_at_def by simp
  then show ?thesis unfolding ipv4_at_def by (simp only: check_dest_reach verdict_of_pass)
qed

lemma check_dest_removes:
  assumes "check_dest t k s = (v, s')"
  shows "s' = s \<or> (\<exists>e. whitelist_entry k s = Some e \<and> e < t \<and> v = Drop \<and> s' = whitelist_delete k s)"
  using assms by (cases k) (auto simp: check_dest_def is_ip_allowed_def verdict_of_def split: if_splits option.splits)

lemma filters_only_remove_expired:
  assumes "flt \<in> {xdp_conn_filter, socket_conn_filter, cgroup_conn_filter}" "flt t p s = (v, s')"
  shows "s' = s \<or> (\<exists>k e. whitelist_entry k s = Some e \<and> e < t \<and> v = Drop \<and> s' = whitelist_delete k s)"
proof -
  have x: "xdp_conn_filter t p s = (v, s') \<Longrightarrow> s' = s \<or> (\<exists>k. check_dest t k s = (v, s'))"
    unfolding xdp_conn_filter_def by (auto simp del: split_paired_Ex split: if_splits option.splits)
  have c: "cgroup_conn_filter t p s = (v, s') \<Longrightarrow> s' = s \<or> (\<exists>k. check_dest t k s = (v, s'))"
    unfolding cgroup_conn_filter_def by (auto simp del: split_paired_Ex split: if_splits)
  have "s' = s \<or> (\<exists>k. check_dest t k s = (v, s'))"
    using assms x c by (auto simp: socket_is_xdp simp del: split_paired_Ex)
  then show ?thesis using check_dest_removes by blast
qed

section \<open>A packet\<close>

text \<open>An IPv4 packet from 192.0.2.7 with the given protocol, ports and destination.\<close>

definition demo_packet :: "8 word \<Rightarrow> 8 word list \<Rightarrow> ip \<Rightarrow> packet" where
  "demo_packet proto ports dst =
     (let bs = replicate 12 0 @ [8, 0] @ [0x45, 0, 0, 40, 0, 1, 0, 0, 64, proto, 0, 0, 192, 0, 2, 7] @ dst @
               ports @ replicate 16 0
      in \<lparr>pk_byte = (\<lambda>i. if i < length bs then bs ! i else 0), pk_len = length bs\<rparr>)"

definition demo_syn :: packet where
  "demo_syn = demo_packet 6 [0x9c, 0x40, 1, 187] [93, 184, 216, 34]"

definition demo_allowed :: "ip \<Rightarrow> bpf_maps_state" where
  "demo_allowed ip = \<lparr>bm_whitelist = [(the (ip_key_of ip), 1000)], bm_dns_servers = []\<rparr>"

lemma demo_syn_facts: "ipv4_packet demo_syn" "\<not> dns_packet demo_syn" "ipv4_at demo_syn 30 = [93, 184, 216, 34]"
  by code_simp+

lemma filter_reads_addresses_reversed_witness:
  "fst (xdp_conn_filter 5 demo_syn (demo_allowed [93, 184, 216, 34])) = Drop \<and>
   fst (xdp_conn_filter 5 demo_syn (demo_allowed [34, 216, 184, 93])) = Pass"
proof -
  have f: "fst (xdp_conn_filter 5 demo_syn s) = Pass \<longleftrightarrow> may_reach 5 [34, 216, 184, 93] s" for s
    using filter_reads_addresses_reversed [OF demo_syn_facts(1), of xdp_conn_filter 5 s]
    by (simp add: demo_syn_facts)
  have "\<not> may_reach 5 [34, 216, 184, 93] (demo_allowed [93, 184, 216, 34])"
    "may_reach 5 [34, 216, 184, 93] (demo_allowed [34, 216, 184, 93])" by code_simp+
  then have "fst (xdp_conn_filter 5 demo_syn (demo_allowed [93, 184, 216, 34])) \<noteq> Pass"
    "fst (xdp_conn_filter 5 demo_syn (demo_allowed [34, 216, 184, 93])) = Pass"
    unfolding f by simp_all
  then show ?thesis using verdict.exhaust by blast
qed

lemma cgroup_filter_follows_whitelist_witness:
  "fst (cgroup_conn_filter 5 demo_syn (demo_allowed [93, 184, 216, 34])) = Pass \<and>
   fst (cgroup_conn_filter 1001 demo_syn (demo_allowed [93, 184, 216, 34])) \<noteq> Pass"
proof -
  have "may_reach 5 [93, 184, 216, 34] (demo_allowed [93, 184, 216, 34])"
    "\<not> may_reach 1001 [93, 184, 216, 34] (demo_allowed [93, 184, 216, 34])" by code_simp+
  then show ?thesis
    using cgroup_filter_follows_whitelist [OF demo_syn_facts(1)] by (simp add: demo_syn_facts)
qed

end
