(* ===== verification/Dns_Intercept.thy ===== *)
theory Dns_Intercept
  imports Packet_Filter
begin

unbundle bit_operations_syntax

text \<open>
  The XDP programs of \<open>ebpf/src/dns_intercept.c\<close>, which are to read DNS answers off the wire and put
  the addresses into the whitelist. Pointers into the packet are distances from \<open>data\<close>; \<open>lim\<close> is
  \<open>end\<close>. The clock is read once per stored answer: \<open>t n\<close> is the reading with \<open>n\<close> answers to come.
\<close>

section \<open>Reading a message\<close>

function skip_dns_name :: "packet \<Rightarrow> nat \<Rightarrow> nat \<Rightarrow> nat" where
  "skip_dns_name p lim ptr =
     (if lim \<le> ptr then lim
      else if pk_byte p ptr AND 0xC0 = 0xC0 then ptr + 2
      else if pk_byte p ptr = 0 then ptr + 1
      else skip_dns_name p lim (ptr + (1 + unat (pk_byte p ptr))))"
  by pat_completeness auto
termination by (relation "measure (\<lambda>(p, lim, ptr). lim - ptr)") auto

declare skip_dns_name.simps [simp del]

fun skip_questions :: "packet \<Rightarrow> nat \<Rightarrow> nat \<Rightarrow> nat \<Rightarrow> nat option" where
  "skip_questions p lim 0 ptr = Some ptr"
| "skip_questions p lim (Suc n) ptr =
     (let q = skip_dns_name p lim ptr
      in if lim \<le> q then None
         else if lim \<le> q + 4 then None
         else skip_questions p lim n (q + 4))"

section \<open>Storing an address\<close>

text \<open>\<open>bpf_map_update_elem\<close> fails on a new key when the 65535 entries are taken; the result is ignored.\<close>

definition whitelist_max :: nat where
  "whitelist_max = 65535"

definition whitelist_update :: "ip_key \<Rightarrow> 64 word \<Rightarrow> bpf_maps_state \<Rightarrow> bpf_maps_state" where
  "whitelist_update k e s =
     (if whitelist_entry k s = None \<and> whitelist_max \<le> length (bm_whitelist s) then s
      else s\<lparr>bm_whitelist := (k, e) # filter (\<lambda>q. fst q \<noteq> k) (bm_whitelist s)\<rparr>)"

definition kernel_ttl :: "32 word \<Rightarrow> 32 word" where
  "kernel_ttl ttl = (let a = if ttl < 5 then 5 else ttl in if 86400 < a then 86400 else a)"

definition learn :: "64 word \<Rightarrow> ip_key \<Rightarrow> 32 word \<Rightarrow> bpf_maps_state \<Rightarrow> bpf_maps_state" where
  "learn ktime k ttl s = whitelist_update k (ktime + ucast (kernel_ttl ttl) * 1000000000) s"

text \<open>
  The answers: two bytes are taken for the name, ten for type, class, TTL and length. The IPv4
  program goes on over any other record; the IPv6 program reads both kinds of addresses.
\<close>

fun answers :: "(nat \<Rightarrow> 64 word) \<Rightarrow> packet \<Rightarrow> nat \<Rightarrow> nat \<Rightarrow> nat \<Rightarrow> bpf_maps_state \<Rightarrow> bpf_maps_state" where
  "answers t p lim 0 ptr s = s"
| "answers t p lim (Suc n) ptr s =
     (if lim < ptr + 12 then s
      else if lim \<le> ptr + 2 then s
      else let q = ptr + 2;
               rr_type = ntohs (load 2 p q);
               rr_class = ntohs (load 2 p (q + 2));
               ttl = ntohl (load 4 p (q + 4));
               rdlength = unat (ntohs (load 2 p (q + 8)))
           in if rr_type \<noteq> 1 \<or> rr_class \<noteq> 1 then answers t p lim n (q + (10 + rdlength)) s
              else if lim < q + 10 + rdlength then s
              else answers t p lim n (q + (10 + rdlength))
                     (learn (t n) (0, ucast (load 4 p (q + 10) :: 32 word)) ttl s))"

fun answers_v6 :: "(nat \<Rightarrow> 64 word) \<Rightarrow> packet \<Rightarrow> nat \<Rightarrow> nat \<Rightarrow> nat \<Rightarrow> bpf_maps_state \<Rightarrow> bpf_maps_state" where
  "answers_v6 t p lim 0 ptr s = s"
| "answers_v6 t p lim (Suc n) ptr s =
     (if lim < ptr + 12 then s
      else if lim \<le> ptr + 2 then s
      else let q = ptr + 2;
               rr_type = ntohs (load 2 p q);
               rr_class = ntohs (load 2 p (q + 2));
               ttl = ntohl (load 4 p (q + 4));
               rdlength = unat (ntohs (load 2 p (q + 8)))
           in if rr_type = 1 \<and> rr_class = 1 then
                (if lim < q + 10 + rdlength then s
                 else answers_v6 t p lim n (q + (10 + rdlength))
                        (learn (t n) (0, ucast (load 4 p (q + 10) :: 32 word)) ttl s))
              else if rr_type = 28 \<and> rr_class = 1 then
                (if lim < q + 10 + rdlength then s
                 else answers_v6 t p lim n (q + (10 + rdlength))
                        (learn (t n) (load 8 p (q + 10), load 8 p (q + 18)) ttl s))
              else answers_v6 t p lim n (q + (10 + rdlength)) s)"

section \<open>The programs\<close>

text \<open>The port is compared in network order, the flags are tested without exchanging their bytes.\<close>

definition dns_intercept :: "(nat \<Rightarrow> 64 word) \<Rightarrow> packet \<Rightarrow> bpf_maps_state \<Rightarrow> verdict \<times> bpf_maps_state" where
  "dns_intercept t p s =
     (if pk_len p < 14 then (Pass, s)
      else if load 2 p 12 \<noteq> htons_ip then (Pass, s)
      else if pk_len p < 34 then (Pass, s)
      else let lim = 14 + unat (ntohs (load 2 p 16))
           in if pk_len p < lim then (Pass, s)
              else if pk_byte p 23 \<noteq> 17 then (Pass, s)
              else if lim < 42 then (Pass, s)
              else if load 2 p 36 \<noteq> ntohs 53 then (Pass, s)
              else if lim < 54 then (Pass, s)
              else if (load 2 p 44 :: 16 word) AND 0x8000 = 0 then (Pass, s)
              else if ntohs (load 2 p 48) = 0 then (Pass, s)
              else (case skip_questions p lim (unat (ntohs (load 2 p 46))) 54 of
                      None \<Rightarrow> (Pass, s)
                    | Some ptr \<Rightarrow> (Pass, answers t p lim (unat (ntohs (load 2 p 48))) ptr s)))"

definition dns_intercept_v6 :: "(nat \<Rightarrow> 64 word) \<Rightarrow> packet \<Rightarrow> bpf_maps_state \<Rightarrow> verdict \<times> bpf_maps_state" where
  "dns_intercept_v6 t p s =
     (if pk_len p < 14 then (Pass, s)
      else if load 2 p 12 \<noteq> htons_ipv6 then (Pass, s)
      else if pk_len p < 54 then (Pass, s)
      else let lim = 14 + (unat (ntohs (load 2 p 18)) + 40)
           in if pk_len p < lim then (Pass, s)
              else if pk_byte p 20 \<noteq> 17 then (Pass, s)
              else if lim < 62 then (Pass, s)
              else if load 2 p 56 \<noteq> ntohs 53 then (Pass, s)
              else if lim < 74 then (Pass, s)
              else if (load 2 p 64 :: 16 word) AND 0x8000 = 0 then (Pass, s)
              else if ntohs (load 2 p 68) = 0 then (Pass, s)
              else (case skip_questions p lim (unat (ntohs (load 2 p 66))) 74 of
                      None \<Rightarrow> (Pass, s)
                    | Some ptr \<Rightarrow> (Pass, answers_v6 t p lim (unat (ntohs (load 2 p 68))) ptr s)))"

text \<open>One run of one of the five programs on a packet, and a sequence of runs on the shared maps.\<close>

datatype bpf_run =
    Xdp "64 word" packet
  | Socket "64 word" packet
  | Cgroup "64 word" packet
  | Dns "nat \<Rightarrow> 64 word" packet
  | Dns_v6 "nat \<Rightarrow> 64 word" packet

fun run_program :: "bpf_run \<Rightarrow> bpf_maps_state \<Rightarrow> verdict \<times> bpf_maps_state" where
  "run_program (Xdp t p) s = xdp_conn_filter t p s"
| "run_program (Socket t p) s = socket_conn_filter t p s"
| "run_program (Cgroup t p) s = cgroup_conn_filter t p s"
| "run_program (Dns t p) s = dns_intercept t p s"
| "run_program (Dns_v6 t p) s = dns_intercept_v6 t p s"

fun run_programs :: "bpf_run list \<Rightarrow> bpf_maps_state \<Rightarrow> bpf_maps_state" where
  "run_programs [] s = s"
| "run_programs (r # rs) s = run_programs rs (snd (run_program r s))"

section \<open>What the interceptors accept\<close>

lemma top_bit_of_second_byte: "(load 2 p i :: 16 word) AND 0x8000 = 0 \<longleftrightarrow> pk_byte p (i + 1) < 128"
proof -
  have "(load 2 p i :: 16 word) AND 0x8000 = 0 \<longleftrightarrow> uint (load 2 p i :: 16 word) div 2 ^ 15 = 0"
    by (rule masked_eq; code_simp)
  also have "\<dots> \<longleftrightarrow> uint (pk_byte p (i + 1)) * 256 + uint (pk_byte p i) < 2 ^ 15"
    unfolding load2 uint_be_word2 by (subst zdiv_eq_0_iff) (auto simp: byte_bounds)
  also have "\<dots> \<longleftrightarrow> uint (pk_byte p (i + 1)) < 128"
  proof -
    have "x * 256 + y < 2 ^ 15 \<longleftrightarrow> x < 128" if "0 \<le> y" "y < 256" for x y :: int
      using that by (simp, presburger)
    then show ?thesis using byte_bounds by blast
  qed
  finally show ?thesis by (simp add: word_less_def)
qed

lemma dest_port53: "load 2 p i = ntohs 53 \<longleftrightarrow> port53_at p i"
proof -
  have h: "ntohs 53 = be_word [53, 0]" by code_simp
  show ?thesis unfolding h load2 be_word2_eq port53_at_def by auto
qed

text \<open>
  C20. The interceptors let every packet pass, whatever they read from it, and each of them, at the offsets of its own
  IP version, changes the maps only for a packet whose
  destination port is 53 and in which bit 7 of the second byte of the DNS flags is set. (A DNS response is
  sent from port 53 to the port of the client, and what marks a response is bit 7 of the first byte; bit 7 of
  the second says that recursion is available.)
\<close>

theorem intercept_ignores_responses:
  "fst (dns_intercept t p s) = Pass \<and> fst (dns_intercept_v6 t p s) = Pass \<and>
   (\<not> (port53_at p 36 \<and> 128 \<le> pk_byte p 45) \<longrightarrow> snd (dns_intercept t p s) = s) \<and>
   (\<not> (port53_at p 56 \<and> 128 \<le> pk_byte p 65) \<longrightarrow> snd (dns_intercept_v6 t p s) = s)"
proof (intro conjI impI)
  show "fst (dns_intercept t p s) = Pass"
    by (simp add: dns_intercept_def Let_def split: option.split)
  show "fst (dns_intercept_v6 t p s) = Pass"
    by (simp add: dns_intercept_v6_def Let_def split: option.split)
  show "snd (dns_intercept t p s) = s" if "\<not> (port53_at p 36 \<and> 128 \<le> pk_byte p 45)"
    using that unfolding dns_intercept_def
    by (auto simp: dest_port53 top_bit_of_second_byte Let_def split: option.splits)
  show "snd (dns_intercept_v6 t p s) = s" if "\<not> (port53_at p 56 \<and> 128 \<le> pk_byte p 65)"
    using that unfolding dns_intercept_v6_def
    by (auto simp: dest_port53 top_bit_of_second_byte Let_def split: option.splits)
qed

section \<open>What happens to the whitelist\<close>

definition learned :: "bpf_run \<Rightarrow> 64 word \<Rightarrow> bool" where
  "learned r e \<longleftrightarrow>
     (\<exists>t p j ttl. (r = Dns t p \<or> r = Dns_v6 t p) \<and> 5 \<le> ttl \<and> ttl \<le> (86400 :: 32 word) \<and>
        e = t j + ucast ttl * 1000000000)"

definition whitelist_ok :: "bpf_maps_state \<Rightarrow> bool" where
  "whitelist_ok s \<longleftrightarrow> distinct (map fst (bm_whitelist s)) \<and> length (bm_whitelist s) \<le> whitelist_max"

definition grows :: "(64 word \<Rightarrow> bool) \<Rightarrow> bpf_maps_state \<Rightarrow> bpf_maps_state \<Rightarrow> bool" where
  "grows P s s' \<longleftrightarrow>
     (whitelist_ok s \<longrightarrow> whitelist_ok s') \<and> bm_dns_servers s' = bm_dns_servers s \<and>
     (\<forall>(k, e) \<in> set (bm_whitelist s'). (k, e) \<in> set (bm_whitelist s) \<or> P e)"

lemma grows_refl [simp]: "grows P s s"
  by (auto simp: grows_def)

lemma grows_trans: "grows P s s1 \<Longrightarrow> grows P s1 s2 \<Longrightarrow> grows P s s2"
  unfolding grows_def by fastforce

lemma kernel_ttl_bounds: "5 \<le> kernel_ttl ttl \<and> kernel_ttl ttl \<le> 86400"
  by (auto simp: kernel_ttl_def Let_def)

lemma filter_keys: "length (filter (\<lambda>q. fst q \<noteq> k) xs) < length xs" if "map_of xs k \<noteq> None"
  using that by (auto simp: map_of_eq_None_iff intro!: length_filter_less)

lemma delete_grows: "grows P s (whitelist_delete k s)"
  by (auto simp: grows_def whitelist_ok_def whitelist_delete_def distinct_map_filter
      intro: order_trans [OF length_filter_le])

lemma update_grows:
  assumes "P e"
  shows "grows P s (whitelist_update k e s)"
proof -
  have "length ((k, e) # filter (\<lambda>q. fst q \<noteq> k) (bm_whitelist s)) \<le> whitelist_max"
    if "\<not> (whitelist_entry k s = None \<and> whitelist_max \<le> length (bm_whitelist s))" "length (bm_whitelist s) \<le> whitelist_max"
  proof -
    have "length (filter (\<lambda>q. fst q \<noteq> k) (bm_whitelist s)) < whitelist_max"
    proof (cases "whitelist_entry k s")
      case None
      with that have "length (bm_whitelist s) < whitelist_max" by simp
      then show ?thesis by (rule le_less_trans [OF length_filter_le])
    next
      case (Some e)
      then show ?thesis
        using filter_keys [of "bm_whitelist s" k] that(2) by (simp add: whitelist_entry_def)
    qed
    then show ?thesis by simp
  qed
  then show ?thesis
    using assms by (auto simp: grows_def whitelist_ok_def whitelist_update_def distinct_map_filter)
qed

lemma learn_grows:
  assumes "\<And>ttl. 5 \<le> ttl \<Longrightarrow> ttl \<le> (86400 :: 32 word) \<Longrightarrow> P (ktime + ucast ttl * 1000000000)"
  shows "grows P s (learn ktime k ttl s)"
  unfolding learn_def using kernel_ttl_bounds by (blast intro: update_grows assms)

lemma answers_grow:
  assumes "\<And>j ttl. 5 \<le> ttl \<Longrightarrow> ttl \<le> (86400 :: 32 word) \<Longrightarrow> P (t j + ucast ttl * 1000000000)"
  shows "grows P s (answers t p lim n ptr s)"
proof -
  have l: "grows P s (learn (t j) k ttl s)" for j k ttl s
    by (rule learn_grows) (use assms in blast)
  show ?thesis
  proof (induction n arbitrary: ptr s)
    case (Suc n)
    note step = grows_trans [OF l Suc.IH]
    show ?case by (auto simp: Let_def step Suc.IH)
  qed simp
qed

lemma answers_v6_grow:
  assumes "\<And>j ttl. 5 \<le> ttl \<Longrightarrow> ttl \<le> (86400 :: 32 word) \<Longrightarrow> P (t j + ucast ttl * 1000000000)"
  shows "grows P s (answers_v6 t p lim n ptr s)"
proof -
  have l: "grows P s (learn (t j) k ttl s)" for j k ttl s
    by (rule learn_grows) (use assms in blast)
  show ?thesis
  proof (induction n arbitrary: ptr s)
    case (Suc n)
    note step = grows_trans [OF l Suc.IH]
    show ?case by (auto simp: Let_def step Suc.IH)
  qed simp
qed

lemma program_grows: "grows (learned r) s (snd (run_program r s))"
proof -
  have filters: "grows (learned r) s (snd (flt t p s))"
    if "flt \<in> {xdp_conn_filter, socket_conn_filter, cgroup_conn_filter}" for flt t p
    using filters_only_remove_expired [OF that, of t p s] delete_grows by (cases "flt t p s") auto
  show ?thesis
  proof (cases r)
    case (Dns t p)
    then have "grows (learned r) s (answers t p lim n ptr s)" for lim n ptr
      by (intro answers_grow) (auto simp: learned_def)
    with Dns show ?thesis by (auto simp: dns_intercept_def Let_def split: option.splits)
  next
    case (Dns_v6 t p)
    then have "grows (learned r) s (answers_v6 t p lim n ptr s)" for lim n ptr
      by (intro answers_v6_grow) (auto simp: learned_def)
    with Dns_v6 show ?thesis by (auto simp: dns_intercept_v6_def Let_def split: option.splits)
  qed (use filters in auto)
qed

lemma grows_mono: "grows P s s' \<Longrightarrow> (\<And>e. P e \<Longrightarrow> Q e) \<Longrightarrow> grows Q s s'"
  by (fastforce simp: grows_def)

lemma programs_grow: "grows (\<lambda>e. \<exists>r \<in> set rs. learned r e) s (run_programs rs s)"
proof (induction rs arbitrary: s)
  case (Cons r rs)
  have "grows (\<lambda>e. \<exists>r \<in> set (r # rs). learned r e) s (snd (run_program r s))"
    by (rule grows_mono [OF program_grows]) auto
  moreover have "grows (\<lambda>e. \<exists>r \<in> set (r # rs). learned r e) (snd (run_program r s)) (run_programs rs (snd (run_program r s)))"
    by (rule grows_mono [OF Cons.IH]) auto
  ultimately show ?case by (auto intro: grows_trans)
qed simp

text \<open>
  C24. In any sequence of runs of the five programs on shared maps the whitelist keeps at most
  65535 entries under distinct keys, the list of DNS servers does not change, and each entry was there
  before or was written by a run of an interceptor, with an expiry between 5 seconds and 24 hours after a reading
  of the clock in that run.
\<close>

theorem programs_keep_whitelist:
  assumes "whitelist_ok s"
  shows "whitelist_ok (run_programs rs s) \<and>
    bm_dns_servers (run_programs rs s) = bm_dns_servers s \<and>
    (\<forall>k e. whitelist_entry k (run_programs rs s) = Some e \<longrightarrow>
       whitelist_entry k s = Some e \<or> (\<exists>r \<in> set rs. learned r e))"
  using programs_grow [of rs s] assms
  by (auto simp: grows_def whitelist_entry_def whitelist_ok_def dest!: map_of_SomeD)

section \<open>Interceptor and filter\<close>

lemma load4_eq: "(load 4 p i :: 32 word) = load 4 q j \<longleftrightarrow> ipv4_at p i = ipv4_at q j"
  unfolding load4 be_word4_eq ipv4_at_def by auto

text \<open>
  The interceptor and the filter agree on the form of an address: when the address stored from a
  record is the destination of an IPv4 packet that is not DNS, the XDP filter lets the packet pass until
  the lifetime of the record, raised to 5 seconds or cut to 24 hours, has run out, unless the whitelist was full.
\<close>

theorem learned_address_passes:
  assumes "ipv4_packet q" "\<not> dns_packet q" "ipv4_at q 30 = ipv4_at p i"
    and "length (bm_whitelist s) < whitelist_max"
    and "t \<le> ktime + ucast (kernel_ttl ttl) * 1000000000"
  shows "fst (xdp_conn_filter t q (learn ktime (0, ucast (load 4 p i :: 32 word)) ttl s)) = Pass"
proof -
  let ?s = "learn ktime (0, ucast (load 4 p i :: 32 word)) ttl s"
  have k: "the (ip_key_of (rev (ipv4_at q 30))) = (0, ucast (load 4 p i :: 32 word))"
    using assms(3) unfolding load4_eq [symmetric] ipv4_fields(1) [symmetric] ipv4_dest_def by simp
  have "whitelist_entry (0, ucast (load 4 p i :: 32 word)) ?s = Some (ktime + ucast (kernel_ttl ttl) * 1000000000)"
    using assms(4) by (simp add: learn_def whitelist_update_def whitelist_entry_def)
  then have "fst (is_ip_allowed t 0 (ucast (load 4 p i :: 32 word)) ?s)"
    using assms(5) by (auto simp: is_ip_allowed_def dest: leD)
  then show ?thesis
    unfolding xdp_ipv4 [OF assms(1)] k using assms(2) by (auto simp: check_dest_def split: prod.splits)
qed

section \<open>Packets\<close>

text \<open>
  A DNS message over UDP with one question and one answer, ab A 93.184.216.34 with TTL 60, under the given
  ports and second byte of flags.
\<close>

definition demo_dns :: "8 word list \<Rightarrow> 8 word \<Rightarrow> packet" where
  "demo_dns ports flags =
     (let bs = replicate 12 0 @ [8, 0] @ [0x45, 0, 0, 64, 0, 1, 0, 0, 64, 17, 0, 0, 192, 0, 2, 53] @ [192, 0, 2, 7] @
               ports @ [0, 44, 0, 0] @ [0, 1, 0x81, flags, 0, 1, 0, 1, 0, 0, 0, 0] @
               [2, 97, 98, 0, 0, 1, 0, 1] @ [0xc0, 12, 0, 1, 0, 1, 0, 0, 0, 60, 0, 4, 93, 184, 216, 34]
      in \<lparr>pk_byte = (\<lambda>i. if i < length bs then bs ! i else 0), pk_len = length bs\<rparr>)"

definition no_entries :: bpf_maps_state where
  "no_entries = \<lparr>bm_whitelist = [], bm_dns_servers = []\<rparr>"

text \<open>A response as it comes from a server is not seen; one sent to port 53 is, under the reversed key.\<close>

lemma demo_dns_learned:
  "whitelist_entry (0, 0x22D8B85D)
     (snd (dns_intercept (\<lambda>_. 7) (demo_dns [0x9c, 0x40, 0, 53] 0x80) no_entries)) = Some (7 + ucast (60 :: 32 word) * 1000000000)"
proof -
  let ?p = "demo_dns [0x9c, 0x40, 0, 53] 0x80"
  have "ntohs (load 2 ?p 64) = 1" "ntohs (load 2 ?p 66) = 1" "ntohs (load 2 ?p 72) = 4"
    "ntohl (load 4 ?p 68) = 60" "(load 4 ?p 74 :: 32 word) = 0x22D8B85D" by code_simp+
  moreover have "pk_len ?p = 78" "(load 2 ?p 12 :: 16 word) = htons_ip" "ntohs (load 2 ?p 16) = 64" "pk_byte ?p 23 = 17"
    "(load 2 ?p 36 :: 16 word) = ntohs 53" "(load 2 ?p 44 :: 16 word) AND 0x8000 \<noteq> 0"
    "ntohs (load 2 ?p 46) = 1" "ntohs (load 2 ?p 48) = 1" "skip_dns_name ?p 78 54 = 58" by code_simp+
  ultimately show ?thesis
    by (simp add: dns_intercept_def Let_def learn_def whitelist_update_def whitelist_entry_def no_entries_def whitelist_max_def kernel_ttl_def)
qed

lemma intercept_ignores_responses_witness:
  "dns_intercept (\<lambda>_. 7) (demo_dns [0, 53, 0x9c, 0x40] 0x80) no_entries = (Pass, no_entries)"
proof -
  have "\<not> (port53_at (demo_dns [0, 53, 0x9c, 0x40] 0x80) 36 \<and> 128 \<le> pk_byte (demo_dns [0, 53, 0x9c, 0x40] 0x80) 45)"
    by code_simp
  then show ?thesis
    using intercept_ignores_responses [of "\<lambda>_. 7" "demo_dns [0, 53, 0x9c, 0x40] 0x80" no_entries] by (metis prod.collapse)
qed

lemma programs_keep_whitelist_witness:
  "whitelist_ok (run_programs [Dns (\<lambda>_. 7) (demo_dns [0x9c, 0x40, 0, 53] 0x80), Xdp 9 demo_syn] no_entries)"
proof -
  have "whitelist_ok no_entries" by (simp add: whitelist_ok_def no_entries_def)
  then show ?thesis by (rule conjunct1 [OF programs_keep_whitelist])
qed

lemma learned_address_passes_witness:
  "fst (xdp_conn_filter 60000000007 demo_syn
     (learn 7 (0, ucast (load 4 (demo_dns [0x9c, 0x40, 0, 53] 0x80) 74 :: 32 word)) 60 no_entries)) = Pass"
proof -
  have "ipv4_at demo_syn 30 = ipv4_at (demo_dns [0x9c, 0x40, 0, 53] 0x80) 74" by code_simp
  moreover have "length (bm_whitelist no_entries) < whitelist_max"
    by (simp add: no_entries_def whitelist_max_def)
  moreover have "(60000000007 :: 64 word) \<le> 7 + ucast (kernel_ttl 60) * 1000000000"
    by (simp add: kernel_ttl_def)
  ultimately show ?thesis by (rule learned_address_passes [OF demo_syn_facts(1,2)])
qed

end
