(* ===== verification/Gateway_Packets.thy ===== *)
theory Gateway_Packets
  imports Bpf_Kernel Dns_Intercept
begin

text \<open>
  The eBPF manager of \<open>ebpf/manager.go\<close> together with the programs of \<open>ebpf/src\<close> it loads: what happens to a
  packet on an interface after any sequence of calls and packets. The library hands out the programs of an object
  file under names; whether these are the names of the sections or of the functions is left open:
  \<open>ds\<close> and \<open>cs\<close> are the names of the programs of the two files, in the order of the source. Every \<open>Setup\<close>
  that loads anything loads all five, so the number of a program modulo 5 tells which one it is.
\<close>

section \<open>Programs and maps in the kernel\<close>

definition program_run :: "nat \<Rightarrow> (nat \<Rightarrow> 64 word) \<Rightarrow> packet \<Rightarrow> bpf_run" where
  "program_run p t q =
     (if p mod 5 = 0 then Dns t q
      else if p mod 5 = 1 then Dns_v6 t q
      else if p mod 5 = 2 then Socket (t 0) q
      else if p mod 5 = 3 then Xdp (t 0) q
      else Cgroup (t 0) q)"

text \<open>The programs that take a \<open>struct xdp_md\<close>; the kernel refuses to attach another one to an XDP hook.\<close>

definition xdp_program :: "nat \<Rightarrow> bool" where
  "xdp_program p \<longleftrightarrow> p mod 5 = 0 \<or> p mod 5 = 1 \<or> p mod 5 = 3"

definition kernel_api :: "(string \<Rightarrow> string list option) \<Rightarrow> (string \<Rightarrow> string + nat) \<Rightarrow> hash_kernel bpf_api" where
  "kernel_api catalog ifaces = (hash_api catalog ifaces)\<lparr>attach_xdp := (\<lambda>p iface kn.
     if xdp_program p then hash_attach p iface kn else (Inl ''invalid argument'', kn))\<rparr>"

text \<open>A collection's whitelist has the number \<open>h\<close>, its list of DNS servers the next one.\<close>

fun expiry_entry :: "ip_key \<times> bpf_value \<Rightarrow> (ip_key \<times> 64 word) option" where
  "expiry_entry (k, Entry_value e) = Some (k, e)"
| "expiry_entry (k, Byte_value b) = None"

fun server_entry :: "ip_key \<times> bpf_value \<Rightarrow> (ip_key \<times> 8 word) option" where
  "server_entry (k, Entry_value e) = None"
| "server_entry (k, Byte_value b) = Some (k, b)"

definition read_maps :: "nat \<Rightarrow> hash_kernel \<Rightarrow> bpf_maps_state" where
  "read_maps h kn =
     \<lparr>bm_whitelist = List.map_filter expiry_entry (hm_entries (hk_maps kn ! h)),
      bm_dns_servers = List.map_filter server_entry (hm_entries (hk_maps kn ! Suc h))\<rparr>"

definition write_maps :: "nat \<Rightarrow> bpf_maps_state \<Rightarrow> hash_kernel \<Rightarrow> hash_kernel" where
  "write_maps h s kn = kn\<lparr>hk_maps := (hk_maps kn)
     [h := (hk_maps kn ! h)\<lparr>hm_entries := map (\<lambda>(k, e). (k, Entry_value e)) (bm_whitelist s)\<rparr>,
      Suc h := (hk_maps kn ! Suc h)\<lparr>hm_entries := map (\<lambda>(k, b). (k, Byte_value b)) (bm_dns_servers s)\<rparr>]\<rparr>"

text \<open>A packet on an interface: it passes where no program is attached.\<close>

definition receive :: "nat \<Rightarrow> (nat \<Rightarrow> 64 word) \<Rightarrow> packet \<Rightarrow> hash_kernel \<Rightarrow> verdict \<times> hash_kernel" where
  "receive iface t q kn =
     (case map_of (hk_xdp kn) iface of
        None \<Rightarrow> (Pass, kn)
      | Some p \<Rightarrow>
          (let h = hk_programs kn ! p; (v, s) = run_program (program_run p t q) (read_maps h kn)
           in (v, write_maps h s kn)))"

section \<open>Runs\<close>

datatype gateway_act =
    Do_setup "string list"
  | Do_allow clock ip duration
  | Do_remove ip
  | Do_allow_server ip
  | Do_remove_server ip
  | Do_cleanup
  | Do_receive nat "nat \<Rightarrow> 64 word" packet

fun do_act :: "hash_kernel bpf_api \<Rightarrow> gateway_act \<Rightarrow> hash_kernel ebpf_manager \<Rightarrow> hash_kernel ebpf_manager" where
  "do_act api (Do_setup order) m = snd (em_setup api order m)"
| "do_act api (Do_allow ck ip ttl) m = fst (snd (em_allow_ttl api m ck ip ttl))"
| "do_act api (Do_remove ip) m = snd (em_remove api m ip)"
| "do_act api (Do_allow_server ip) m = snd (em_allow_dns_server api m ip)"
| "do_act api (Do_remove_server ip) m = snd (em_remove_dns_server api m ip)"
| "do_act api Do_cleanup m = snd (em_cleanup api m)"
| "do_act api (Do_receive i t q) m = m\<lparr>em_kernel := snd (receive i t q (em_kernel m))\<rparr>"

definition run_gateway :: "hash_kernel bpf_api \<Rightarrow> gateway_act list \<Rightarrow> hash_kernel ebpf_manager \<Rightarrow> hash_kernel ebpf_manager" where
  "run_gateway api = fold (do_act api)"

section \<open>What stays\<close>

text \<open>Everything but \<open>Setup\<close> leaves the programs alone, and attaches nothing.\<close>

definition same_hooks :: "hash_kernel ebpf_manager \<Rightarrow> hash_kernel ebpf_manager \<Rightarrow> bool" where
  "same_hooks m m' \<longleftrightarrow>
     em_programs m' = em_programs m \<and> em_config m' = em_config m \<and>
     hk_programs (em_kernel m') = hk_programs (em_kernel m) \<and>
     set (hk_xdp (em_kernel m')) \<subseteq> set (hk_xdp (em_kernel m))"

lemma same_hooks_refl [simp]: "same_hooks m m"
  by (simp add: same_hooks_def)

lemma same_hooks_trans: "same_hooks m m' \<Longrightarrow> same_hooks m' m'' \<Longrightarrow> same_hooks m m''"
  by (auto simp: same_hooks_def)

lemmas api_simps = kernel_api_def hash_api_def

lemma delete_hooks: "hk_programs (hash_delete h k kn) = hk_programs kn" "hk_xdp (hash_delete h k kn) = hk_xdp kn"
  by (simp_all add: hash_delete_def Let_def)

lemma close_links_hooks:
  "hk_programs (fold (\<lambda>l kn. kn\<lparr>hk_xdp := filter (\<lambda>p. fst p \<noteq> l) (hk_xdp kn)\<rparr>) ls kn) = hk_programs kn \<and>
   set (hk_xdp (fold (\<lambda>l kn. kn\<lparr>hk_xdp := filter (\<lambda>p. fst p \<noteq> l) (hk_xdp kn)\<rparr>) ls kn)) \<subseteq> set (hk_xdp kn)"
  by (induction ls arbitrary: kn) fastforce+

lemma receive_hooks: "hk_programs (snd (receive i t q kn)) = hk_programs kn" "hk_xdp (snd (receive i t q kn)) = hk_xdp kn"
  by (auto simp: receive_def write_maps_def Let_def split: option.splits prod.splits)

lemma allow_server_hooks: "same_hooks m (snd (em_allow_dns_server (kernel_api catalog ifaces) m ip))"
  by (auto simp: em_allow_dns_server_def same_hooks_def api_simps dest: hash_put_frame
      split: option.splits prod.splits)

lemma allow_servers_hooks: "same_hooks m (snd (em_allow_servers (kernel_api catalog ifaces) ss m))"
proof (induction ss arbitrary: m)
  case (Cons s ss)
  show ?case
  proof (cases "parse_ip s")
    case None
    with Cons show ?thesis by simp
  next
    case (Some ip)
    obtain r1 m1 where one: "em_allow_dns_server (kernel_api catalog ifaces) m ip = (r1, m1)" by (rule prod.exhaust)
    then have "same_hooks m m1" using allow_server_hooks [of m catalog ifaces ip] by simp
    with Cons.IH [of m1] one Some show ?thesis
      by (cases r1) (auto intro: same_hooks_trans)
  qed
qed simp

lemma act_hooks:
  assumes "\<And>order. a \<noteq> Do_setup order"
  shows "same_hooks m (do_act (kernel_api catalog ifaces) a m)"
proof (cases a)
  case (Do_setup order)
  then show ?thesis using assms by blast
next
  case (Do_allow ck ip ttl)
  then show ?thesis
    by (auto simp: em_allow_ttl_def same_hooks_def api_simps now_def Let_def dest: hash_put_frame
        split: option.splits prod.splits)
next
  case Do_cleanup
  then show ?thesis
    using close_links_hooks
    by (auto simp: em_cleanup_def same_hooks_def api_simps Let_def split: option.splits)
next
  case (Do_receive i t q)
  then show ?thesis by (simp add: same_hooks_def receive_hooks)
next
  case (Do_allow_server ip)
  then show ?thesis by (simp add: allow_server_hooks)
qed (auto simp: em_remove_def em_remove_dns_server_def same_hooks_def api_simps delete_hooks split: option.splits)

section \<open>Setting up\<close>

text \<open>
  The state of a run: every name stands for the program at its place in the two files, and what is attached to
  an interface is one of the first two programs, the interceptors.
\<close>

definition named_ok :: "string list \<Rightarrow> hash_kernel ebpf_manager \<Rightarrow> bool" where
  "named_ok names m \<longleftrightarrow>
     length (hk_programs (em_kernel m)) mod 5 = 0 \<and>
     (\<forall>n p. em_programs m n = Some p \<longrightarrow> names ! (p mod 5) = n)"

definition only_interceptors :: "hash_kernel ebpf_manager \<Rightarrow> bool" where
  "only_interceptors m \<longleftrightarrow> (\<forall>(i, p) \<in> set (hk_xdp (em_kernel m)). p mod 5 = 0 \<or> p mod 5 = 1)"

definition run_ok :: "ebpf_config \<Rightarrow> string list \<Rightarrow> hash_kernel ebpf_manager \<Rightarrow> bool" where
  "run_ok cfg names m \<longleftrightarrow> em_config m = cfg \<and> named_ok names m \<and> only_interceptors m"

lemma run_ok_same: "same_hooks m m' \<Longrightarrow> run_ok cfg names m \<Longrightarrow> run_ok cfg names m'"
  by (auto simp: run_ok_def named_ok_def only_interceptors_def same_hooks_def)

lemma numbered_names:
  assumes "map_of (zip xs [n ..< n + length xs]) x = Some p"
  shows "n \<le> p \<and> p < n + length xs \<and> xs ! (p - n) = x"
  using map_of_SomeD [OF assms] by (auto simp: in_set_zip)

text \<open>Both files are found: the five programs get the next five numbers.\<close>

definition object_files :: "(string \<Rightarrow> string list option) \<Rightarrow> ebpf_config \<Rightarrow> string list \<Rightarrow> string list \<Rightarrow> bool" where
  "object_files catalog cfg ds cs \<longleftrightarrow>
     catalog (path_join (ec_programs_path cfg) ''dns_intercept.o'') = Some ds \<and> length ds = 2 \<and>
     catalog (path_join (ec_programs_path cfg) ''conn_filter.o'') = Some cs \<and> length cs = 3"

lemma mod_from_base:
  assumes "n mod 5 = 0" "n \<le> p" "p < n + 5"
  shows "p mod 5 = p - (n :: nat)"
proof -
  obtain j where "p = n + j" using assms(2) le_Suc_ex by blast
  then show ?thesis using assms(1,3) mod_add_left_eq [of n 5 j] by simp
qed

lemma load_one:
  assumes "catalog path = Some xs" "em_load_one (kernel_api catalog ifaces) path what m = (r, m1)"
  defines "n \<equiv> length (hk_programs (em_kernel m))"
  shows "r = Nil_ret" "em_config m1 = em_config m" "em_interface m1 = em_interface m"
    "hk_xdp (em_kernel m1) = hk_xdp (em_kernel m)" "length (hk_programs (em_kernel m1)) = n + length xs"
    "em_programs m1 = em_programs m ++ map_of (zip xs [n ..< n + length xs])"
  using assms(2) by (auto simp: em_load_one_def api_simps hash_load_def assms(1) n_def Let_def)

lemma load_both:
  assumes "object_files catalog cfg ds cs" "em_config m = cfg" "em_load (kernel_api catalog ifaces) m = (r, m1)"
  defines "n \<equiv> length (hk_programs (em_kernel m))"
  shows "r = Nil_ret" "em_config m1 = cfg" "em_interface m1 = em_interface m" "hk_xdp (em_kernel m1) = hk_xdp (em_kernel m)"
    "length (hk_programs (em_kernel m1)) = n + 5"
    "em_programs m1 = em_programs m ++ map_of (zip ds [n ..< n + 2]) ++ map_of (zip cs [n + 2 ..< n + 2 + 3])"
proof -
  let ?api = "kernel_api catalog ifaces"
  let ?dns = "path_join (ec_programs_path cfg) ''dns_intercept.o''" and ?conn = "path_join (ec_programs_path cfg) ''conn_filter.o''"
  have c: "catalog ?dns = Some ds" "length ds = 2" "catalog ?conn = Some cs" "length cs = 3"
    using assms(1) by (simp_all add: object_files_def)
  then have there: "\<not> stat_missing ?api ?dns" "\<not> stat_missing ?api ?conn" by (simp_all add: api_simps)
  obtain r1 d where one: "em_load_one ?api ?dns ''failed to load DNS intercept'' m = (r1, d)" by (rule prod.exhaust)
  obtain r2 e where two: "em_load_one ?api ?conn ''failed to load connection filter'' d = (r2, e)" by (rule prod.exhaust)
  note l1 = load_one [OF c(1) one] and l2 = load_one [OF c(3) two]
  have "r = Nil_ret \<and> m1 = e\<lparr>em_collection := Some ?dns\<rparr>"
    using assms(2,3) one two there l1(1) l2(1) by (simp add: em_load_def Let_def)
  then show "r = Nil_ret" "em_config m1 = cfg" "em_interface m1 = em_interface m" "hk_xdp (em_kernel m1) = hk_xdp (em_kernel m)"
    "length (hk_programs (em_kernel m1)) = n + 5"
    "em_programs m1 = em_programs m ++ map_of (zip ds [n ..< n + 2]) ++ map_of (zip cs [n + 2 ..< n + 2 + 3])"
    using l1 l2 assms(2) c by (simp_all add: n_def)
qed

lemma load_named:
  assumes "object_files catalog cfg ds cs" "em_config m = cfg" "em_load (kernel_api catalog ifaces) m = (r, m1)" "named_ok (ds @ cs) m"
  shows "named_ok (ds @ cs) m1"
proof -
  let ?n = "length (hk_programs (em_kernel m))"
  note l = load_both [OF assms(1-3)]
  have lengths: "length ds = 2" "length cs = 3" using assms(1) by (simp_all add: object_files_def)
  have n: "?n mod 5 = 0" using assms(4) by (simp add: named_ok_def)
  have "(ds @ cs) ! (p mod 5) = x" if x: "em_programs m1 x = Some p" for x p
  proof -
    consider (old) "em_programs m x = Some p" | (dns) "map_of (zip ds [?n ..< ?n + 2]) x = Some p"
      | (conn) "map_of (zip cs [?n + 2 ..< ?n + 2 + 3]) x = Some p"
      using x unfolding l(6) by (auto simp: map_add_Some_iff)
    then show ?thesis
    proof cases
      case old
      then show ?thesis using assms(4) by (simp add: named_ok_def)
    next
      case dns
      then have p: "?n \<le> p" "p < ?n + 2" "ds ! (p - ?n) = x"
        using numbered_names [of ds ?n x p] lengths by auto
      have "p mod 5 = p - ?n" "p - ?n < 2" using p mod_from_base [OF n, of p] by auto
      with p lengths show ?thesis by (simp add: nth_append)
    next
      case conn
      then have p: "?n + 2 \<le> p" "p < ?n + 2 + 3" "cs ! (p - (?n + 2)) = x"
        using numbered_names [of cs "?n + 2" x p] lengths by auto
      have "p mod 5 = p - ?n" "\<not> p - ?n < 2" "p - ?n - 2 = p - (?n + 2)"
        using p mod_from_base [OF n, of p] by auto
      with p lengths show ?thesis by (simp add: nth_append)
    qed
  qed
  then show ?thesis using l(5) n by (simp add: named_ok_def mod_add_eq)
qed

text \<open>The attachment of the connection filter comes after another program has taken the hook.\<close>

lemma attach_conn_refused:
  assumes "map_of (hk_xdp (em_kernel m)) iface \<noteq> None"
  shows "em_attach_conn (kernel_api catalog ifaces) p iface m = m"
  using assms by (auto simp: em_attach_conn_def api_simps hash_attach_def split: option.splits)

text \<open>\<open>Setup\<close> takes the XDP connection filter for the DNS program.\<close>

definition filter_chosen :: "string list \<Rightarrow> string list \<Rightarrow> string list \<Rightarrow> bool" where
  "filter_chosen ds cs order \<longleftrightarrow>
     (if ''xdp_dns'' \<in> set (ds @ cs) then cs ! 1 = ''xdp_dns'' else take 1 order = [cs ! 1])"

lemma chosen_program:
  assumes "object_files catalog cfg ds cs" "em_config m = cfg" "named_ok (ds @ cs) m"
    and "em_load (kernel_api catalog ifaces) m = (r, m1)" "em_dns_program order m1 = Some p"
  shows "p mod 5 = 3 \<Longrightarrow> filter_chosen ds cs order"
proof -
  note l = load_both [OF assms(1,2,4)]
  have lengths: "length ds = 2" "length cs = 3" using assms(1) by (simp_all add: object_files_def)
  have ok: "em_programs m1 x = Some p \<Longrightarrow> (ds @ cs) ! (p mod 5) = x" for x
    using load_named [OF assms(1,2,4,3)] by (simp add: named_ok_def)
  assume three: "p mod 5 = 3"
  then have nth: "em_programs m1 x = Some p \<Longrightarrow> cs ! 1 = x" for x
    using ok [of x] lengths by (simp add: nth_append)
  show ?thesis
  proof (cases "em_programs m1 ''xdp_dns''")
    case None
    then have "''xdp_dns'' \<notin> set ds" "''xdp_dns'' \<notin> set cs"
      using lengths unfolding l(6) by (auto simp: map_of_zip_is_None split: option.splits)
    with None assms(5) nth show ?thesis
      by (auto simp: em_dns_program_def filter_chosen_def split: list.splits)
  next
    case (Some p')
    with assms(5) nth have "cs ! 1 = ''xdp_dns''" by (simp add: em_dns_program_def)
    then show ?thesis using lengths nth_mem [of 1 cs] by (simp add: filter_chosen_def)
  qed
qed

lemma setup_interceptors:
  assumes "object_files catalog cfg ds cs" "run_ok cfg (ds @ cs) m"
    and "\<not> filter_chosen ds cs order"
    and m'_def: "m' = snd (em_setup (kernel_api catalog ifaces) order m)"
  shows "run_ok cfg (ds @ cs) m'"
proof -
  let ?api = "kernel_api catalog ifaces"
  obtain r m1 where load: "em_load ?api m = (r, m1)" by (rule prod.exhaust)
  have m: "em_config m = cfg" "named_ok (ds @ cs) m" "only_interceptors m"
    using assms(2) by (simp_all add: run_ok_def)
  note l = load_both [OF assms(1) m(1) load]
  have m1: "em_config m1 = cfg" "run_ok cfg (ds @ cs) m1"
    using l(2,4) load_named [OF assms(1) m(1) load m(2)] m(3) by (simp_all add: run_ok_def only_interceptors_def)
  show ?thesis
  proof (cases "interface_by_name ?api (em_interface m1)")
    case (Inl e)
    then show ?thesis using load l(1) m1 by (simp add: m'_def em_setup_def)
  next
    case (Inr iface)
    show ?thesis
    proof (cases "em_dns_program order m1")
      case None
      then show ?thesis using load l(1) m1 Inr by (simp add: m'_def em_setup_def)
    next
      case (Some p)
      have p3: "p mod 5 \<noteq> 3" using chosen_program [OF assms(1) m(1,2) load Some] assms(3) by blast
      let ?kn = "em_kernel m1"
      let ?m2 = "m1\<lparr>em_kernel := ?kn\<lparr>hk_xdp := (iface, p) # hk_xdp ?kn\<rparr>, em_links := em_links m1 @ [iface]\<rparr>"
      show ?thesis
      proof (cases "xdp_program p \<and> map_of (hk_xdp ?kn) iface = None")
        case False
        then have "m' = m1"
          using load l(1) Inr Some by (auto simp: m'_def em_setup_def api_simps hash_attach_def)
        then show ?thesis using m1 by simp
      next
        case True
        have "attach_xdp ?api p iface ?kn = (Inr iface, ?kn\<lparr>hk_xdp := (iface, p) # hk_xdp ?kn\<rparr>)"
          using True by (simp add: api_simps hash_attach_def)
        then have "m' = snd (em_allow_servers ?api (ec_dns_servers cfg) ?m2)"
          using load l(1) Inr Some attach_conn_refused [of ?m2 iface] m1(1)
          by (simp add: m'_def em_setup_def Let_def)
        then have same: "same_hooks ?m2 m'" using allow_servers_hooks by simp
        have "p mod 5 = 0 \<or> p mod 5 = 1" using True p3 by (auto simp: xdp_program_def)
        then have "run_ok cfg (ds @ cs) ?m2"
          using m1(2) by (auto simp: run_ok_def only_interceptors_def named_ok_def)
        with same show ?thesis by (rule run_ok_same)
      qed
    qed
  qed
qed

lemma act_interceptors:
  assumes "object_files catalog cfg ds cs" "run_ok cfg (ds @ cs) m"
    and "\<And>order. a = Do_setup order \<Longrightarrow> \<not> filter_chosen ds cs order"
    and m'_def: "m' = do_act (kernel_api catalog ifaces) a m"
  shows "run_ok cfg (ds @ cs) m'"
proof (cases "\<exists>order. a = Do_setup order")
  case True
  then obtain order where "a = Do_setup order" by blast
  then show ?thesis
    using setup_interceptors [OF assms(1,2) assms(3) refl] by (simp add: m'_def)
next
  case False
  then have "same_hooks m m'" unfolding m'_def by (intro act_hooks) blast
  then show ?thesis using assms(2) by (rule run_ok_same)
qed

lemma run_interceptors:
  assumes "object_files catalog cfg ds cs" "run_ok cfg (ds @ cs) m"
    and "\<forall>order. Do_setup order \<in> set acts \<longrightarrow> \<not> filter_chosen ds cs order"
  shows "run_ok cfg (ds @ cs) (run_gateway (kernel_api catalog ifaces) acts m)"
  using assms(2,3) unfolding run_gateway_def
proof (induction acts arbitrary: m)
  case (Cons a acts)
  then show ?case
    using act_interceptors [OF assms(1) Cons.prems(1) _ refl, of a ifaces] by auto
qed simp

section \<open>The filter behind the manager\<close>

lemma interceptors_pass: "fst (dns_intercept t q s) = Pass" "fst (dns_intercept_v6 t q s) = Pass"
  by (simp_all add: dns_intercept_def dns_intercept_v6_def Let_def split: option.splits)

lemma same_fields:
  "stat_missing (kernel_api catalog ifaces) = stat_missing (hash_api catalog ifaces)"
  "load_collection (kernel_api catalog ifaces) = load_collection (hash_api catalog ifaces)"
  "map_put (kernel_api catalog ifaces) = map_put (hash_api catalog ifaces)"
  by (simp_all add: kernel_api_def)

lemma same_calls:
  "em_load (kernel_api catalog ifaces) = em_load (hash_api catalog ifaces)"
  "em_allow_ttl (kernel_api catalog ifaces) = em_allow_ttl (hash_api catalog ifaces)"
  "em_allow_dns_server (kernel_api catalog ifaces) = em_allow_dns_server (hash_api catalog ifaces)"
  unfolding em_load_def em_load_one_def em_allow_ttl_def em_allow_dns_server_def same_fields by (rule refl)+

lemma same_servers: "em_allow_servers (kernel_api catalog ifaces) ss m = em_allow_servers (hash_api catalog ifaces) ss m"
  by (induction ss arbitrary: m) (simp_all add: same_calls(3) split: option.splits prod.splits ret.splits)

text \<open>After a \<open>Setup\<close> on a fresh kernel that chose the connection filter, its whitelist is the manager's.\<close>

lemma setup_filter:
  assumes "new_manager None cfg empty_kernel = Inr m" "object_files catalog cfg ds cs" "distinct cs"
    and "filter_chosen ds cs order" "ifaces (ec_interface cfg) = Inr i"
    and "em_setup (kernel_api catalog ifaces) order m = (r, m1)"
  shows "em_maps m1 ''ip_whitelist'' = Some 2" "map_of (hk_xdp (em_kernel m1)) i = Some 3"
    "hk_programs (em_kernel m1) ! 3 = 2" "hash_look 2 j (em_kernel m1) = None"
proof -
  let ?api = "kernel_api catalog ifaces"
  have files: "catalog (path_join (ec_programs_path cfg) ''dns_intercept.o'') = Some ds"
    "catalog (path_join (ec_programs_path cfg) ''conn_filter.o'') = Some cs"
    and lengths: "length ds = 2" "length cs = 3"
    using assms(2) by (simp_all add: object_files_def)
  obtain l where l: "em_load ?api m = (Nil_ret, l)"
    and maps: "em_maps l ''ip_whitelist'' = Some 2" "em_maps l ''allowed_dns_servers'' = Some 3"
    and progs: "em_programs l = map_of (zip ds [0 ..< length ds]) ++ map_of (zip cs [length ds ..< length ds + length cs])"
      "hk_programs (em_kernel l) = replicate (length ds) 0 @ replicate (length cs) 2"
    and l0: "hk_xdp (em_kernel l) = []" "em_interface l = ec_interface cfg"
      "\<And>h j. hash_look h j (em_kernel l) = None" "em_config l = cfg" "em_links l = []"
    unfolding same_calls by (rule load_fresh [OF assms(1) files, of ifaces]) blast
  have "map_of (zip cs [2 ..< 5]) (cs ! 1) = Some ([2 ..< 5] ! 1)"
    using lengths assms(3) by (intro map_of_zip_nth) auto
  then have three: "em_programs l (cs ! 1) = Some 3" by (simp add: progs(1) lengths)
  have "em_dns_program order l = Some 3"
  proof (cases "''xdp_dns'' \<in> set (ds @ cs)")
    case True
    with assms(4) three show ?thesis by (simp add: filter_chosen_def em_dns_program_def)
  next
    case False
    then have "em_programs l ''xdp_dns'' = None"
      by (simp add: progs(1) lengths map_add_None map_of_zip_is_None)
    with False assms(4) three show ?thesis
      by (cases order) (simp_all add: filter_chosen_def em_dns_program_def)
  qed
  let ?m2 = "l\<lparr>em_kernel := (em_kernel l)\<lparr>hk_xdp := [(i, 3)]\<rparr>, em_links := [i]\<rparr>"
  have "attach_xdp ?api 3 i (em_kernel l) = (Inr i, (em_kernel l)\<lparr>hk_xdp := [(i, 3)]\<rparr>)"
    using l0(1) by (simp add: api_simps hash_attach_def xdp_program_def)
  moreover have "interface_by_name ?api = ifaces" by (simp add: api_simps)
  ultimately have run: "em_allow_servers (hash_api catalog ifaces) (ec_dns_servers cfg) ?m2 = (r, m1)"
    using assms(5,6) l l0 \<open>em_dns_program order l = Some 3\<close> attach_conn_refused [of ?m2 i]
    by (simp add: em_setup_def Let_def same_servers)
  note f = allow_servers_frame [OF run, of 3]
  show "em_maps m1 ''ip_whitelist'' = Some 2" "map_of (hk_xdp (em_kernel m1)) i = Some 3"
    "hk_programs (em_kernel m1) ! 3 = 2" "hash_look 2 j (em_kernel m1) = None"
    using f maps l0(3) [of 2 j] lengths by (simp_all add: progs(2) nth_append del: split_paired_All)
qed

lemma xdp_reach:
  assumes "ipv4_packet p" "\<not> dns_packet p"
  shows "fst (xdp_conn_filter t p s) = verdict_of (may_reach t (rev (ipv4_at p 30)) s)"
  using assms(2) unfolding xdp_ipv4 [OF assms(1)] ipv4_at_def by (simp add: ip_key_of4 check_dest_reach)

lemma interceptors_let_pass:
  assumes "run_ok ec names m"
  shows "fst (receive i t q (em_kernel m)) = Pass"
proof (cases "map_of (hk_xdp (em_kernel m)) i")
  case None
  then show ?thesis by (simp add: receive_def)
next
  case (Some p)
  then have "p mod 5 = 0 \<or> p mod 5 = 1" using assms by (auto simp: run_ok_def only_interceptors_def dest: map_of_SomeD)
  with Some show ?thesis
    using interceptors_pass by (auto simp: receive_def program_run_def Let_def split: prod.splits) (metis fst_conv)+
qed

lemma fresh_run_ok: "new_manager memlock cfg empty_kernel = Inr m \<Longrightarrow> run_ok cfg names m"
  by (auto simp: new_manager_def empty_kernel_def run_ok_def named_ok_def only_interceptors_def split: option.splits)

section \<open>Properties\<close>

text \<open>
  C8. The gateway's eBPF manager stops nothing: after any sequence of calls of \<open>Setup\<close>, of additions and removals of
  addresses and servers, of \<open>Cleanup\<close> and of packets, every packet on every interface passes, unless a
  \<open>Setup\<close> took the XDP connection filter for the DNS program. (\<open>Setup\<close> attaches one program: \<open>xdp_dns\<close> or,
  if the library knows none under that name, the first one Go's iteration over a map visits. The interceptors let
  everything pass, the two filters that are not XDP programs cannot be attached, and a second program finds the hook
  taken.)
\<close>

theorem gateway_lets_everything_pass:
  assumes "new_manager None cfg empty_kernel = Inr m" "object_files catalog cfg ds cs"
    and "\<forall>order. Do_setup order \<in> set acts \<longrightarrow> \<not> filter_chosen ds cs order"
  shows "fst (receive i t q (em_kernel (run_gateway (kernel_api catalog ifaces) acts m))) = Pass"
proof -
  have "run_ok cfg (ds @ cs) (run_gateway (kernel_api catalog ifaces) acts m)"
    using run_interceptors [OF assms(2) fresh_run_ok [OF assms(1)] assms(3)] .
  then show ?thesis by (rule interceptors_let_pass)
qed

text \<open>
  C23. Where \<open>Setup\<close> on a fresh kernel did take the connection filter, and \<open>AllowIPWithTTL\<close> then succeeded for an
  address, the filter opens another one: an IPv4 packet that is not DNS passes exactly if the reverse of its
  destination is a loopback or private address, or is the allowed address and the expiry is not over.
\<close>

theorem allowed_address_opens_reverse:
  assumes "new_manager None cfg empty_kernel = Inr m" "object_files catalog cfg ds cs" "distinct cs"
    and "filter_chosen ds cs order" "ifaces (ec_interface cfg) = Inr i"
    and "em_setup (kernel_api catalog ifaces) order m = (r, m1)"
    and "em_allow_ttl (kernel_api catalog ifaces) m1 ck ip ttl = (Nil_ret, m2, ck')"
    and "ipv4_packet q" "\<not> dns_packet q"
  shows "fst (receive i t q (em_kernel m2)) = Pass \<longleftrightarrow>
    private_ip (rev (ipv4_at q 30)) \<or>
    ip_key_of (rev (ipv4_at q 30)) = ip_key_of ip \<and> t 0 \<le> word_of_int (ck 0) + ttl"
proof -
  note s = setup_filter [OF assms(1-6)]
  let ?e = "word_of_int (ck 0) + ttl"
  obtain k kn where k: "ip_key_of ip = Some k"
    and put: "hash_put 2 k (Entry_value ?e) (em_kernel m1) = (None, kn)" and m2: "em_kernel m2 = kn"
    using assms(7) s(1) unfolding same_calls
    by (auto simp: em_allow_ttl_def hash_api_def now_def Let_def split: if_splits option.splits prod.splits)
  have "2 < length (hk_maps (em_kernel m1))" using put by (simp add: hash_put_def not_le split: if_splits)
  moreover from this have "hm_entries (hk_maps (em_kernel m1) ! 2) = []"
    using s(4) by (cases "hm_entries (hk_maps (em_kernel m1) ! 2)") (force simp: hash_look_def split: if_splits)+
  ultimately have "hm_entries (hk_maps kn ! 2) = [(k, Entry_value ?e)]"
    using put by (auto simp: hash_put_def hash_update_def split: if_splits)
  then have wl: "bm_whitelist (read_maps 2 kn) = [(k, ?e)]" by (simp add: read_maps_def List.map_filter_simps)
  have "fst (receive i t q kn) = fst (xdp_conn_filter (t 0) q (read_maps 2 kn))"
    using s(2,3) hash_put_frame [OF put]
    by (auto simp: receive_def program_run_def Let_def split: prod.splits)
  moreover have "may_reach (t 0) (rev (ipv4_at q 30)) (read_maps 2 kn) \<longleftrightarrow>
      private_ip (rev (ipv4_at q 30)) \<or> ip_key_of (rev (ipv4_at q 30)) = Some k \<and> t 0 \<le> ?e"
    unfolding may_reach_def whitelist_entry_def wl ipv4_at_def by (auto simp: ip_key_of4)
  ultimately show ?thesis by (simp add: m2 k xdp_reach [OF assms(8,9)])
qed

section \<open>Witnesses\<close>

text \<open>The two object files with the names of their functions.\<close>

definition function_catalog :: "string \<Rightarrow> string list option" where
  "function_catalog path =
     (if path = ''ebpf/compiled/dns_intercept.o'' then Some [''dns_intercept'', ''dns_intercept_v6'']
      else if path = ''ebpf/compiled/conn_filter.o'' then Some [''socket_conn_filter'', ''xdp_conn_filter'', ''cgroup_conn_filter'']
      else None)"

definition function_api :: "hash_kernel bpf_api" where
  "function_api = kernel_api function_catalog demo_ifaces"

lemma function_files:
  "object_files function_catalog ebpf_default_config [''dns_intercept'', ''dns_intercept_v6'']
     [''socket_conn_filter'', ''xdp_conn_filter'', ''cgroup_conn_filter'']"
  by (simp add: object_files_def ebpf_default_config_def paths function_catalog_def)

lemma default_interface: "demo_ifaces (ec_interface ebpf_default_config) = Inr 2"
  by (simp add: ebpf_default_config_def demo_ifaces_def)

lemma gateway_lets_everything_pass_witness:
  "fst (receive 2 (\<lambda>_. 5) demo_syn (em_kernel (run_gateway function_api
     [Do_setup [''dns_intercept_v6'', ''xdp_conn_filter''], Do_allow (\<lambda>_. 7) (v4_prefix @ [93, 184, 216, 34]) (300 * second),
      Do_setup [''dns_intercept'']] fresh_manager))) = Pass"
  unfolding function_api_def
  by (rule gateway_lets_everything_pass [OF demo_fresh function_files]) (simp add: filter_chosen_def)

lemma function_load:
  obtains l where "em_load function_api fresh_manager = (Nil_ret, l)" "\<not> em_closed l" "ec_dns_servers (em_config l) = []"
    "hk_maps (em_kernel l) = map snd declared_maps @ map snd declared_maps"
  by (simp add: fresh_manager_def new_manager_def ebpf_default_config_def function_api_def kernel_api_def
      hash_api_def em_load_def em_load_one_def paths function_catalog_def hash_load_def empty_kernel_def Let_def)

lemma setup_keeps_maps:
  assumes "em_setup function_api order m = (r, m1)" "em_load function_api m = (Nil_ret, l)" "ec_dns_servers (em_config l) = []"
  shows "em_closed m1 = em_closed l" "hk_maps (em_kernel m1) = hk_maps (em_kernel l)"
  using assms
  by (auto simp: em_setup_def em_attach_conn_def function_api_def api_simps hash_attach_def Let_def
      split: sum.splits option.splits prod.splits if_splits)

lemma function_setup:
  assumes "em_setup function_api [''xdp_conn_filter''] fresh_manager = (r, m1)"
  shows "\<not> em_closed m1" "em_maps m1 ''ip_whitelist'' = Some 2"
    "hk_maps (em_kernel m1) = map snd declared_maps @ map snd declared_maps"
proof -
  show "em_maps m1 ''ip_whitelist'' = Some 2"
    by (rule setup_filter(1) [OF demo_fresh function_files _ _ default_interface assms [unfolded function_api_def]])
      (simp_all add: filter_chosen_def)
  show "\<not> em_closed m1" "hk_maps (em_kernel m1) = map snd declared_maps @ map snd declared_maps"
    using function_load setup_keeps_maps [OF assms] by metis+
qed

lemma function_allow:
  assumes "em_setup function_api [''xdp_conn_filter''] fresh_manager = (r, m1)"
  shows "fst (em_allow_ttl function_api m1 ck (v4_prefix @ [93, 184, 216, 34]) ttl) = Nil_ret"
proof -
  have "ip_key_of (v4_prefix @ [93, 184, 216, 34]) = Some (0, ucast (be_word [93, 184, 216, 34] :: 32 word))"
    by (simp add: ip_key_of_def)
  moreover have "hk_maps (em_kernel m1) ! 2 = \<lparr>hm_max = 65535, hm_entries = []\<rparr>" "length (hk_maps (em_kernel m1)) = 4"
    by (simp_all add: function_setup(3) [OF assms] declared_maps_def)
  ultimately show ?thesis
    using function_setup(1,2) [OF assms]
    by (simp add: em_allow_ttl_def function_api_def same_fields hash_api_def hash_put_def hash_update_def now_def Let_def)
qed

lemma allowed_address_opens_reverse_witness:
  "let m1 = snd (em_setup function_api [''xdp_conn_filter''] fresh_manager);
       m2 = fst (snd (em_allow_ttl function_api m1 (\<lambda>_. 7) (v4_prefix @ [93, 184, 216, 34]) 60))
   in fst (receive 2 (\<lambda>_. 67) demo_syn (em_kernel m2)) = Drop \<and>
      fst (receive 2 (\<lambda>_. 67) (demo_packet 6 [0x9c, 0x40, 1, 187] [34, 216, 184, 93]) (em_kernel m2)) = Pass"
proof -
  let ?q = "demo_packet 6 [0x9c, 0x40, 1, 187] [34, 216, 184, 93]"
  obtain r m1 where s: "em_setup function_api [''xdp_conn_filter''] fresh_manager = (r, m1)" by (rule prod.exhaust)
  obtain r' m2 ck' where a: "em_allow_ttl function_api m1 (\<lambda>_. 7) (v4_prefix @ [93, 184, 216, 34]) 60 = (r', m2, ck')"
    by (rule prod_cases3)
  have "r' = Nil_ret" using function_allow [OF s] a by (metis fst_conv)
  then have reach: "fst (receive 2 (\<lambda>_. 67) q (em_kernel m2)) = Pass \<longleftrightarrow>
      private_ip (rev (ipv4_at q 30)) \<or> ip_key_of (rev (ipv4_at q 30)) = ip_key_of (v4_prefix @ [93, 184, 216, 34])"
    if "ipv4_packet q" "\<not> dns_packet q" for q
    using allowed_address_opens_reverse [OF demo_fresh function_files _ _ default_interface s [unfolded function_api_def]
      a [unfolded function_api_def \<open>r' = Nil_ret\<close>] that, of "\<lambda>_. 67"]
    by (simp add: filter_chosen_def)
  have "\<not> private_ip [34, 216, 184, 93]" "ip_key_of [34, 216, 184, 93] \<noteq> ip_key_of (v4_prefix @ [93, 184, 216, 34])"
    "ip_key_of [93, 184, 216, 34] = ip_key_of (v4_prefix @ [93, 184, 216, 34])"
    "ipv4_packet ?q" "\<not> dns_packet ?q" "ipv4_at ?q 30 = [34, 216, 184, 93]" by code_simp+
  then have "fst (receive 2 (\<lambda>_. 67) demo_syn (em_kernel m2)) \<noteq> Pass" "fst (receive 2 (\<lambda>_. 67) ?q (em_kernel m2)) = Pass"
    using reach [OF demo_syn_facts(1,2)] reach [of ?q] by (simp_all add: demo_syn_facts(3))
  then show ?thesis using s a verdict.exhaust by (simp add: Let_def) blast
qed

end
