(* ===== verification/Gateway_Effect.thy ===== *)
theory Gateway_Effect
  imports Gateway_Main Gateway_Packets
begin

text \<open>
  What the start of the gateway has done to the machine when \<open>main\<close> waits for its signal: the commands
  \<open>iptables\<close> has been run with, and what passes the programs in the kernel.
\<close>

section \<open>The resolution of the configured domains\<close>

lemma allow_all_keeps:
  assumes "\<And>m ck ip d r m' ck'. al m ck ip d = (r, m', ck') \<Longrightarrow> P m \<Longrightarrow> P m'"
    and "allow_all al m ck ips d = (log, p, m', ck')" "P m"
  shows "P m'"
  using assms(2,3)
proof (induction ips arbitrary: m ck log)
  case (Cons ip ips)
  obtain r m1 ck1 where a: "al m ck ip d = (r, m1, ck1)" by (rule prod_cases3)
  have "P m1" using assms(1) [OF a Cons.prems(2)] .
  with Cons a show ?case by (cases r) (auto split: prod.splits)
qed simp

lemma refresh_domains_keeps:
  assumes "\<And>m ck ip d r m' ck'. al m ck ip d = (r, m', ck') \<Longrightarrow> P m \<Longrightarrow> P m'"
    and "refresh_domains fqdn exchange al rs nms c m ck = (p, c', m', ck')" "P m"
  shows "P m'"
  using assms(2,3)
proof (induction nms arbitrary: c m ck)
  case (Cons nm nms)
  obtain x c1 ck1 where res: "resolve_with_ttl fqdn exchange rs c nm ck = (x, c1, ck1)" by (rule prod_cases3)
  show ?case
  proof (cases x)
    case (Inl e)
    with Cons res show ?thesis by simp
  next
    case (Inr it)
    obtain ips ttl where it: "it = (ips, ttl)" by (rule prod.exhaust)
    obtain log q m1 ck2 where a: "allow_all al m ck1 ips ttl = (log, q, m1, ck2)" by (rule prod_cases4)
    have "P m1" using allow_all_keeps [of al P, OF assms(1) a Cons.prems(2)] .
    with Cons res Inr it a show ?thesis by (cases q) auto
  qed
qed simp

section \<open>iptables\<close>

text \<open>A packet filter that has seen nothing but attempts to insert a rule that accepts an address.\<close>

definition insertion :: "'k exec \<Rightarrow> 'k \<Rightarrow> 'k \<Rightarrow> bool" where
  "insertion exec k k' \<longleftrightarrow> (\<exists>chain ip. k' = snd (exec (insert_argv chain (ip_string ip)) k))"

lemma run_insertion:
  assumes "it_wf m" "run_command exec (cmd_insert (it_chain m) (ip_string ip)) k = (e, k')"
  shows "insertion exec k k'"
  using assms run_insert [of "it_chain m" exec ip k] unfolding insertion_def it_wf_def by (metis snd_conv)

lemma insert_store_insertion:
  assumes "it_wf m" "it_insert_store exec m ck (ip_string ip) ttl = (r, m', ck')"
  shows "insertion exec (it_kernel m) (it_kernel m')"
  using assms(2) run_insertion [OF assms(1)]
  by (auto simp: it_insert_store_def now_def split: prod.splits option.splits)

lemma allow_insertions:
  assumes "rejects_shell_words exec" "it_wf m" "it_allow_ttl exec m ck ip ttl = (r, m', ck')"
  shows "(insertion exec)\<^sup>*\<^sup>* (it_kernel m) (it_kernel m')"
proof -
  have d: "run_ignored exec (cmd_delete (it_chain m) (ip_string ip)) m = m"
    using assms(1,2) by (intro rejected_delete) (simp_all add: it_wf_def)
  have s: "it_insert_store exec m ck1 (ip_string ip) ttl = (r, m', ck') \<Longrightarrow> ?thesis" for ck1
    using insert_store_insertion [OF assms(2)] by blast
  have e: "it_extend exec m (ip_string ip) entry new = (r, m') \<Longrightarrow> ?thesis" for entry new
    using run_insertion [OF assms(2)]
    by (auto simp: it_extend_def d Let_def intro!: r_into_rtranclp split: prod.splits option.splits)
  show ?thesis
    using assms(3) s e by (auto simp: it_allow_ttl_def d now_def Let_def split: option.splits if_splits prod.splits)
qed

section \<open>The kernel\<close>

lemma setup_on_taken_hook:
  assumes "ifaces (em_interface m) = Inr i" "map_of (hk_xdp (em_kernel m)) i \<noteq> None"
  shows "fst (em_setup (kernel_api catalog ifaces) order m) \<noteq> Nil_ret"
proof
  let ?api = "kernel_api catalog ifaces"
  assume "fst (em_setup ?api order m) = Nil_ret"
  then obtain m1 where l: "em_load ?api m = (Nil_ret, m1)"
    by (auto simp: em_setup_def split: prod.splits ret.splits)
  have "hk_xdp (em_kernel m1) = hk_xdp (em_kernel m)" "em_interface m1 = em_interface m"
    using l unfolding same_calls
    by (auto simp: em_load_def em_load_one_def hash_api_def hash_load_def Let_def
        split: if_splits prod.splits ret.splits sum.splits option.splits)
  with assms l \<open>fst (em_setup ?api order m) = Nil_ret\<close> show False
    by (auto simp: em_setup_def api_simps hash_attach_def split: option.splits if_splits)
qed

lemma same_setup:
  assumes "em_setup (kernel_api catalog ifaces) order m = (Nil_ret, m')"
  shows "em_setup (hash_api catalog ifaces) order m = (Nil_ret, m')"
proof -
  let ?k = "kernel_api catalog ifaces" and ?h = "hash_api catalog ifaces"
  obtain m1 where l: "em_load ?h m = (Nil_ret, m1)"
    using assms by (auto simp: em_setup_def same_calls split: prod.splits ret.splits)
  have f: "interface_by_name ?k = ifaces" "interface_by_name ?h = ifaces" by (simp_all add: api_simps)
  obtain i where i: "ifaces (em_interface m1) = Inr i"
    using assms l by (cases "ifaces (em_interface m1)") (auto simp: em_setup_def same_calls f)
  obtain p where p: "em_dns_program order m1 = Some p"
    using assms l i by (cases "em_dns_program order m1") (auto simp: em_setup_def same_calls f)
  have x: "xdp_program p"
    using assms l i p by (auto simp: em_setup_def same_calls f) (auto simp: api_simps split: if_splits)
  then have a: "attach_xdp ?k p i (em_kernel m1) = attach_xdp ?h p i (em_kernel m1)" by (simp add: api_simps)
  obtain k' where at: "attach_xdp ?h p i (em_kernel m1) = (Inr i, k')" "map_of (hk_xdp k') i \<noteq> None"
    using assms l i p a by (auto simp: em_setup_def same_calls f hash_api_def hash_attach_def split: if_splits)
  then show ?thesis
    using assms l i p a by (simp add: em_setup_def same_calls f Let_def attach_conn_refused attach_conn_taken same_servers)
qed

section \<open>The start\<close>

text \<open>The manager's side of the machine: only insertions by \<open>iptables\<close>, only interceptors in the kernel.\<close>

fun nothing_filtered :: "'n exec \<Rightarrow> 'n \<Rightarrow> ebpf_config \<Rightarrow> string list \<Rightarrow> ('n, hash_kernel) any_manager \<Rightarrow> bool" where
  "nothing_filtered exec n ec names (Iptables_m m) \<longleftrightarrow> it_wf m \<and> (insertion exec)\<^sup>*\<^sup>* n (it_kernel m)"
| "nothing_filtered exec n ec names (Ebpf_m m) \<longleftrightarrow> run_ok ec names m"

lemma allow_filters_nothing:
  assumes "rejects_shell_words exec"
    and "any_allow_ttl exec (kernel_api catalog ifaces) mgr ck ip ttl = (r, mgr', ck')" "nothing_filtered exec n ec names mgr"
  shows "nothing_filtered exec n ec names mgr'"
proof (cases mgr)
  case (Iptables_m m)
  obtain r1 m1 ck1 where a: "it_allow_ttl exec m ck ip ttl = (r1, m1, ck1)" by (rule prod_cases3)
  have "it_wf m" "(insertion exec)\<^sup>*\<^sup>* n (it_kernel m)" using assms(3) Iptables_m by simp_all
  with allow_insertions [OF assms(1) _ a] it_wf_allow [OF a] have "nothing_filtered exec n ec names (Iptables_m m1)"
    by (auto intro: rtranclp_trans)
  with assms(2) Iptables_m a show ?thesis by simp
next
  case (Ebpf_m m)
  have "same_hooks m (do_act (kernel_api catalog ifaces) (Do_allow ck ip ttl) m)" by (rule act_hooks) simp
  with assms(2,3) Ebpf_m show ?thesis by (auto intro: run_ok_same split: prod.splits)
qed

text \<open>What the selection leaves behind: the manager, and the kernel beside it.\<close>

lemma selection_filters_nothing:
  assumes "object_files catalog (main_ebpf_config cfg) ds cs" "\<not> filter_chosen ds cs order"
    and "select_manager (kernel_api catalog ifaces) stat_ok memlock order cfg n empty_kernel = (mgr, k1)"
  shows "(mgr = Iptables_m (new_iptables n) \<or>
      (\<exists>m0 m1. em_setup (kernel_api catalog ifaces) order m0 = (Nil_ret, m1) \<and> mgr = Ebpf_m m1 \<and>
         run_ok (main_ebpf_config cfg) (ds @ cs) m1)) \<and>
    fst (receive i t q k1) = Pass"
proof -
  let ?api = "kernel_api catalog ifaces"
  let ?ec = "main_ebpf_config cfg"
  have e: "fst (receive i t q empty_kernel) = Pass" by (simp add: receive_def empty_kernel_def)
  show ?thesis
  proof (cases "gc_use_ebpf cfg \<and> stat_ok (path_join (ec_programs_path ?ec) ''dns_intercept.o'')")
    case False
    then show ?thesis using assms(3) e by (auto simp: select_manager_def Let_def split: if_splits)
  next
    case True
    show ?thesis
    proof (cases "new_manager memlock ?ec empty_kernel")
      case (Inl x)
      then show ?thesis using assms(3) True e by (auto simp: select_manager_def Let_def)
    next
      case (Inr m0)
      obtain r m1 where su: "em_setup ?api order m0 = (r, m1)" by (rule prod.exhaust)
      have m1: "run_ok ?ec (ds @ cs) m1"
        using setup_interceptors [OF assms(1) fresh_run_ok [OF Inr] assms(2), of "m1" ifaces] su by simp
      have "same_hooks m1 (do_act ?api Do_cleanup m1)" by (rule act_hooks) simp
      then have "run_ok ?ec (ds @ cs) (snd (em_close ?api m1))"
        using m1 by (simp add: em_close_def run_ok_same)
      with m1 interceptors_let_pass have "fst (receive i t q (em_kernel m1)) = Pass"
        "fst (receive i t q (em_kernel (snd (em_close ?api m1)))) = Pass" by blast+
      then show ?thesis
        using assms(3) True Inr su m1 by (cases r) (auto simp: select_manager_def Let_def)
    qed
  qed
qed

section \<open>Properties\<close>

text \<open>
  C2. The gateway protects nothing. When \<open>main\<close> waits for its signal it has warned that it runs in DNS-only mode;
  \<open>iptables\<close>, if that was chosen, has been run with nothing but insertions of rules that accept an address, and no
  packet on any interface is dropped by a program in the kernel, whichever manager was chosen, unless a \<open>Setup\<close> took
  the connection filter for the DNS program.
\<close>

theorem started_gateway_filters_nothing:
  assumes "rejects_shell_words exec" "object_files catalog (main_ebpf_config cfg) ds cs"
    and "\<not> filter_chosen ds cs order1" "\<not> filter_chosen ds cs order2"
    and "select_manager (kernel_api catalog ifaces) stat_ok memlock order1 cfg n empty_kernel = (mgr0, k1)"
    and "main_start exec (kernel_api catalog ifaces) stat_ok memlock order1 order2 fqdn exchange cfg n empty_kernel ck =
      (dns_only, p, c, mgr, ck')"
  shows "dns_only \<and> fst (receive i t q k1) = Pass \<and>
    (case mgr of
       Iptables_m m \<Rightarrow> (insertion exec)\<^sup>*\<^sup>* n (it_kernel m)
     | Ebpf_m m \<Rightarrow> fst (receive i t q (em_kernel m)) = Pass)"
proof -
  let ?api = "kernel_api catalog ifaces" and ?ec = "main_ebpf_config cfg"
  note sel = selection_filters_nothing [OF assms(2,3,5), of i t q]
  obtain r mgr1 where su: "any_setup exec ?api order2 mgr0 = (r, mgr1)" by (rule prod.exhaust)
  have "r \<noteq> Nil_ret \<and> nothing_filtered exec n ?ec (ds @ cs) mgr1"
  proof (cases "mgr0 = Iptables_m (new_iptables n)")
    case True
    have wf: "it_wf (new_iptables n)" by (rule it_wf_new)
    moreover have "it_kernel (new_iptables n) = n" by (simp add: new_iptables_def)
    moreover from wf obtain e where "it_setup exec (new_iptables n) =
        (Err (Setup_failed ''failed to create iptables chain'' e), new_iptables n)"
      using setup_refused [OF assms(1), of "new_iptables n"] by (auto simp: it_wf_def)
    ultimately show ?thesis using su True by auto
  next
    case False
    then obtain m0 m1 where first: "em_setup ?api order1 m0 = (Nil_ret, m1)" and mgr0: "mgr0 = Ebpf_m m1"
      and ok: "run_ok ?ec (ds @ cs) m1" using sel by blast
    obtain j where j: "ifaces (em_interface m1) = Inr j" "map_of (hk_xdp (em_kernel m1)) j \<noteq> None"
      using setup_hook [OF same_setup [OF first]] by metis
    have "fst (em_setup ?api order2 m1) \<noteq> Nil_ret" by (rule setup_on_taken_hook [where ifaces = ifaces, OF j])
    moreover have "run_ok ?ec (ds @ cs) (snd (em_setup ?api order2 m1))"
      by (rule setup_interceptors [OF assms(2) ok assms(4) refl])
    ultimately show ?thesis using su mgr0 by (auto simp: prod_eq_iff)
  qed
  moreover have "nothing_filtered exec n ?ec (ds @ cs) mgr" if "nothing_filtered exec n ?ec (ds @ cs) mgr1"
    using refresh_domains_keeps [of "any_allow_ttl exec ?api" "nothing_filtered exec n ?ec (ds @ cs)", OF allow_filters_nothing [OF assms(1)] _ that]
      assms(5,6) su by (auto simp: main_start_def Let_def split: prod.splits)
  ultimately have d: "dns_only" "nothing_filtered exec n ?ec (ds @ cs) mgr"
    using assms(5,6) su by (auto simp: main_start_def Let_def split: prod.splits)
  then show ?thesis
    using sel interceptors_let_pass by (cases mgr) auto
qed

section \<open>Witnesses\<close>

lemma demo_object_files:
  "object_files function_catalog (main_ebpf_config default_config) [''dns_intercept'', ''dns_intercept_v6'']
     [''socket_conn_filter'', ''xdp_conn_filter'', ''cgroup_conn_filter'']"
  by (simp add: object_files_def main_ebpf_config_def paths function_catalog_def)

lemma started_gateway_filters_nothing_witness:
  "fst (main_start demo_exec function_api (\<lambda>_. True) None [''dns_intercept''] [''dns_intercept_v6''] id demo_exchange
     default_config [] empty_kernel (\<lambda>_. 0))"
proof -
  obtain mgr0 k1 where s: "select_manager function_api (\<lambda>_. True) None [''dns_intercept''] default_config
      ([] :: string list list) empty_kernel = (mgr0, k1)"
    by (rule prod.exhaust)
  obtain d p c m ck where m: "main_start demo_exec function_api (\<lambda>_. True) None [''dns_intercept''] [''dns_intercept_v6''] id
      demo_exchange default_config [] empty_kernel (\<lambda>_. 0) = (d, p, c, m, ck)"
    by (rule prod_cases5)
  have "d"
    using started_gateway_filters_nothing [OF demo_rejects demo_object_files _ _ s [unfolded function_api_def]
        m [unfolded function_api_def]]
    by (simp add: filter_chosen_def)
  with m show ?thesis by simp
qed

end
