(* ===== verification/Agent_Security.thy ===== *)
theory Agent_Security
  imports Go_Path Http_Common "HOL-Library.AList"
begin

text \<open>
  The hardening of the host agent, \<open>host-agent/internal/security/security.go\<close>. The machine is what the
  code can change: the files below the critical paths, the credentials of the process, its
  capabilities and its seccomp filter. Which system calls are refused, which libraries exist and what
  the command \<open>id\<close> prints is the record \<open>os_env\<close>. Warnings are only logged. Symbolic links are left out.
  The real, effective and saved user ids of the process are one, \<open>mc_uid\<close>.
\<close>

section \<open>The machine\<close>

record file_attr =
  fa_uid :: int
  fa_gid :: int
  fa_mode :: nat

datatype node = File_node file_attr | Dir_node file_attr "(string \<times> node) list"

record machine =
  mc_files :: "(string \<times> node) list"
  mc_uid :: int
  mc_gid :: int
  mc_caps :: "string list"
  mc_seccomp :: "string option"

record os_env =
  oe_missing :: "string \<Rightarrow> bool"
  oe_stat :: "string \<Rightarrow> string option"
  oe_lstat :: "string \<Rightarrow> string option"
  oe_readdir :: "string \<Rightarrow> string option"
  oe_chown :: "string \<Rightarrow> string option"
  oe_chmod :: "string \<Rightarrow> string option"
  oe_id :: "string list \<Rightarrow> string + string"
  oe_setgid :: "int \<Rightarrow> string option"
  oe_setuid :: "int \<Rightarrow> string option"

record security_config =
  sc_drop :: "string list"
  sc_seccomp :: bool
  sc_ownership :: bool
  sc_user :: string
  sc_group :: string

definition default_security_config :: security_config where
  "default_security_config =
     \<lparr>sc_drop =
        [''CAP_BPF'', ''CAP_NET_ADMIN'', ''CAP_SYS_ADMIN'', ''CAP_SYS_MODULE'', ''CAP_SYS_RAWIO'', ''CAP_SYS_BOOT'',
         ''CAP_SYS_NICE'', ''CAP_SYS_PACCT'', ''CAP_SYS_PTRACE'', ''CAP_SYS_TIME'', ''CAP_SYS_TTY_CONFIG'',
         ''CAP_DAC_OVERRIDE'', ''CAP_DAC_READ_SEARCH'', ''CAP_FOWNER'', ''CAP_FSETID'', ''CAP_KILL'', ''CAP_SETGID'',
         ''CAP_SETUID'', ''CAP_SETPCAP'', ''CAP_LINUX_IMMUTABLE'', ''CAP_NET_BIND_SERVICE'', ''CAP_NET_BROADCAST'',
         ''CAP_NET_RAW'', ''CAP_IPC_LOCK'', ''CAP_IPC_OWNER''],
      sc_seccomp = True, sc_ownership = True, sc_user = ''nobody'', sc_group = ''nogroup''\<rparr>"

definition new_security_manager :: "security_config option \<Rightarrow> security_config" where
  "new_security_manager c = (case c of None \<Rightarrow> default_security_config | Some c0 \<Rightarrow> c0)"

section \<open>Capabilities and seccomp\<close>

text \<open>The four functions the code marks as placeholders; they do what their bodies do.\<close>

definition get_current_capabilities :: "string + string list" where
  "get_current_capabilities = Inr []"

definition drop_capability :: "string \<Rightarrow> string list \<Rightarrow> machine \<Rightarrow> string option \<times> machine" where
  "drop_capability c caps m = (None, m)"

definition create_seccomp_profile :: "string + string" where
  "create_seccomp_profile = Inr ''default''"

definition apply_seccomp_to_current_thread :: "string \<Rightarrow> machine \<Rightarrow> string option \<times> machine" where
  "apply_seccomp_to_current_thread profile m = (None, m)"

definition drop_capabilities :: "security_config \<Rightarrow> machine \<Rightarrow> string option \<times> machine" where
  "drop_capabilities cfg m =
     (case get_current_capabilities of
        Inl e \<Rightarrow> (Some (''failed to get current capabilities: '' @ e), m)
      | Inr caps \<Rightarrow> (None, fold (\<lambda>c m. snd (drop_capability c caps m)) (sc_drop cfg) m))"

definition apply_seccomp :: "os_env \<Rightarrow> machine \<Rightarrow> string option \<times> machine" where
  "apply_seccomp env m =
     (if oe_missing env ''/lib64/libseccomp.so.2'' \<and> oe_missing env ''/lib/libseccomp.so.2'' then
        (Some ''seccomp library not found'', m)
      else (case create_seccomp_profile of
              Inl e \<Rightarrow> (Some (''failed to create seccomp profile: '' @ e), m)
            | Inr profile \<Rightarrow>
                (case apply_seccomp_to_current_thread profile m of
                   (Some e, m1) \<Rightarrow> (Some (''failed to apply seccomp filter: '' @ e), m1)
                 | (None, m1) \<Rightarrow> (None, m1))))"

section \<open>Files\<close>

definition critical_paths :: "string list" where
  "critical_paths = [''/app/ebpf'', ''/app/config'', ''/app/data'', ''/app/certs'', ''/app/config-server'', ''/app/host-agent'']"

text \<open>The function given to \<open>filepath.Walk\<close>, on a path that could be read.\<close>

definition secure_attr :: "os_env \<Rightarrow> string \<Rightarrow> nat \<Rightarrow> file_attr \<Rightarrow> string option \<times> file_attr" where
  "secure_attr env path mode a =
     (case oe_chown env path of
        Some e \<Rightarrow> (Some e, a)
      | None \<Rightarrow>
          (let a1 = a\<lparr>fa_uid := 0, fa_gid := 0\<rparr>
           in case oe_chmod env path of
                Some e \<Rightarrow> (Some e, a1)
              | None \<Rightarrow> (None, a1\<lparr>fa_mode := mode\<rparr>)))"

text \<open>\<open>filepath.Walk\<close>: a directory is listed, then visited, then its entries in order; an error ends it.\<close>

fun walk_node :: "os_env \<Rightarrow> string \<Rightarrow> node \<Rightarrow> string option \<times> node"
  and walk_entries :: "os_env \<Rightarrow> string \<Rightarrow> (string \<times> node) list \<Rightarrow> string option \<times> (string \<times> node) list" where
  "walk_node env path (File_node a) =
     (case secure_attr env path 416 a of (r, a1) \<Rightarrow> (r, File_node a1))"
| "walk_node env path (Dir_node a es) =
     (case oe_readdir env path of
        Some e \<Rightarrow> (Some e, Dir_node a es)
      | None \<Rightarrow>
          (case secure_attr env path 488 a of
             (Some e, a1) \<Rightarrow> (Some e, Dir_node a1 es)
           | (None, a1) \<Rightarrow> (case walk_entries env path es of (r, es1) \<Rightarrow> (r, Dir_node a1 es1))))"
| "walk_entries env path [] = (None, [])"
| "walk_entries env path ((n, nd) # es) =
     (case oe_lstat env (path_join path n) of
        Some e \<Rightarrow> (Some e, (n, nd) # es)
      | None \<Rightarrow>
          (case walk_node env (path_join path n) nd of
             (Some e, nd1) \<Rightarrow> (Some e, (n, nd1) # es)
           | (None, nd1) \<Rightarrow> (case walk_entries env path es of (r, es1) \<Rightarrow> (r, (n, nd1) # es1))))"

definition set_owner :: "node \<Rightarrow> node" where
  "set_owner nd =
     (case nd of
        File_node a \<Rightarrow> File_node (a\<lparr>fa_uid := 0, fa_gid := 0\<rparr>)
      | Dir_node a es \<Rightarrow> Dir_node (a\<lparr>fa_uid := 0, fa_gid := 0\<rparr>) es)"

definition secure_path :: "os_env \<Rightarrow> string \<Rightarrow> node \<Rightarrow> string option \<times> node" where
  "secure_path env path nd =
     (case oe_chown env path of
        Some e \<Rightarrow> (Some (''failed to chown '' @ path @ '' to root: '' @ e), nd)
      | None \<Rightarrow>
          (case set_owner nd of
             Dir_node a es \<Rightarrow>
               (case oe_lstat env path of
                  Some e \<Rightarrow> (Some (''failed to walk '' @ path @ '': '' @ e), Dir_node a es)
                | None \<Rightarrow>
                    (case walk_node env path (Dir_node a es) of
                       (Some e, nd1) \<Rightarrow> (Some (''failed to walk '' @ path @ '': '' @ e), nd1)
                     | (None, nd1) \<Rightarrow> (None, nd1)))
           | File_node a \<Rightarrow>
               (case oe_chmod env path of
                  Some e \<Rightarrow> (Some (''failed to chmod '' @ path @ '': '' @ e), File_node a)
                | None \<Rightarrow> (None, File_node (a\<lparr>fa_mode := 416\<rparr>)))))"

fun secure_paths :: "os_env \<Rightarrow> string list \<Rightarrow> machine \<Rightarrow> string option \<times> machine" where
  "secure_paths env [] m = (None, m)"
| "secure_paths env (p # ps) m =
     (case map_of (mc_files m) p of
        None \<Rightarrow> secure_paths env ps m
      | Some nd \<Rightarrow>
          (case oe_stat env p of
             Some e \<Rightarrow> (Some (''failed to stat '' @ p @ '': '' @ e), m)
           | None \<Rightarrow>
               (case secure_path env p nd of
                  (Some e, nd1) \<Rightarrow> (Some e, m\<lparr>mc_files := AList.update p nd1 (mc_files m)\<rparr>)
                | (None, nd1) \<Rightarrow> secure_paths env ps (m\<lparr>mc_files := AList.update p nd1 (mc_files m)\<rparr>))))"

definition ensure_file_permissions :: "os_env \<Rightarrow> machine \<Rightarrow> string option \<times> machine" where
  "ensure_file_permissions env m = secure_paths env critical_paths m"

section \<open>Privileges\<close>

text \<open>\<open>strconv.Atoi\<close>; the wording of its errors is not modelled.\<close>

definition atoi :: "string \<Rightarrow> int option" where
  "atoi s =
     (let neg = (take 1 s = ''-''); ds = (if take 1 s = ''-'' \<or> take 1 s = ''+'' then drop 1 s else s)
      in if ds = [] \<or> \<not> list_all is_dec_digit ds then None
         else if neg then (if 2 ^ 63 < digits_value ds then None else Some (- int (digits_value ds)))
         else if 2 ^ 63 \<le> digits_value ds then None
         else Some (int (digits_value ds)))"

definition get_user_id :: "os_env \<Rightarrow> string \<Rightarrow> string + int" where
  "get_user_id env name =
     (case oe_id env [''-u'', name] of
        Inl e \<Rightarrow> Inl (''failed to get UID for '' @ name @ '': '' @ e)
      | Inr out \<Rightarrow> (case atoi (trim_space out) of None \<Rightarrow> Inl ''failed to parse UID'' | Some n \<Rightarrow> Inr n))"

definition get_group_id :: "os_env \<Rightarrow> string \<Rightarrow> string + int" where
  "get_group_id env name =
     (case oe_id env [''-g'', name] of
        Inl e \<Rightarrow> Inl (''failed to get GID for '' @ name @ '': '' @ e)
      | Inr out \<Rightarrow> (case atoi (trim_space out) of None \<Rightarrow> Inl ''failed to parse GID'' | Some n \<Rightarrow> Inr n))"

text \<open>
  A \<open>setuid\<close> that is granted. Leaving user 0 makes the kernel clear the capabilities of the process.
\<close>

definition set_uid :: "int \<Rightarrow> machine \<Rightarrow> machine" where
  "set_uid user m = m\<lparr>mc_uid := user, mc_caps := (if mc_uid m = 0 \<and> user \<noteq> 0 then [] else mc_caps m)\<rparr>"

definition drop_privileges :: "os_env \<Rightarrow> security_config \<Rightarrow> machine \<Rightarrow> string option \<times> machine" where
  "drop_privileges env cfg m =
     (case get_user_id env (sc_user cfg) of
        Inl e \<Rightarrow> (Some (''failed to get user ID for '' @ sc_user cfg @ '': '' @ e), m)
      | Inr user \<Rightarrow>
          (case get_group_id env (sc_group cfg) of
             Inl e \<Rightarrow> (Some (''failed to get group ID for '' @ sc_group cfg @ '': '' @ e), m)
           | Inr gid \<Rightarrow>
               (case oe_setgid env gid of
                  Some e \<Rightarrow> (Some (''failed to setgid: '' @ e), m)
                | None \<Rightarrow>
                    (let m1 = m\<lparr>mc_gid := gid\<rparr>
                     in case oe_setuid env user of
                          Some e \<Rightarrow> (Some (''failed to setuid: '' @ e), m1)
                        | None \<Rightarrow>
                            (let m2 = set_uid user m1
                             in if mc_uid m2 = 0 then (Some ''failed to drop root privileges'', m2)
                                else (None, m2))))))"

section \<open>Apply\<close>

text \<open>Every failure is logged and the next measure is taken; the result is always \<open>nil\<close>.\<close>

definition security_apply :: "os_env \<Rightarrow> security_config \<Rightarrow> machine \<Rightarrow> string option \<times> machine" where
  "security_apply env cfg m =
     (let m1 = snd (drop_capabilities cfg m);
          m2 = (if sc_seccomp cfg then snd (apply_seccomp env m1) else m1);
          m3 = (if sc_ownership cfg then snd (ensure_file_permissions env m2) else m2);
          m4 = (if sc_user cfg \<noteq> [] then snd (drop_privileges env cfg m3) else m3)
      in (None, m4))"

section \<open>What the placeholders leave alone\<close>

text \<open>What no measure changes but the last: the credentials, the capabilities and the filter.\<close>

definition same_confinement :: "machine \<Rightarrow> machine \<Rightarrow> bool" where
  "same_confinement m m' \<longleftrightarrow> mc_caps m' = mc_caps m \<and> mc_seccomp m' = mc_seccomp m"

definition same_credentials :: "machine \<Rightarrow> machine \<Rightarrow> bool" where
  "same_credentials m m' \<longleftrightarrow> mc_uid m' = mc_uid m \<and> mc_gid m' = mc_gid m"

lemma drop_capabilities_idle: "drop_capabilities cfg m = (None, m)"
proof -
  have "fold (\<lambda>c m. snd (drop_capability c caps m)) cs m = m" for caps cs
    by (induction cs) (simp_all add: drop_capability_def)
  then show ?thesis by (simp add: drop_capabilities_def get_current_capabilities_def)
qed

lemma apply_seccomp_idle: "snd (apply_seccomp env m) = m"
  by (simp add: apply_seccomp_def create_seccomp_profile_def apply_seccomp_to_current_thread_def)

lemma secure_paths_frame:
  "same_confinement m (snd (secure_paths env ps m)) \<and> same_credentials m (snd (secure_paths env ps m))"
  by (induction env ps m rule: secure_paths.induct)
    (auto simp: same_confinement_def same_credentials_def split: option.splits prod.splits)

lemma drop_privileges_frame:
  "mc_seccomp (snd (drop_privileges env cfg m)) = mc_seccomp m"
  "mc_caps (snd (drop_privileges env cfg m)) =
     (if mc_uid m = 0 \<and> mc_uid (snd (drop_privileges env cfg m)) \<noteq> 0 then [] else mc_caps m)"
  by (auto simp: set_uid_def drop_privileges_def Let_def split: sum.splits option.splits)

section \<open>What securing a path does\<close>

fun secured :: "node \<Rightarrow> bool" where
  "secured (File_node a) \<longleftrightarrow> fa_uid a = 0 \<and> fa_gid a = 0 \<and> fa_mode a = 416"
| "secured (Dir_node a es) \<longleftrightarrow>
     fa_uid a = 0 \<and> fa_gid a = 0 \<and> fa_mode a = 488 \<and> (\<forall>q \<in> set es. secured (snd q))"

lemma secure_attr_ok:
  "secure_attr env path mode a = (None, a') \<Longrightarrow> fa_uid a' = 0 \<and> fa_gid a' = 0 \<and> fa_mode a' = mode"
  by (auto simp: secure_attr_def Let_def split: option.splits)

lemma walk_secures:
  "walk_node env path nd = (None, nd') \<Longrightarrow> secured nd'"
  "walk_entries env path es = (None, es') \<Longrightarrow> \<forall>q \<in> set es'. secured (snd q)"
  by (induction env path nd and env path es arbitrary: nd' and es' rule: walk_node_walk_entries.induct)
    (auto split: option.splits prod.splits dest: secure_attr_ok)

lemma secure_path_secures: "secure_path env path nd = (None, nd') \<Longrightarrow> secured nd'"
  by (auto simp: secure_path_def set_owner_def simp del: walk_node.simps
      split: option.splits node.splits prod.splits dest: walk_secures(1))

lemma secure_paths_map:
  assumes "secure_paths env ps m = (None, m')" "distinct ps"
  shows "map_of (mc_files m') p =
    (if p \<in> set ps then map_option (\<lambda>nd. snd (secure_path env p nd)) (map_of (mc_files m) p)
     else map_of (mc_files m) p)"
  using assms
  by (induction env ps m rule: secure_paths.induct)
    (auto simp: update_conv' split: option.splits prod.splits if_splits)

lemma secure_paths_each:
  assumes "secure_paths env ps m = (None, m')" "distinct ps" "p \<in> set ps" "map_of (mc_files m) p = Some nd"
  shows "fst (secure_path env p nd) = None"
  using assms
proof (induction env ps m rule: secure_paths.induct)
  case (2 env q ps m)
  show ?case
  proof (cases "p = q")
    case True
    then show ?thesis using 2(3,6) by (auto split: option.splits prod.splits)
  next
    case False
    then have "p \<in> set ps" using "2.prems"(3) by simp
    then show ?thesis
      using 2 False by (auto simp: update_conv' split: option.splits prod.splits)
  qed
qed simp

section \<open>Properties\<close>

text \<open>
  C28. The measures that are meant to confine the process do nothing. Whatever the configuration and
  whatever fails, \<open>Apply\<close> reports success; \<open>dropCapabilities\<close> and \<open>applySeccomp\<close> change nothing; there is no seccomp
  filter that was not there before; and the capabilities stay what they were unless the process has moved from root to another
  user, when the kernel takes them all. It does not move when \<open>id -u\<close> fails on the user or \<open>id -g\<close> on the
  group: then user, group and capabilities stay. (The argument of \<open>id -g\<close> is a
  user: with the default configuration it is asked for a user nogroup, where \<open>nogroup\<close> is a group.)
\<close>

theorem hardening_confines_nothing:
  "fst (security_apply env cfg m) = None \<and> drop_capabilities cfg m = (None, m) \<and> snd (apply_seccomp env m) = m \<and>
   mc_seccomp (snd (security_apply env cfg m)) = mc_seccomp m \<and>
   mc_caps (snd (security_apply env cfg m)) =
     (if mc_uid m = 0 \<and> mc_uid (snd (security_apply env cfg m)) \<noteq> 0 then [] else mc_caps m) \<and>
   ((\<exists>e. oe_id env [''-u'', sc_user cfg] = Inl e) \<or> (\<exists>e. oe_id env [''-g'', sc_group cfg] = Inl e) \<longrightarrow>
      mc_uid (snd (security_apply env cfg m)) = mc_uid m \<and> mc_gid (snd (security_apply env cfg m)) = mc_gid m \<and>
      mc_caps (snd (security_apply env cfg m)) = mc_caps m)"
proof -
  let ?m3 = "if sc_ownership cfg then snd (ensure_file_permissions env m) else m"
  have a: "security_apply env cfg m =
      (None, if sc_user cfg \<noteq> [] then snd (drop_privileges env cfg ?m3) else ?m3)"
    by (simp add: security_apply_def drop_capabilities_idle apply_seccomp_idle Let_def)
  have f: "same_confinement m ?m3 \<and> same_credentials m ?m3"
    using secure_paths_frame [of m env critical_paths]
    by (simp add: ensure_file_permissions_def same_confinement_def same_credentials_def)
  have c: "snd (drop_privileges env cfg ?m3) = ?m3"
    if "(\<exists>e. oe_id env [''-u'', sc_user cfg] = Inl e) \<or> (\<exists>e. oe_id env [''-g'', sc_group cfg] = Inl e)"
    using that by (auto simp: drop_privileges_def get_user_id_def get_group_id_def split: sum.splits option.splits)
  show ?thesis
    using f c drop_privileges_frame [of env cfg ?m3] drop_capabilities_idle apply_seccomp_idle
    unfolding a by (auto simp: same_confinement_def same_credentials_def)
qed

text \<open>
  When \<open>ensureFilePermissions\<close> returns without error, each critical path that exists, and all below it,
  belongs to root with mode 0750 for directories and 0640 for files, so a program at /app/host-agent has lost
  its execute bits; nothing else has changed.
\<close>

theorem hardening_secures_files:
  assumes "ensure_file_permissions env m = (None, m')"
  shows "(\<forall>p nd. p \<in> set critical_paths \<and> map_of (mc_files m') p = Some nd \<longrightarrow> secured nd) \<and>
    (\<forall>p. (map_of (mc_files m') p = None) = (map_of (mc_files m) p = None)) \<and>
    (\<forall>p. p \<notin> set critical_paths \<longrightarrow> map_of (mc_files m') p = map_of (mc_files m) p) \<and>
    m' = m\<lparr>mc_files := mc_files m'\<rparr>"
proof -
  have run: "secure_paths env critical_paths m = (None, m')" "distinct critical_paths"
    using assms by (simp_all add: ensure_file_permissions_def critical_paths_def)
  note files = secure_paths_map [OF run]
  have "secured nd" if p: "p \<in> set critical_paths" and nd: "map_of (mc_files m') p = Some nd" for p nd
  proof -
    from p nd files [of p] obtain nd0 where o: "map_of (mc_files m) p = Some nd0" "nd = snd (secure_path env p nd0)"
      by auto
    then have "secure_path env p nd0 = (None, nd)"
      using secure_paths_each [OF run p o(1)] by (cases "secure_path env p nd0") simp
    then show ?thesis by (rule secure_path_secures)
  qed
  moreover have "m' = m\<lparr>mc_files := mc_files m'\<rparr>"
    using secure_paths_frame [of m env critical_paths] run(1)
    by (cases m, cases m') (simp add: same_confinement_def same_credentials_def)
  ultimately show ?thesis using files by auto
qed

section \<open>A machine\<close>

text \<open>Root's machine with the users root and nobody, the agent's program and a directory of settings.\<close>

definition demo_env :: os_env where
  "demo_env =
     \<lparr>oe_missing = (\<lambda>_. False), oe_stat = (\<lambda>_. None), oe_lstat = (\<lambda>_. None), oe_readdir = (\<lambda>_. None),
      oe_chown = (\<lambda>_. None), oe_chmod = (\<lambda>_. None),
      oe_id = (\<lambda>args. if args = [''-u'', ''nobody''] \<or> args = [''-g'', ''nobody''] then Inr ''65534 '' else Inl ''exit status 1''),
      oe_setgid = (\<lambda>_. None), oe_setuid = (\<lambda>_. None)\<rparr>"

definition demo_machine :: machine where
  "demo_machine =
     \<lparr>mc_files =
        [(''/app/host-agent'', File_node \<lparr>fa_uid = 1000, fa_gid = 1000, fa_mode = 493\<rparr>),
         (''/app/config'', Dir_node \<lparr>fa_uid = 1000, fa_gid = 1000, fa_mode = 511\<rparr>
            [(''agent.yaml'', File_node \<lparr>fa_uid = 1000, fa_gid = 1000, fa_mode = 438\<rparr>)])],
      mc_uid = 0, mc_gid = 0, mc_caps = [''CAP_BPF'', ''CAP_SYS_ADMIN''], mc_seccomp = None\<rparr>"

lemma hardening_confines_nothing_witness:
  "fst (security_apply demo_env default_security_config demo_machine) = None \<and>
   mc_caps (snd (security_apply demo_env default_security_config demo_machine)) = [''CAP_BPF'', ''CAP_SYS_ADMIN''] \<and>
   mc_uid (snd (security_apply demo_env default_security_config demo_machine)) = 0"
proof -
  have "oe_id demo_env [''-g'', sc_group default_security_config] = Inl ''exit status 1''"
    by (simp add: demo_env_def default_security_config_def)
  moreover have "mc_caps demo_machine = [''CAP_BPF'', ''CAP_SYS_ADMIN'']" "mc_uid demo_machine = 0"
    by (simp_all add: demo_machine_def)
  ultimately show ?thesis
    using hardening_confines_nothing [of demo_env default_security_config demo_machine] by metis
qed

text \<open>With a group that is also a user the process does become nobody, and loses its capabilities.\<close>

lemma demo_becomes_nobody:
  "mc_uid (snd (security_apply demo_env (default_security_config\<lparr>sc_group := ''nobody''\<rparr>) demo_machine)) = 65534 \<and>
   mc_caps (snd (security_apply demo_env (default_security_config\<lparr>sc_group := ''nobody''\<rparr>) demo_machine)) = []"
proof -
  have "atoi (trim_space ''65534 '') = Some 65534"
    by (simp add: atoi_def digits_value_def trim_space_def is_space_def is_dec_digit_def)
  then have "get_user_id demo_env ''nobody'' = Inr 65534" "get_group_id demo_env ''nobody'' = Inr 65534"
    by (simp_all add: get_user_id_def get_group_id_def demo_env_def)
  then show ?thesis
    using secure_paths_frame [of demo_machine demo_env critical_paths]
    by (simp add: security_apply_def default_security_config_def drop_privileges_def demo_env_def set_uid_def Let_def
      drop_capabilities_idle [unfolded default_security_config_def] apply_seccomp_idle ensure_file_permissions_def
      same_credentials_def demo_machine_def)
qed

lemma hardening_secures_files_witness:
  "case map_of (mc_files (snd (ensure_file_permissions demo_env demo_machine))) ''/app/host-agent'' of
     None \<Rightarrow> False
   | Some nd \<Rightarrow> secured nd"
proof -
  have "fst (ensure_file_permissions demo_env demo_machine) = None" by code_simp
  then obtain m' where m': "ensure_file_permissions demo_env demo_machine = (None, m')"
    by (cases "ensure_file_permissions demo_env demo_machine") auto
  have "map_of (mc_files demo_machine) ''/app/host-agent'' \<noteq> None" "''/app/host-agent'' \<in> set critical_paths"
    by (simp_all add: demo_machine_def critical_paths_def)
  then show ?thesis
    using hardening_secures_files [OF m'] m' by (cases "map_of (mc_files m') ''/app/host-agent''") auto
qed

end
