(* ===== verification/Auth_Service.thy ===== *)
theory Auth_Service
  imports Session_Store Go_Net
begin

unbundle bit_operations_syntax

text \<open>
  \<open>AuthService\<close> of \<open>config-server/internal/auth/auth.go\<close>: the certificates it loads, the TLS settings it
  offers, fingerprints, and the test of an address against the allowed subnets, with what that uses of
  Go's \<open>net\<close>. Files, X.509, PEM, SHA-256 and name resolution are arguments. Bytes are characters in a
  file and words in a hash.
\<close>

section \<open>Networks\<close>

text \<open>
  \<open>net.ParseCIDR\<close>: an address without zone, a slash and a number of bits below \<open>0xFFFFFF\<close>. An address is
  an IPv4 one if its first separator is a dot. Errors are \<open>None\<close>; their wording is only logged.
\<close>

record ip_net =
  in_ip :: ip
  in_mask :: "8 word list"

definition addr_bits :: "string \<Rightarrow> nat" where
  "addr_bits s =
     (case dropWhile (\<lambda>c. c \<notin> {CHR ''.'', CHR '':'', CHR ''%''}) s of
        CHR ''.'' # _ \<Rightarrow> 32
      | _ \<Rightarrow> 128)"

fun dtoi :: "nat \<Rightarrow> string \<Rightarrow> nat option" where
  "dtoi n [] = Some n"
| "dtoi n (c # cs) =
     (if \<not> is_digit c then None
      else if 0xFFFFFF \<le> n * 10 + digit_val c then None
      else dtoi (n * 10 + digit_val c) cs)"

fun cidr_mask :: "nat \<Rightarrow> nat \<Rightarrow> 8 word list" where
  "cidr_mask 0 n = []"
| "cidr_mask (Suc l) n =
     (if 8 \<le> n then 0xFF # cidr_mask l (n - 8) else NOT (drop_bit n 0xFF) # cidr_mask l 0)"

text \<open>\<open>IP.Mask\<close>; \<open>nil\<close> is the empty address.\<close>

definition ip_mask :: "ip \<Rightarrow> 8 word list \<Rightarrow> ip" where
  "ip_mask ip0 m0 =
     (let m = (if length m0 = 16 \<and> length ip0 = 4 \<and> take 12 m0 = replicate 12 0xFF then drop 12 m0 else m0);
          ip = (if length m = 4 \<and> length ip0 = 16 \<and> take 12 ip0 = v4_prefix then drop 12 ip0 else ip0)
      in if length ip = length m then map2 (AND) ip m else [])"

definition parse_cidr :: "string \<Rightarrow> ip_net option" where
  "parse_cidr s =
     (let addr = takeWhile (\<lambda>c. c \<noteq> CHR ''/'') s; rest = dropWhile (\<lambda>c. c \<noteq> CHR ''/'') s
      in case rest of
           [] \<Rightarrow> None
         | _ # m \<Rightarrow>
             (case parse_ip addr of
                None \<Rightarrow> None
              | Some ip \<Rightarrow>
                  (case (if m = [] then None else dtoi 0 m) of
                     None \<Rightarrow> None
                   | Some n \<Rightarrow>
                       if addr_bits addr < n then None
                       else let mk = cidr_mask (addr_bits addr div 8) n
                            in Some \<lparr>in_ip = ip_mask ip mk, in_mask = mk\<rparr>)))"

text \<open>\<open>networkNumberAndMask\<close> and \<open>IPNet.Contains\<close>.\<close>

definition network_number :: "ip_net \<Rightarrow> ip \<times> 8 word list" where
  "network_number n =
     (let ip = (case to4 (in_ip n) of Some x \<Rightarrow> x | None \<Rightarrow> in_ip n)
      in if length ip \<noteq> 4 \<and> length ip \<noteq> 16 then ([], [])
         else if length (in_mask n) = 4 then (if length ip \<noteq> 4 then ([], []) else (ip, in_mask n))
         else if length (in_mask n) = 16 then
           (if length ip = 4 then (ip, drop 12 (in_mask n)) else (ip, in_mask n))
         else ([], []))"

definition net_contains :: "ip_net \<Rightarrow> ip \<Rightarrow> bool" where
  "net_contains n ip0 =
     (let (nn, m) = network_number n; ip = (case to4 ip0 of Some x \<Rightarrow> x | None \<Rightarrow> ip0)
      in length ip = length nn \<and> map2 (AND) nn m = map2 (AND) ip m)"

section \<open>The service\<close>

record auth_config =
  ac_cert_file :: string
  ac_key_file :: string
  ac_ca_file :: string
  ac_dev :: bool
  ac_subnets :: "string list"

datatype file_read = Read string | Not_exist | Read_error string

datatype client_auth = No_client_cert | Require_and_verify_client_cert

record raw_certificate = certificate +
  ct_raw :: "8 word list"

record tls_config =
  tc_client_auth :: client_auth
  tc_client_cas :: "string list"
  tc_min_version :: nat

record cert_service =
  au_config :: auth_config
  au_ca_pool :: "string list"
  au_server_cert :: "raw_certificate option"
  au_tls :: tls_config

definition parse_certificate ::
  "(string \<Rightarrow> string + raw_certificate) \<Rightarrow> (string \<Rightarrow> string option) \<Rightarrow> string \<Rightarrow> string + raw_certificate" where
  "parse_certificate x509 pem s =
     (case x509 s of
        Inr c \<Rightarrow> Inr c
      | Inl _ \<Rightarrow>
          (case pem s of
             None \<Rightarrow> Inl ''failed to decode PEM certificate''
           | Some b \<Rightarrow>
               (case x509 b of Inr c \<Rightarrow> Inr c | Inl e \<Rightarrow> Inl (''failed to parse certificate: '' @ e))))"

text \<open>The pool is the list of the files appended to it. A file that cannot be read is at most logged.\<close>

definition new_cert_service ::
  "(string \<Rightarrow> file_read) \<Rightarrow> (string \<Rightarrow> string + raw_certificate) \<Rightarrow> (string \<Rightarrow> string option) \<Rightarrow> auth_config \<Rightarrow>
   cert_service" where
  "new_cert_service read x509 pem cfg =
     (let pool =
            (if ac_ca_file cfg \<noteq> [] then (case read (ac_ca_file cfg) of Read s \<Rightarrow> [s] | _ \<Rightarrow> []) else []);
          cert =
            (if ac_cert_file cfg \<noteq> [] then
               (case read (ac_cert_file cfg) of
                  Read s \<Rightarrow> (case parse_certificate x509 pem s of Inr c \<Rightarrow> Some c | Inl _ \<Rightarrow> None)
                | _ \<Rightarrow> None)
             else None);
          tls = \<lparr>tc_client_auth = Require_and_verify_client_cert, tc_client_cas = pool, tc_min_version = 0x0304\<rparr>;
          tls1 = (if ac_dev cfg then tls\<lparr>tc_client_auth := No_client_cert\<rparr> else tls)
      in \<lparr>au_config = cfg, au_ca_pool = pool, au_server_cert = cert, au_tls = tls1\<rparr>)"

definition get_tls_config :: "cert_service \<Rightarrow> tls_config" where
  "get_tls_config a = au_tls a"

definition verify_client_certificate :: "cert_service \<Rightarrow> raw_certificate \<Rightarrow> string + string" where
  "verify_client_certificate a c =
     (if extract_hostname (certificate.truncate c) = [] then Inl ''no hostname found in certificate''
      else Inr (extract_hostname (certificate.truncate c)))"

definition certificate_fingerprint :: "(8 word list \<Rightarrow> 8 word list) \<Rightarrow> raw_certificate \<Rightarrow> string" where
  "certificate_fingerprint sha256 c = encode_to_string (sha256 (ct_raw c))"

definition pem_fingerprint ::
  "(8 word list \<Rightarrow> 8 word list) \<Rightarrow> (string \<Rightarrow> string + raw_certificate) \<Rightarrow> (string \<Rightarrow> string option) \<Rightarrow> string \<Rightarrow>
   string + string" where
  "pem_fingerprint sha256 x509 pem s =
     (case parse_certificate x509 pem s of Inl e \<Rightarrow> Inl e | Inr c \<Rightarrow> Inr (certificate_fingerprint sha256 c))"

section \<open>Subnets\<close>

definition is_ip_in_allowed_subnets :: "cert_service \<Rightarrow> string \<Rightarrow> bool" where
  "is_ip_in_allowed_subnets a s =
     (if ac_dev (au_config a) then True
      else (case parse_ip s of
              None \<Rightarrow> False
            | Some ip \<Rightarrow>
                list_ex (\<lambda>n. case parse_cidr n of None \<Rightarrow> False | Some c \<Rightarrow> net_contains c ip)
                  (ac_subnets (au_config a))))"

definition is_hostname_in_allowed_subnets :: "(string \<Rightarrow> string + ip list) \<Rightarrow> cert_service \<Rightarrow> string \<Rightarrow> bool" where
  "is_hostname_in_allowed_subnets lookup a h =
     (if ac_dev (au_config a) then True
      else (case lookup h of
              Inl _ \<Rightarrow> False
            | Inr ips \<Rightarrow> list_ex (\<lambda>ip. is_ip_in_allowed_subnets a (ip_string ip)) ips))"

section \<open>Masks are prefixes\<close>

text \<open>The bits of an address, the most significant first.\<close>

definition byte_bits :: "8 word \<Rightarrow> bool list" where
  "byte_bits b = map (bit b) (rev [0..<8])"

definition address_bits :: "ip \<Rightarrow> bool list" where
  "address_bits ip = concat (map byte_bits ip)"

lemma byte_bits_length [simp]: "length (byte_bits b) = 8"
  by (simp add: byte_bits_def)

lemma bit_ones: "bit (255 :: int) i \<longleftrightarrow> i < 8"
proof -
  have "(255 :: int) = mask 8" by (simp add: mask_eq_exp_minus_1)
  then show ?thesis by (simp only: bit_mask_iff) simp
qed

lemma take_bits: "take n (byte_bits x) = take n (byte_bits y) \<longleftrightarrow> (\<forall>i. i < 8 \<and> 8 - n \<le> i \<longrightarrow> bit x i = bit y i)"
proof -
  have "set (take n (rev [0..<8])) = {i. i < 8 \<and> 8 - n \<le> i}"
    by (auto simp: take_rev)
  then show ?thesis by (auto simp: byte_bits_def take_map)
qed

lemma byte_bits_eq: "byte_bits x = byte_bits y \<longleftrightarrow> x = y"
  using take_bits [of 8 x y] by (auto intro!: bit_word_eqI)

lemma and_high_bits:
  "n < 8 \<Longrightarrow> x AND NOT (drop_bit n 0xFF) = y AND NOT (drop_bit n (0xFF :: 8 word)) \<longleftrightarrow>
     take n (byte_bits x) = take n (byte_bits y)"
  unfolding take_bits by (auto simp: bit_eq_iff bit_simps bit_ones)

lemma cidr_mask_length [simp]: "length (cidr_mask l n) = l"
  by (induction l n rule: cidr_mask.induct) auto

lemma cidr_mask_prefix:
  "length xs = l \<Longrightarrow> length ys = l \<Longrightarrow>
   map2 (AND) xs (cidr_mask l n) = map2 (AND) ys (cidr_mask l n) \<longleftrightarrow>
   take n (address_bits xs) = take n (address_bits ys)"
proof (induction l n arbitrary: xs ys rule: cidr_mask.induct)
  case (2 l n)
  then obtain x xs' y ys' where xy: "xs = x # xs'" "ys = y # ys'" "length xs' = l" "length ys' = l"
    by (metis length_Suc_conv)
  show ?case
  proof (cases "8 \<le> n")
    case True
    have f: "b AND 0xFF = b" for b :: "8 word" by (rule bit_word_eqI) (auto simp: bit_simps bit_ones)
    show ?thesis
      using True 2(1) [OF True xy(3,4)] by (simp add: xy(1,2) address_bits_def f byte_bits_eq)
  next
    case False
    then show ?thesis
      using 2(2) [OF False xy(3,4)] and_high_bits [of n x y] by (simp add: xy(1,2) address_bits_def)
  qed
qed simp

lemma and_mask_twice: "map2 (AND) (map2 (AND) xs ms) ms = map2 (AND) xs (ms :: 8 word list)"
  by (induction xs ms rule: list_induct2') (simp_all add: and.assoc)

section \<open>Reading a network\<close>

lemma dotted_digits: "c \<in> set (dotted bs) \<Longrightarrow> is_digit c \<or> c = CHR ''.''"
  using dec_string_chars by (fastforce simp: dotted_def dest: join_chars)

lemma dtoi_dec: "n \<le> 32 \<Longrightarrow> dtoi 0 (dec_string n) = Some n"
proof (cases "n < 10")
  case True
  then show ?thesis by (simp add: dec_string_small)
next
  case False
  assume n: "n \<le> 32"
  then have "n div 10 < 10" "n mod 10 < 10" by simp_all
  with False n show ?thesis by (simp add: dec_string_step dec_string_small)
qed

lemma parse_cidr_dotted:
  assumes "length net = 4" "n \<le> 32"
  shows "parse_cidr (dotted net @ ''/'' @ dec_string n) =
    Some \<lparr>in_ip = map2 (AND) net (cidr_mask 4 n), in_mask = cidr_mask 4 n\<rparr>"
proof -
  have "\<not> is_digit CHR ''/''" by code_simp
  then have no: "\<forall>c \<in> set (dotted net). c \<noteq> CHR ''/''" using dotted_digits by fastforce
  have tw: "takeWhile (\<lambda>c. c \<noteq> CHR ''/'') (dotted net @ ''/'' @ dec_string n) = dotted net"
    using no by (simp add: takeWhile_append)
  have dw: "dropWhile (\<lambda>c. c \<noteq> CHR ''/'') (dotted net @ ''/'' @ dec_string n) = CHR ''/'' # dec_string n"
    using no by (simp add: dropWhile_append)
  obtain a b c d where "net = [a, b, c, d]" using four_bytes [OF assms(1)] by blast
  then have "dotted net = dec_string (unat a) @ CHR ''.'' # join ''.'' (map (\<lambda>b. dec_string (unat b)) [b, c, d])"
    by (simp add: dotted_def)
  then have "addr_bits (dotted net) = 32"
    using dropWhile_digits [of "dec_string (unat a)"] by (simp add: addr_bits_def dec_string_chars)
  then show ?thesis
    using assms unfolding parse_cidr_def tw dw
    by (simp add: parse_ip_dotted dtoi_dec ip_mask_def Let_def)
qed

lemma net_contains_prefix:
  assumes "length net = 4" "parse_ip s = Some ip"
  shows "net_contains \<lparr>in_ip = map2 (AND) net (cidr_mask 4 n), in_mask = cidr_mask 4 n\<rparr> ip \<longleftrightarrow>
    (\<exists>x. to4 ip = Some x \<and> take n (address_bits x) = take n (address_bits net))"
proof (cases "to4 ip")
  case None
  then have "length ip \<noteq> 4" by (auto simp: to4_def)
  with None assms(1) show ?thesis by (simp add: net_contains_def network_number_def to4_def)
next
  case (Some x)
  then have l: "length x = 4" by (rule to4_length)
  have "net_contains \<lparr>in_ip = map2 (AND) net (cidr_mask 4 n), in_mask = cidr_mask 4 n\<rparr> ip \<longleftrightarrow>
    map2 (AND) net (cidr_mask 4 n) = map2 (AND) x (cidr_mask 4 n)"
    using Some assms(1) l by (simp add: net_contains_def network_number_def and_mask_twice to4_def [of "map2 _ _ _"])
  also have "\<dots> \<longleftrightarrow> take n (address_bits net) = take n (address_bits x)"
    by (rule cidr_mask_prefix [OF assms(1) l])
  finally show ?thesis using Some by auto
qed

section \<open>Property\<close>

text \<open>
  C40. With subnets written as a.b.c.d/n, \<open>IsIPInAllowedSubnets\<close> accepts a text, outside development
  mode, exactly if it is the text of an address with an IPv4 form whose first n bits are those of one of
  the subnets. (Nothing in the server calls it: the setting \<open>allowed_subnets\<close> has no effect.)
\<close>

theorem allowed_subnets_are_prefixes:
  assumes "ac_subnets (au_config a) = map (\<lambda>(net, n). dotted net @ ''/'' @ dec_string n) nets"
    and "\<forall>(net, n) \<in> set nets. length net = 4 \<and> n \<le> 32"
  shows "is_ip_in_allowed_subnets a s \<longleftrightarrow>
    ac_dev (au_config a) \<or>
    (\<exists>ip x. parse_ip s = Some ip \<and> to4 ip = Some x \<and>
       (\<exists>(net, n) \<in> set nets. take n (address_bits x) = take n (address_bits net)))"
proof (cases "parse_ip s")
  case (Some ip)
  have "(case parse_cidr (dotted net @ ''/'' @ dec_string n) of None \<Rightarrow> False | Some c \<Rightarrow> net_contains c ip) \<longleftrightarrow>
    (\<exists>x. to4 ip = Some x \<and> take n (address_bits x) = take n (address_bits net))"
    if "(net, n) \<in> set nets" for net n
  proof -
    have l: "length net = 4" "n \<le> 32" using that assms(2) by auto
    show ?thesis
      unfolding parse_cidr_dotted [OF l] by (simp add: net_contains_prefix [OF l(1) Some])
  qed
  then have "(\<exists>q \<in> set nets. case parse_cidr (dotted (fst q) @ ''/'' @ dec_string (snd q)) of
      None \<Rightarrow> False | Some c \<Rightarrow> net_contains c ip) \<longleftrightarrow>
    (\<exists>q \<in> set nets. \<exists>x. to4 ip = Some x \<and> take (snd q) (address_bits x) = take (snd q) (address_bits (fst q)))"
    by (intro bex_cong refl) (simp only: prod.collapse)
  then have "list_ex (\<lambda>n. case parse_cidr n of None \<Rightarrow> False | Some c \<Rightarrow> net_contains c ip) (ac_subnets (au_config a)) \<longleftrightarrow>
    (\<exists>q \<in> set nets. \<exists>x. to4 ip = Some x \<and> take (snd q) (address_bits x) = take (snd q) (address_bits (fst q)))"
    unfolding assms(1) list_ex_iff set_map bex_simps(7) by (simp add: case_prod_beta)
  then show ?thesis unfolding is_ip_in_allowed_subnets_def case_prod_beta using Some by auto
qed (simp add: is_ip_in_allowed_subnets_def)

section \<open>Witness\<close>

definition demo_service :: cert_service where
  "demo_service =
     new_cert_service (\<lambda>_. Not_exist) (\<lambda>_. Inl ''malformed certificate'') (\<lambda>_. None)
       \<lparr>ac_cert_file = [], ac_key_file = [], ac_ca_file = [], ac_dev = False,
        ac_subnets = [''10.0.0.0/8'', ''172.16.0.0/12'']\<rparr>"

lemma allowed_subnets_are_prefixes_witness:
  "is_ip_in_allowed_subnets demo_service ''172.31.2.7'' \<and> \<not> is_ip_in_allowed_subnets demo_service ''172.32.2.7''"
proof -
  let ?nets = "[([10, 0, 0, 0], 8), ([172, 16, 0, 0], 12)] :: (ip \<times> nat) list"
  have n: "ac_subnets (au_config demo_service) = map (\<lambda>(net, n). dotted net @ ''/'' @ dec_string n) ?nets"
    "\<forall>(net, n) \<in> set ?nets. length net = 4 \<and> n \<le> 32"
    by code_simp+
  note t = allowed_subnets_are_prefixes [OF n]
  have "parse_ip ''172.31.2.7'' = Some (v4_prefix @ [172, 31, 2, 7])" "parse_ip ''172.32.2.7'' = Some (v4_prefix @ [172, 32, 2, 7])"
    "\<not> ac_dev (au_config demo_service)"
    "take 12 (address_bits [172, 31, 2, 7]) = take 12 (address_bits [172, 16, 0, 0])"
    "take 12 (address_bits [172, 32, 2, 7]) \<noteq> take 12 (address_bits [172, 16, 0, 0])"
    "take 8 (address_bits [172, 32, 2, 7]) \<noteq> take 8 (address_bits [10, 0, 0, 0])"
    by code_simp+
  then show ?thesis unfolding t by simp
qed

end
