(* ===== verification/Spec2Isabelle.thy ===== *)
theory Spec2Isabelle
  imports Gateway_Run Api_Facts Api_Auth_Facts Api_Json_Facts Ws_Hub_Facts Agent_Link Agent_Ebpf
    Gateway_Effect Agent_Security Auth_Service
begin

text \<open>
  DNS egress control: a gateway that resolves names and opens the packet filter for the
  addresses it has answered, and a configuration server that hosts ask for their filter settings.

  The gateway (\<open>main.go\<close>, \<open>ebpf/manager.go\<close>).
  \<^item> \<open>Egress_Prelude\<close>, \<open>Go_Strings\<close>, \<open>Go_Net\<close>: time, durations as 64-bit words, clocks as streams of
    readings; what the code uses of Go's \<open>strings\<close> and \<open>net\<close>.
  \<^item> \<open>Domain_Cache\<close>, \<open>Gateway_Config\<close>, \<open>Dns_Resolver\<close>, \<open>Dns_Server\<close>: \<open>DomainCache\<close>, \<open>Config\<close>,
    \<open>DNSResolver\<close>, \<open>DNSServer\<close>. The exchange with the upstream server is a parameter.
  \<^item> \<open>Firewall_Contract\<close>: the interface \<open>FirewallManager\<close> as a locale. \<open>Mock_Firewall\<close>,
    \<open>Iptables_Firewall\<close> and \<open>Bpf_Kernel\<close> interpret it on the three managers of the code. The
    execution of \<open>iptables\<close> and the kernel operations of the eBPF library are parameters.
  \<^item> \<open>Packet_Filter\<close>, \<open>Dns_Intercept\<close>: the C programs of \<open>ebpf/src\<close> on packets of bytes and the two
    maps they share with the Go managers. \<open>Gateway_Packets\<close> puts the Go manager, the kernel and these
    programs together: what happens to a packet after any sequence of calls and packets.
  \<^item> \<open>Gateway_Main\<close>, \<open>Gateway_Run\<close>: the start-up in \<open>main\<close>, and the interleaving of queries, domain
    monitor and cleanup loops as a step relation. \<open>Gateway_Effect\<close>: what the start has done to the machine.

  The configuration server (\<open>config-server\<close>).
  \<^item> \<open>Json_Text\<close>, \<open>Config_Models\<close>, \<open>Config_Db\<close>, \<open>Config_Db_Facts\<close>: \<open>internal/models\<close> and
    \<open>internal/db\<close>: the tables, the SQL statements and the repositories. \<open>id_table\<close> is the contract of
    a table with row ids. Connections that fail or do not enforce foreign keys are an input stream.
  \<^item> \<open>Http_Common\<close>, \<open>Hostname_Pattern\<close>, \<open>Host_Api\<close>, \<open>Group_Api\<close>, \<open>Assignment_Api\<close>, \<open>Config_Api\<close>: the
    handlers of \<open>internal/api/hosts.go\<close>, \<open>groups.go\<close>, \<open>assignments.go\<close>, \<open>configurations.go\<close>, each a
    function of the decoded request, the database and the clock. \<open>Host_Api_Facts\<close> has what is
    particular to hosts; \<open>Api_Facts\<close> has the 25 handlers as the relation \<open>api_call\<close> and the locale
    \<open>db_property\<close>, by which what the repositories keep is kept by every request.
  \<^item> \<open>Json_Doc\<close>, \<open>Json_Request\<close>, \<open>Server_Json\<close>, \<open>Api_Json\<close>, \<open>Api_Json_Facts\<close>: the JSON of the interface: how a
    body is decoded into the structure of its handler, what every response is for a client, and what
    holds from one to the other.
  \<^item> \<open>Session_Store\<close>, \<open>Api_Routes\<close>, \<open>Api_Auth\<close>, \<open>Api_Auth_Facts\<close>, \<open>Web_Pages\<close>, \<open>Go_Time\<close>, \<open>Go_Path\<close>:
    sessions and passwords (\<open>internal/auth\<close>), the route table, the middleware, login and logout
    (\<open>server.go\<close>, \<open>auth.go\<close>), the pages (\<open>internal/web\<close>). The router \<open>chi\<close> is a parameter;
    \<open>routes_like\<close> says what is relied on, and \<open>first_route\<close> is a router that satisfies it.
  \<^item> \<open>Ws_Hub\<close>, \<open>Ws_Hub_Facts\<close>: the hub of \<open>websocket.go\<close> over a store of clients with their channels, with the parts of
    its operations that run undisturbed and these operations as runs of their parts. \<open>hub_step\<close> interleaves the parts: the
    loop of \<open>Run\<close> client by client, the two halves of \<open>SendToHost\<close> and of \<open>register_host\<close>, and each reader and writer
    with their failing reads and writes; the messages accepted, written and lost are ghosts. A single access to a map is atomic,
    which Go guarantees only under the lock; \<open>Run\<close> deletes from the maps under the lock for reading.
  \<^item> \<open>Auth_Service\<close>: the rest of \<open>internal/auth/auth.go\<close>: certificates, TLS settings, subnets.
  \<^item> \<open>Server_Settings\<close>: both settings of \<open>internal/config\<close>, and \<open>cmd/server/main.go\<close> up to serving.

  The host agent (\<open>host-agent\<close>).
  \<^item> \<open>Json_Value\<close>, \<open>Agent_Config\<close>, \<open>Agent_Client\<close>: decoded JSON, the configuration manager and the
    client of \<open>internal/config\<close>. What the transport delivers is an argument.
  \<^item> \<open>Agent_Link\<close>: the run of an agent against the modelled server as \<open>link_step\<close>.
  \<^item> \<open>Agent_Ebpf\<close>: \<open>internal/ebpf/manager.go\<close> and \<open>cmd/agent/main.go\<close>, over the record of kernel
    operations of \<open>Ebpf_Manager\<close>.
  \<^item> \<open>Agent_Security\<close>: \<open>internal/security\<close> on a tree of files and the credentials of the process.

  Loops are structural recursion over the list they range over, or a \<open>function\<close> with a measure.
  The loops that wait for the outside world, \<open>readPump\<close> and \<open>writePump\<close>, are recursive over what becomes ready for them, and
  say whether they have ended; \<open>write_pump_ends\<close> shows that \<open>writePump\<close> ends within two turns at its channel once the hub has
  let go of the client. Fuel is used once: \<open>json_elems\<close> gets the length of the text, each element takes one, and
  \<open>json_slice_array\<close> shows that this reads back everything \<open>jsonArray\<close> writes.

  Not modelled: \<open>DeepCopy\<close> of the agent's configuration, which is no Go program, and \<open>Scan\<close> and \<open>Value\<close>
  of the server's, which nothing calls. The text of JSON is not parsed or printed. When reads and writes of a WebSocket fail, by a deadline or otherwise, is left open. Log lines, CORS,
  request ids, symbolic links and requests for which \<open>chi\<close> routes on another path than the decoded one are left out.
  \<open>server_process\<close> ends when \<open>ListenAndServe\<close> has returned an error.
\<close>

end
